(* ===== verification/Prelude.thy ===== *)
theory Prelude
  imports Main "HOL-Library.Word"
begin

text \<open>
  Shared vocabulary of the development: the machine integers of the Rust sources, byte
  buffers, the two ways a SQL-callable function can fail, and the generic lemmas on
  results, lists and words that the component theories use.

  \<^item> \<open>u8\<close>, \<open>u32\<close> and \<open>i32\<close> keep their width. An \<open>i32\<close> is the same bit pattern read with
    \<^const>\<open>sint\<close>, so that Rust's \<open>cast_unsigned\<close> is the identity.
  \<^item> \<open>usize\<close> values are lengths and indices of byte vectors; they are \<^typ>\<open>nat\<close>.
  \<^item> \<open>pgrx::error!\<close> does not return: it is \<open>Inl (PgError msg)\<close>. A Rust panic
    (\<open>unreachable!\<close>, a slice out of range, a failed \<open>expect\<close>) is \<open>Inl (Panic msg)\<close>.
  \<^item> A Rust \<open>Result\<close> of a crate outside the repository is \<open>string + 'a\<close>: of its error only
    the \<open>Display\<close> text is ever used.
\<close>

section \<open>Collections of facts\<close>

named_theorems result_simps \<open>rewriting sequenced results\<close>
named_theorems result_elims \<open>inverting a successful sequence of results\<close>
named_theorems name_eval \<open>evaluating string functions on literals\<close>

section \<open>Types\<close>

type_synonym u8 = "8 word"
type_synonym u32 = "32 word"
type_synonym i32 = "32 word"
type_synonym bytes = "u8 list"

datatype pg_error = PgError string | Panic string

type_synonym 'a result = "pg_error + 'a"
type_synonym 'a lib_result = "string + 'a"

abbreviation raise_error :: "string \<Rightarrow> 'a result" where
  "raise_error msg \<equiv> Inl (PgError msg)"

abbreviation panic :: "string \<Rightarrow> 'a result" where
  "panic msg \<equiv> Inl (Panic msg)"

section \<open>Sequencing results\<close>

definition and_then :: "'e + 'a \<Rightarrow> ('a \<Rightarrow> 'e + 'b) \<Rightarrow> 'e + 'b" where
  "and_then m f = (case m of Inl e \<Rightarrow> Inl e | Inr x \<Rightarrow> f x)"

definition unwrap_or_else :: "'a lib_result \<Rightarrow> (string \<Rightarrow> pg_error) \<Rightarrow> 'a result" where
  "unwrap_or_else r h = (case r of Inl e \<Rightarrow> Inl (h e) | Inr x \<Rightarrow> Inr x)"

definition ok_or :: "'a option \<Rightarrow> 'e \<Rightarrow> 'e + 'a" where
  "ok_or x e = (case x of None \<Rightarrow> Inl e | Some y \<Rightarrow> Inr y)"

definition is_ok :: "'e + 'a \<Rightarrow> bool" where
  "is_ok r = (case r of Inl _ \<Rightarrow> False | Inr _ \<Rightarrow> True)"

fun map_result :: "('a \<Rightarrow> 'e + 'b) \<Rightarrow> 'a list \<Rightarrow> 'e + 'b list" where
  "map_result f [] = Inr []"
| "map_result f (x # xs) = and_then (f x) (\<lambda>y. and_then (map_result f xs) (\<lambda>ys. Inr (y # ys)))"

lemma and_then_simps [simp, result_simps]:
  "and_then (Inl e) f = Inl e"
  "and_then (Inr x) f = f x"
  by (simp_all add: and_then_def)

lemma unwrap_or_else_simps [simp, result_simps]:
  "unwrap_or_else (Inl e) h = Inl (h e)"
  "unwrap_or_else (Inr x) h = Inr x"
  by (simp_all add: unwrap_or_else_def)

lemma ok_or_simps [simp, result_simps]:
  "ok_or None e = Inl e"
  "ok_or (Some x) e = Inr x"
  by (simp_all add: ok_or_def)

lemma is_ok_simps [simp, result_simps]:
  "\<not> is_ok (Inl e)"
  "is_ok (Inr x)"
  by (simp_all add: is_ok_def)

lemma and_then_eq_Inr [result_elims]:
  "and_then m f = Inr y \<longleftrightarrow> (\<exists>x. m = Inr x \<and> f x = Inr y)"
  by (cases m) auto

lemma and_then_eq_Inl:
  "and_then m f = Inl e \<longleftrightarrow> m = Inl e \<or> (\<exists>x. m = Inr x \<and> f x = Inl e)"
  by (cases m) auto

lemma unwrap_or_else_eq_Inr [result_elims]:
  "unwrap_or_else r h = Inr x \<longleftrightarrow> r = Inr x"
  by (cases r) auto

lemma ok_or_eq_Inr [result_elims]: "ok_or x e = Inr y \<longleftrightarrow> x = Some y"
  by (cases x) auto

lemma and_then_assoc [result_simps]:
  "and_then (and_then m f) g = and_then m (\<lambda>x. and_then (f x) g)"
  by (cases m) auto

lemma and_then_if [result_simps]:
  "and_then (if b then x else y) f = (if b then and_then x f else and_then y f)"
  by simp

lemma and_then_cong [fundef_cong]:
  "m = n \<Longrightarrow> (\<And>x. n = Inr x \<Longrightarrow> f x = g x) \<Longrightarrow> and_then m f = and_then n g"
  by (cases n) auto

lemma is_ok_iff: "is_ok r \<longleftrightarrow> (\<exists>x. r = Inr x)"
  by (cases r) auto

lemma map_result_eq_Inr:
  "map_result f xs = Inr ys \<longleftrightarrow> list_all2 (\<lambda>x y. f x = Inr y) xs ys"
  by (induction xs arbitrary: ys) (auto simp: and_then_eq_Inr list_all2_Cons1)

lemma map_result_eq_Inl:
  "map_result f xs = Inl e \<longleftrightarrow>
    (\<exists>pre x post. xs = pre @ x # post \<and> list_all (\<lambda>y. is_ok (f y)) pre \<and> f x = Inl e)"
proof (induction xs)
  case (Cons x xs)
  show ?case
  proof (cases "f x")
    case (Inl d)
    then show ?thesis by (fastforce simp: Cons_eq_append_conv)
  next
    case (Inr y)
    have "(\<exists>pre z post. x # xs = pre @ z # post \<and> list_all (\<lambda>y. is_ok (f y)) pre \<and> f z = Inl e) \<longleftrightarrow>
        (\<exists>pre z post. xs = pre @ z # post \<and> list_all (\<lambda>y. is_ok (f y)) pre \<and> f z = Inl e)" (is "?l \<longleftrightarrow> ?r")
    proof
      assume ?l
      then obtain pre z post where "x # xs = pre @ z # post" "list_all (\<lambda>y. is_ok (f y)) pre" "f z = Inl e" by blast
      with Inr show ?r by (cases pre) auto
    next
      assume ?r
      then obtain pre z post where "xs = pre @ z # post" "list_all (\<lambda>y. is_ok (f y)) pre" "f z = Inl e" by blast
      with Inr show ?l by (intro exI [of _ "x # pre"] exI [of _ z] exI [of _ post]) simp
    qed
    then show ?thesis using Cons Inr by (simp add: and_then_eq_Inl)
  qed
qed simp

lemma map_result_Inr_map:
  "(\<And>x. x \<in> set xs \<Longrightarrow> f x = Inr (g x)) \<Longrightarrow> map_result f xs = Inr (map g xs)"
  by (induction xs) auto

section \<open>Results that depend on randomness\<close>

text \<open>
  A function that draws randomness, directly or in a library call, takes the state of the
  random number generator and returns it with its result, also when it fails.
\<close>

type_synonym ('w, 'a) io = "'w \<Rightarrow> 'a result \<times> 'w"
type_synonym ('w, 'a) lib_io = "'w \<Rightarrow> 'a lib_result \<times> 'w"

definition io_then ::
  "('w \<Rightarrow> ('e + 'a) \<times> 'w) \<Rightarrow> ('a \<Rightarrow> 'w \<Rightarrow> ('e + 'b) \<times> 'w) \<Rightarrow> 'w \<Rightarrow> ('e + 'b) \<times> 'w" where
  "io_then m f w = (case m w of (Inl e, w') \<Rightarrow> (Inl e, w') | (Inr x, w') \<Rightarrow> f x w')"

definition io_pure :: "'e + 'a \<Rightarrow> 'w \<Rightarrow> ('e + 'a) \<times> 'w" where
  "io_pure r w = (r, w)"

definition io_unwrap_or_else :: "('w, 'a) lib_io \<Rightarrow> (string \<Rightarrow> pg_error) \<Rightarrow> ('w, 'a) io" where
  "io_unwrap_or_else m h w = (case m w of (r, w') \<Rightarrow> (unwrap_or_else r h, w'))"

lemma io_then_pure [simp, result_simps]:
  "io_then (io_pure (Inl e)) f w = (Inl e, w)"
  "io_then (io_pure (Inr x)) f w = f x w"
  by (simp_all add: io_then_def io_pure_def)

lemma io_then_step [result_simps]:
  "m w = (Inr x, w') \<Longrightarrow> io_then m f w = f x w'"
  "m w = (Inl e, w') \<Longrightarrow> io_then m f w = (Inl e, w')"
  by (simp_all add: io_then_def)

lemma io_then_eq_Inr [result_elims]:
  "io_then m f w = (Inr y, v) \<longleftrightarrow> (\<exists>x u. m w = (Inr x, u) \<and> f x u = (Inr y, v))"
  by (auto simp: io_then_def split: prod.splits sum.splits)

lemma io_then_eq_Inl:
  "io_then m f w = (Inl e, v) \<longleftrightarrow>
    m w = (Inl e, v) \<or> (\<exists>x u. m w = (Inr x, u) \<and> f x u = (Inl e, v))"
  by (auto simp: io_then_def split: prod.splits sum.splits)

lemma io_then_assoc [result_simps]:
  "io_then (io_then m f) g w = io_then m (\<lambda>x. io_then (f x) g) w"
  by (auto simp: io_then_def split: prod.splits sum.splits)

lemma io_unwrap_eq_Inr [result_elims]:
  "io_unwrap_or_else m h w = (Inr x, v) \<longleftrightarrow> m w = (Inr x, v)"
  by (auto simp: io_unwrap_or_else_def unwrap_or_else_eq_Inr split: prod.splits)

lemma io_unwrap_eq_Inl:
  "io_unwrap_or_else m h w = (Inl e, v) \<longleftrightarrow> (\<exists>t. m w = (Inl t, v) \<and> e = h t)"
  by (auto simp: io_unwrap_or_else_def unwrap_or_else_def split: prod.splits sum.splits)

lemma io_pure_eq [result_elims]: "io_pure r w = (s, v) \<longleftrightarrow> r = s \<and> w = v"
  by (simp add: io_pure_def)

lemmas io_run = io_then_def io_pure_def io_unwrap_or_else_def

section \<open>Failing with the text of a library error\<close>

text \<open>
  The \<open>*_error(context, error)\<close> helpers of the sources all format \<open>"{context}: {error}"\<close>.
\<close>

definition context_error :: "string \<Rightarrow> string \<Rightarrow> pg_error" where
  "context_error ctx e = PgError (ctx @ '': '' @ e)"

section \<open>Absence of panics\<close>

named_theorems no_panics \<open>operations that cannot panic\<close>

definition no_panic :: "'a result \<Rightarrow> bool" where
  "no_panic r = (case r of Inl (Panic _) \<Rightarrow> False | _ \<Rightarrow> True)"

lemma no_panic_simps [simp]:
  "no_panic (Inr x)"
  "no_panic (raise_error msg)"
  "\<not> no_panic (panic msg)"
  "no_panic (Inl (context_error ctx e))"
  by (simp_all add: no_panic_def context_error_def)

lemma no_panic_iff: "no_panic r \<longleftrightarrow> (\<forall>msg. r \<noteq> panic msg)"
  by (auto simp: no_panic_def split: sum.splits pg_error.splits)

lemma no_panic_and_then [no_panics]:
  "no_panic m \<Longrightarrow> (\<And>x. m = Inr x \<Longrightarrow> no_panic (f x)) \<Longrightarrow> no_panic (and_then m f)"
  by (cases m) (auto simp: no_panic_iff)

lemma no_panic_if [no_panics]:
  "(b \<Longrightarrow> no_panic x) \<Longrightarrow> (\<not> b \<Longrightarrow> no_panic y) \<Longrightarrow> no_panic (if b then x else y)"
  by simp

lemma no_panic_unwrap [no_panics]: "(\<And>e. no_panic (Inl (h e) :: 'a result)) \<Longrightarrow> no_panic (unwrap_or_else r h :: 'a result)"
  by (cases r) auto

lemma no_panic_ok_or [no_panics]: "no_panic (ok_or x (PgError e))"
  by (cases x) auto

lemma no_panic_map_result [no_panics]:
  "(\<And>x. x \<in> set xs \<Longrightarrow> no_panic (f x)) \<Longrightarrow> no_panic (map_result f xs)"
  by (induction xs) (auto intro!: no_panic_and_then)

lemma no_panic_io_then [no_panics]:
  "no_panic (fst (m w)) \<Longrightarrow> (\<And>x u. m w = (Inr x, u) \<Longrightarrow> no_panic (fst (f x u))) \<Longrightarrow> no_panic (fst (io_then m f w))"
  by (cases "m w" rule: prod.exhaust, rename_tac r u, case_tac r) (auto simp: io_then_def no_panic_iff)

lemma no_panic_io_pure [no_panics]: "no_panic r \<Longrightarrow> no_panic (fst (io_pure r w))"
  by (simp add: io_pure_def)

lemma no_panic_io_unwrap [no_panics]:
  "(\<And>e. no_panic (Inl (h e) :: 'a result)) \<Longrightarrow> no_panic (fst (io_unwrap_or_else m h w) :: 'a result)"
  by (auto simp: io_unwrap_or_else_def intro: no_panic_unwrap split: prod.splits)

section \<open>Lists\<close>

lemma take_append_exact [simp]: "length xs = n \<Longrightarrow> take n (xs @ ys) = xs"
  by simp

lemma drop_append_exact [simp]: "length xs = n \<Longrightarrow> drop n (xs @ ys) = ys"
  by simp

lemma nth_replicate_concat:
  assumes "xs \<noteq> []" and "i < n * length xs"
  shows "concat (replicate n xs) ! i = xs ! (i mod length xs)"
  using assms(2)
proof (induction n arbitrary: i)
  case 0
  then show ?case by simp
next
  case (Suc n)
  show ?case
  proof (cases "i < length xs")
    case True
    then show ?thesis by (simp add: nth_append)
  next
    case False
    with Suc.prems have "i - length xs < n * length xs" by simp
    with Suc.IH have "concat (replicate n xs) ! (i - length xs) = xs ! ((i - length xs) mod length xs)"
      by blast
    with False show ?thesis by (simp add: nth_append le_mod_geq)
  qed
qed

lemma length_concat_replicate [simp]: "length (concat (replicate n xs)) = n * length xs"
  by (induction n) auto

section \<open>Words\<close>

lemma sint_nonneg_unat:
  assumes "0 \<le> sint (w :: i32)"
  shows "nat (sint w) = unat w"
proof -
  have "sint w < 2 ^ 31" using sint_lt [of w] by simp
  then have "uint w = sint w"
    using assms by (simp add: uint_sint take_bit_int_eq_self)
  then show ?thesis by (simp add: unat_eq_nat_uint)
qed

lemma unat_of_nat_u32: "n < 2 ^ 32 \<Longrightarrow> unat (of_nat n :: u32) = n"
  by (simp add: unat_of_nat)

lemma unat_of_nat_u8: "n < 256 \<Longrightarrow> unat (of_nat n :: u8) = n"
  by (simp add: unat_of_nat)

end
