(* ===== verification/Rust_Std.thy ===== *)
theory Rust_Std
  imports Prelude "HOL-Library.Sublist"
begin

text \<open>
  The part of Rust's standard library that the sources use on strings.

  A \<open>&str\<close> is its UTF-8 encoding, so a \<^typ>\<open>string\<close> (a list of 8-bit characters) holds the
  bytes of the text: \<open>len\<close>, slicing and \<open>find\<close> count bytes, as in Rust, and \<open>as_bytes\<close> is a
  change of type. Every operation below agrees with Rust's on strings that are valid UTF-8,
  which is what \<^term>\<open>utf8_ok\<close> decides and what the type \<open>str\<close> guarantees.
\<close>

section \<open>Bytes and characters\<close>

definition ccode :: "char \<Rightarrow> nat" where
  "ccode c = of_char c"

definition byte_of_char :: "char \<Rightarrow> u8" where
  "byte_of_char c = of_nat (ccode c)"

definition char_of_byte :: "u8 \<Rightarrow> char" where
  "char_of_byte b = char_of (unat b)"

definition as_bytes :: "string \<Rightarrow> bytes" where
  "as_bytes s = map byte_of_char s"

definition string_of_bytes :: "bytes \<Rightarrow> string" where
  "string_of_bytes bs = map char_of_byte bs"

lemma of_char_nat_less: "(of_char c :: nat) < 256"
  by (metis (full_types) char_of_mod_256 mod_less_divisor of_char_mod_256 zero_less_numeral)

lemma ccode_less [simp]: "ccode c < 256"
  by (simp add: ccode_def of_char_nat_less)

lemma unat_byte_of_char: "unat (byte_of_char c) = ccode c"
  by (simp add: byte_of_char_def unat_of_nat_u8)

lemma char_of_byte_of_char [simp]: "char_of_byte (byte_of_char c) = c"
  by (simp add: char_of_byte_def unat_byte_of_char ccode_def)

lemma byte_of_char_of_byte [simp]: "byte_of_char (char_of_byte b) = b"
proof -
  have "unat b < 256" using unsigned_less [of b] by simp
  then have "ccode (char_of (unat b)) = unat b" by (simp add: ccode_def)
  then have "unat (byte_of_char (char_of (unat b))) = unat b"
    by (simp add: unat_byte_of_char)
  then show ?thesis by (simp add: char_of_byte_def word_unat_eq_iff)
qed

lemma string_of_bytes_as_bytes [simp]: "string_of_bytes (as_bytes s) = s"
  by (simp add: string_of_bytes_def as_bytes_def comp_def)

lemma as_bytes_string_of_bytes [simp]: "as_bytes (string_of_bytes bs) = bs"
  by (simp add: string_of_bytes_def as_bytes_def comp_def)

lemma length_as_bytes [simp]: "length (as_bytes s) = length s"
  by (simp add: as_bytes_def)

lemma as_bytes_append [simp]: "as_bytes (s @ t) = as_bytes s @ as_bytes t"
  by (simp add: as_bytes_def)

lemma as_bytes_inject [simp]: "as_bytes s = as_bytes t \<longleftrightarrow> s = t"
  by (metis string_of_bytes_as_bytes)

section \<open>UTF-8\<close>

definition cont_byte :: "u8 \<Rightarrow> bool" where
  "cont_byte b \<longleftrightarrow> 0x80 \<le> b \<and> b \<le> 0xBF"

definition second_of_3 :: "u8 \<Rightarrow> u8 \<Rightarrow> bool" where
  "second_of_3 a b =
    (if a = 0xE0 then 0xA0 \<le> b \<and> b \<le> 0xBF
     else if a = 0xED then 0x80 \<le> b \<and> b \<le> 0x9F else cont_byte b)"

definition second_of_4 :: "u8 \<Rightarrow> u8 \<Rightarrow> bool" where
  "second_of_4 a b =
    (if a = 0xF0 then 0x90 \<le> b \<and> b \<le> 0xBF
     else if a = 0xF4 then 0x80 \<le> b \<and> b \<le> 0x8F else cont_byte b)"

text \<open>
  The first encoding error of a buffer whose first byte has index \<open>i\<close>: its position, and
  its length unless the input ends inside a character. \<^const>\<open>None\<close> means valid.
\<close>

fun utf8_scan :: "nat \<Rightarrow> bytes \<Rightarrow> (nat \<times> nat option) option" where
  "utf8_scan i [] = None"
| "utf8_scan i (a # xs) =
    (if a < 0x80 then utf8_scan (i + 1) xs
     else if 0xC2 \<le> a \<and> a \<le> 0xDF then
       (case xs of [] \<Rightarrow> Some (i, None)
        | b # ys \<Rightarrow> if \<not> cont_byte b then Some (i, Some 1) else utf8_scan (i + 2) ys)
     else if 0xE0 \<le> a \<and> a \<le> 0xEF then
       (case xs of [] \<Rightarrow> Some (i, None)
        | b # ys \<Rightarrow> if \<not> second_of_3 a b then Some (i, Some 1)
          else (case ys of [] \<Rightarrow> Some (i, None)
            | c # zs \<Rightarrow> if \<not> cont_byte c then Some (i, Some 2) else utf8_scan (i + 3) zs))
     else if 0xF0 \<le> a \<and> a \<le> 0xF4 then
       (case xs of [] \<Rightarrow> Some (i, None)
        | b # ys \<Rightarrow> if \<not> second_of_4 a b then Some (i, Some 1)
          else (case ys of [] \<Rightarrow> Some (i, None)
            | c # zs \<Rightarrow> if \<not> cont_byte c then Some (i, Some 2)
              else (case zs of [] \<Rightarrow> Some (i, None)
                | d # rs \<Rightarrow> if \<not> cont_byte d then Some (i, Some 3) else utf8_scan (i + 4) rs)))
     else Some (i, Some 1))"

declare utf8_scan.simps(2) [simp del]

text \<open>The well-formed encodings, without the bookkeeping of the scan.\<close>

fun utf8_ok :: "bytes \<Rightarrow> bool" where
  "utf8_ok [] = True"
| "utf8_ok (a # xs) =
    (if a < 0x80 then utf8_ok xs
     else if 0xC2 \<le> a \<and> a \<le> 0xDF then
       (case xs of b # ys \<Rightarrow> cont_byte b \<and> utf8_ok ys | _ \<Rightarrow> False)
     else if 0xE0 \<le> a \<and> a \<le> 0xEF then
       (case xs of b # c # ys \<Rightarrow> second_of_3 a b \<and> cont_byte c \<and> utf8_ok ys | _ \<Rightarrow> False)
     else if 0xF0 \<le> a \<and> a \<le> 0xF4 then
       (case xs of b # c # d # ys \<Rightarrow> second_of_4 a b \<and> cont_byte c \<and> cont_byte d \<and> utf8_ok ys
        | _ \<Rightarrow> False)
     else False)"

declare utf8_ok.simps(2) [simp del]

lemma utf8_scan_None: "utf8_scan i bs = None \<longleftrightarrow> utf8_ok bs"
proof (induction i bs rule: utf8_scan.induct)
  case (1 i)
  then show ?case by simp
next
  case (2 i a xs)
  show ?case
    unfolding utf8_scan.simps(2) utf8_ok.simps(2) using "2.IH" by (simp split: list.splits)
qed

text \<open>The \<open>Display\<close> text of an unsigned integer, and of \<open>Utf8Error\<close>.\<close>

fun show_nat :: "nat \<Rightarrow> string" where
  "show_nat n = (if n < 10 then [char_of (48 + n)]
     else show_nat (n div 10) @ [char_of (48 + n mod 10)])"

declare show_nat.simps [simp del]

definition utf8_error_text :: "nat \<times> nat option \<Rightarrow> string" where
  "utf8_error_text e = (case e of
      (i, Some n) \<Rightarrow> ''invalid utf-8 sequence of '' @ show_nat n @ '' bytes from index '' @ show_nat i
    | (i, None) \<Rightarrow> ''incomplete utf-8 byte sequence from index '' @ show_nat i)"

text \<open>\<open>String::from_utf8\<close>.\<close>

definition from_utf8 :: "bytes \<Rightarrow> string lib_result" where
  "from_utf8 bs = (case utf8_scan 0 bs of
      None \<Rightarrow> Inr (string_of_bytes bs) | Some e \<Rightarrow> Inl (utf8_error_text e))"

lemma from_utf8_as_bytes: "utf8_ok (as_bytes s) \<Longrightarrow> from_utf8 (as_bytes s) = Inr s"
  by (simp add: from_utf8_def utf8_scan_None [of 0, symmetric])

lemma from_utf8_eq_Inr: "from_utf8 bs = Inr s \<longleftrightarrow> utf8_ok bs \<and> bs = as_bytes s"
  by (auto simp: from_utf8_def utf8_scan_None [of 0, symmetric] split: option.splits)

lemma from_utf8_eq_Inl: "from_utf8 bs = Inl e \<Longrightarrow> \<not> utf8_ok bs"
  by (auto simp: from_utf8_def utf8_scan_None [of 0, symmetric] split: option.splits)

lemma utf8_ok_ascii: "(\<And>b. b \<in> set bs \<Longrightarrow> b < 0x80) \<Longrightarrow> utf8_ok bs"
  by (induction bs) (auto simp: utf8_ok.simps)

section \<open>ASCII case\<close>

definition ascii_lower :: "char \<Rightarrow> char" where
  "ascii_lower c = (if 65 \<le> ccode c \<and> ccode c \<le> 90 then char_of (ccode c + 32) else c)"

definition to_ascii_lowercase :: "string \<Rightarrow> string" where
  "to_ascii_lowercase s = map ascii_lower s"

definition is_ascii :: "string \<Rightarrow> bool" where
  "is_ascii s = list_all (\<lambda>c. ccode c < 128) s"

lemma ascii_lower_idem [simp]: "ascii_lower (ascii_lower c) = ascii_lower c"
  by (simp add: ascii_lower_def ccode_def)

lemma to_ascii_lowercase_idem [simp]:
  "to_ascii_lowercase (to_ascii_lowercase s) = to_ascii_lowercase s"
  by (simp add: to_ascii_lowercase_def)

lemma length_to_ascii_lowercase [simp]: "length (to_ascii_lowercase s) = length s"
  by (simp add: to_ascii_lowercase_def)

lemma ascii_lower_eq_other:
  "\<not> (97 \<le> ccode d \<and> ccode d \<le> 122) \<Longrightarrow> ascii_lower c = d \<longleftrightarrow> c = d \<and> \<not> (65 \<le> ccode d \<and> ccode d \<le> 90)"
  by (auto simp: ascii_lower_def ccode_def)

section \<open>Splitting and searching\<close>

fun split_on :: "char \<Rightarrow> string \<Rightarrow> string list" where
  "split_on c [] = [[]]"
| "split_on c (x # xs) =
    (if x = c then [] # split_on c xs
     else (case split_on c xs of p # ps \<Rightarrow> (x # p) # ps | [] \<Rightarrow> [[x]]))"

fun split_once :: "char \<Rightarrow> string \<Rightarrow> (string \<times> string) option" where
  "split_once c [] = None"
| "split_once c (x # xs) =
    (if x = c then Some ([], xs)
     else map_option (\<lambda>(a, b). (x # a, b)) (split_once c xs))"

fun contains_str :: "string \<Rightarrow> string \<Rightarrow> bool" where
  "contains_str p [] = (p = [])"
| "contains_str p (x # xs) = (prefix p (x # xs) \<or> contains_str p xs)"

definition contains_char :: "char \<Rightarrow> string \<Rightarrow> bool" where
  "contains_char c s = list_ex (\<lambda>x. x = c) s"

fun find_char :: "char \<Rightarrow> string \<Rightarrow> nat option" where
  "find_char c [] = None"
| "find_char c (x # xs) = (if x = c then Some 0 else map_option Suc (find_char c xs))"

text \<open>\<open>s.match_indices(c)\<close>: the byte positions of \<open>c\<close>, in order.\<close>

definition match_indices :: "char \<Rightarrow> string \<Rightarrow> nat list" where
  "match_indices c s = filter (\<lambda>i. s ! i = c) [0 ..< length s]"

text \<open>\<open>s.replace(c, "")\<close> for a single character.\<close>

definition remove_char :: "char \<Rightarrow> string \<Rightarrow> string" where
  "remove_char c s = filter (\<lambda>x. x \<noteq> c) s"

text \<open>\<open>s.replace(from, to)\<close> for a non-empty pattern: matches are taken left to right and do
  not overlap.\<close>

function replace_str :: "string \<Rightarrow> string \<Rightarrow> string \<Rightarrow> string" where
  "replace_str p r [] = []"
| "replace_str p r (x # xs) =
    (if p \<noteq> [] \<and> prefix p (x # xs) then r @ replace_str p r (drop (length p) (x # xs))
     else x # replace_str p r xs)"
  by pat_completeness auto
termination
  by (relation "measure (\<lambda>(p, r, s). length s)") auto

section \<open>Slices\<close>

text \<open>
  \<open>&s[..n]\<close> and \<open>&s[n..]\<close> panic when \<open>n\<close> is past the end or inside the encoding of a character.
\<close>

definition is_char_boundary :: "string \<Rightarrow> nat \<Rightarrow> bool" where
  "is_char_boundary s i \<longleftrightarrow>
    i = 0 \<or> i = length s \<or> (i < length s \<and> \<not> (0x80 \<le> ccode (s ! i) \<and> ccode (s ! i) < 0xC0))"

definition str_to :: "string \<Rightarrow> nat \<Rightarrow> string result" where
  "str_to s n = (if is_char_boundary s n then Inr (take n s)
     else panic ''byte index is not a char boundary or out of bounds'')"

definition str_from :: "string \<Rightarrow> nat \<Rightarrow> string result" where
  "str_from s n = (if is_char_boundary s n then Inr (drop n s)
     else panic ''byte index is not a char boundary or out of bounds'')"

text \<open>\<open>s.get(i..j)\<close>, which answers \<open>None\<close> where the slice would panic.\<close>

definition str_get :: "string \<Rightarrow> nat \<Rightarrow> nat \<Rightarrow> string option" where
  "str_get s i j = (if i \<le> j \<and> is_char_boundary s i \<and> is_char_boundary s j
     then Some (take (j - i) (drop i s)) else None)"

text \<open>\<open>&data[i..j]\<close> on bytes.\<close>

definition slice_range :: "bytes \<Rightarrow> nat \<Rightarrow> nat \<Rightarrow> bytes result" where
  "slice_range data i j = (if i \<le> j \<and> j \<le> length data then Inr (take (j - i) (drop i data))
     else panic ''range end index out of range for slice'')"

lemma slice_range_ok [simp]: "i \<le> j \<Longrightarrow> j \<le> length data \<Longrightarrow> slice_range data i j = Inr (take (j - i) (drop i data))"
  by (simp add: slice_range_def)

text \<open>
  \<open>data[i]\<close>, which panics out of range, \<open>data.get(i)\<close>, which does not, and
  \<open>out[..n].copy_from_slice(src)\<close>, which panics when \<open>n\<close> is out of range or not the length of \<open>src\<close>.
\<close>

definition index_u8 :: "bytes \<Rightarrow> nat \<Rightarrow> u8 result" where
  "index_u8 data i = (if i < length data then Inr (data ! i) else panic ''index out of bounds'')"

definition get_u8 :: "bytes \<Rightarrow> nat \<Rightarrow> u8 option" where
  "get_u8 data i = (if i < length data then Some (data ! i) else None)"

definition copy_to_front :: "bytes \<Rightarrow> nat \<Rightarrow> bytes \<Rightarrow> bytes result" where
  "copy_to_front out n src =
    and_then (slice_range out 0 n) (\<lambda>dest.
      if length dest \<noteq> length src then panic ''copy_from_slice: source slice length does not match destination slice length''
      else Inr (src @ drop n out))"

lemma index_u8_ok [simp]: "i < length data \<Longrightarrow> index_u8 data i = Inr (data ! i)"
  by (simp add: index_u8_def)

lemma get_u8_Some: "get_u8 data i = Some b \<longleftrightarrow> i < length data \<and> data ! i = b"
  by (simp add: get_u8_def)

lemma copy_to_front_ok [simp]:
  "n \<le> length out \<Longrightarrow> length src = n \<Longrightarrow> copy_to_front out n src = Inr (src @ drop n out)"
  by (simp add: copy_to_front_def)

section \<open>White space\<close>

text \<open>
  \<open>str::trim\<close> removes the characters with the Unicode property \<open>White_Space\<close>. These are
  their UTF-8 encodings: U+0009 to U+000D, U+0020, U+0085, U+00A0, U+1680, U+2000 to U+200A,
  U+2028, U+2029, U+202F, U+205F and U+3000.
\<close>

definition white_space :: "string list" where
  "white_space =
    map (\<lambda>n. [char_of n]) [0x09, 0x0A, 0x0B, 0x0C, 0x0D, 0x20 :: nat] @
    [[CHR 0xC2, CHR 0x85], [CHR 0xC2, CHR 0xA0], [CHR 0xE1, CHR 0x9A, CHR 0x80]] @
    map (\<lambda>n. [CHR 0xE2, CHR 0x80, char_of n])
      [0x80, 0x81, 0x82, 0x83, 0x84, 0x85, 0x86, 0x87, 0x88, 0x89, 0x8A, 0xA8, 0xA9, 0xAF :: nat] @
    [[CHR 0xE2, CHR 0x81, CHR 0x9F], [CHR 0xE3, CHR 0x80, CHR 0x80]]"

definition strip_one :: "string list \<Rightarrow> string \<Rightarrow> string option" where
  "strip_one ws s = map_option (\<lambda>w. drop (length w) s) (List.find (\<lambda>w. w \<noteq> [] \<and> prefix w s) ws)"

lemma strip_one_shorter: "strip_one ws s = Some t \<Longrightarrow> length t < length s"
  by (auto simp: strip_one_def find_Some_iff prefix_def)

function strip_all :: "string list \<Rightarrow> string \<Rightarrow> string" where
  "strip_all ws s = (case strip_one ws s of None \<Rightarrow> s | Some t \<Rightarrow> strip_all ws t)"
  by pat_completeness auto
termination
  by (relation "measure (\<lambda>(ws, s). length s)") (auto dest: strip_one_shorter)

declare strip_all.simps [simp del]

definition trim_start :: "string \<Rightarrow> string" where
  "trim_start s = strip_all white_space s"

definition trim_end :: "string \<Rightarrow> string" where
  "trim_end s = rev (strip_all (map rev white_space) (rev s))"

definition trim :: "string \<Rightarrow> string" where
  "trim s = trim_end (trim_start s)"

section \<open>Decimal integers\<close>

definition is_digit :: "char \<Rightarrow> bool" where
  "is_digit c \<longleftrightarrow> 48 \<le> ccode c \<and> ccode c \<le> 57"

definition digits_value :: "string \<Rightarrow> nat" where
  "digits_value s = foldl (\<lambda>n c. 10 * n + (ccode c - 48)) 0 s"

text \<open>
  \<open>s.parse::<uN>()\<close>: an optional \<open>+\<close>, then one or more decimal digits whose value fits; a
  minus sign is not accepted by the unsigned types. \<open>bound\<close> is \<open>2 ^ N\<close>.
\<close>

definition parse_unsigned :: "nat \<Rightarrow> string \<Rightarrow> nat option" where
  "parse_unsigned bound s =
    (let ds = (case s of c # cs \<Rightarrow> if c = CHR ''+'' then cs else s | [] \<Rightarrow> s)
     in if ds \<noteq> [] \<and> list_all is_digit ds \<and> digits_value ds < bound
        then Some (digits_value ds) else None)"

definition parse_u8 :: "string \<Rightarrow> u8 option" where
  "parse_u8 s = map_option of_nat (parse_unsigned (2 ^ 8) s)"

definition parse_u32 :: "string \<Rightarrow> u32 option" where
  "parse_u32 s = map_option of_nat (parse_unsigned (2 ^ 32) s)"

section \<open>Facts about splitting\<close>

lemma split_on_not_Nil [simp]: "split_on c s \<noteq> []"
  by (induction s) (auto split: list.splits)

lemma split_on_no_sep: "c \<notin> set s \<Longrightarrow> split_on c s = [s]"
  by (induction s) auto

lemma split_on_append: "split_on c (s @ c # t) = split_on c s @ split_on c t"
proof (induction s)
  case Nil
  then show ?case by simp
next
  case (Cons x s)
  then show ?case by (cases "split_on c s") auto
qed

fun join_with :: "char \<Rightarrow> string list \<Rightarrow> string" where
  "join_with c [] = []"
| "join_with c [s] = s"
| "join_with c (s # t # ss) = s @ c # join_with c (t # ss)"

lemma split_on_join_with:
  "ss \<noteq> [] \<Longrightarrow> (\<And>s. s \<in> set ss \<Longrightarrow> c \<notin> set s) \<Longrightarrow> split_on c (join_with c ss) = ss"
  by (induction c ss rule: join_with.induct) (auto simp: split_on_no_sep split_on_append)

lemma join_with_split_on: "join_with c (split_on c s) = s"
proof (induction s)
  case Nil
  then show ?case by simp
next
  case (Cons x s)
  obtain p ps where ps: "split_on c s = p # ps"
    by (cases "split_on c s") auto
  with Cons have eq: "join_with c (p # ps) = s" by simp
  show ?case
    using ps eq by (cases ps) auto
qed

lemma split_on_parts: "p \<in> set (split_on c s) \<Longrightarrow> c \<notin> set p"
  by (induction s arbitrary: p) (auto split: list.splits if_splits)

lemma split_once_append: "c \<notin> set a \<Longrightarrow> split_once c (a @ c # b) = Some (a, b)"
  by (induction a) auto

lemma split_once_None: "split_once c s = None \<longleftrightarrow> c \<notin> set s"
  by (induction s) auto

lemma split_once_Some: "split_once c s = Some (a, b) \<longleftrightarrow> s = a @ c # b \<and> c \<notin> set a"
proof (induction s arbitrary: a)
  case Nil
  then show ?case by simp
next
  case (Cons x s)
  then show ?case by (cases a) auto
qed

lemma contains_char_iff: "contains_char c s \<longleftrightarrow> c \<in> set s"
  by (auto simp: contains_char_def list_ex_iff)

lemma contains_str_iff: "contains_str p s \<longleftrightarrow> sublist p s"
  by (induction s) (auto simp: sublist_Cons_right)

lemma find_char_None: "find_char c s = None \<longleftrightarrow> c \<notin> set s"
  by (induction s) auto

lemma find_char_append: "c \<notin> set a \<Longrightarrow> find_char c (a @ c # b) = Some (length a)"
  by (induction a) auto

lemma find_char_Some_less: "find_char c s = Some i \<Longrightarrow> i < length s"
  by (induction s arbitrary: i) (auto split: if_splits)

section \<open>Facts about trimming\<close>

text \<open>A character is plain when it is ASCII and no white space.\<close>

definition plain_char :: "char \<Rightarrow> bool" where
  "plain_char c \<longleftrightarrow> 33 \<le> ccode c \<and> ccode c < 128"

lemma white_space_first: "w \<in> set white_space \<Longrightarrow> w \<noteq> [] \<and> \<not> plain_char (hd w) \<and> \<not> plain_char (last w)"
  by (auto simp: white_space_def plain_char_def ccode_def)

lemma strip_all_plain:
  assumes "plain_char c" and "\<And>w. w \<in> set ws \<Longrightarrow> w = [] \<or> \<not> plain_char (hd w)"
  shows "strip_all ws (c # s) = c # s"
proof -
  have "\<not> prefix w (c # s)" if "w \<in> set ws" and "w \<noteq> []" for w
    using assms(2) [OF that(1)] assms(1) that(2) by (auto simp: neq_Nil_conv)
  then have "strip_one ws (c # s) = None"
    by (auto simp: strip_one_def find_None_iff)
  then show ?thesis by (simp add: strip_all.simps)
qed

lemma strip_all_Nil [simp]: "strip_all ws [] = []"
  by (simp add: strip_all.simps strip_one_def find_None_iff option.case_eq_if prefix_def)

lemma trim_start_plain: "plain_char c \<Longrightarrow> trim_start (c # s) = c # s"
  unfolding trim_start_def by (rule strip_all_plain) (auto dest: white_space_first)

lemma trim_end_plain: "plain_char c \<Longrightarrow> trim_end (s @ [c]) = s @ [c]"
  unfolding trim_end_def
  by (simp, subst strip_all_plain) (auto dest!: white_space_first simp: hd_rev)

lemma trim_plain:
  assumes "s \<noteq> [] \<Longrightarrow> plain_char (hd s) \<and> plain_char (last s)"
  shows "trim s = s"
proof (cases "s = []")
  case True
  then show ?thesis by (simp add: trim_def trim_start_def trim_end_def)
next
  case False
  with assms have p: "plain_char (hd s)" "plain_char (last s)" by auto
  have "trim_start s = s"
    using trim_start_plain [OF p(1), of "tl s"] False by simp
  moreover have "trim_end s = s"
    using trim_end_plain [OF p(2), of "butlast s"] False by simp
  ultimately show ?thesis by (simp add: trim_def)
qed

lemma trim_all_plain: "list_all plain_char s \<Longrightarrow> trim s = s"
  by (rule trim_plain) (simp add: list_all_iff)

lemma trim_plain_Cons: "plain_char c \<Longrightarrow> plain_char (last (c # s)) \<Longrightarrow> trim (c # s) = c # s"
  by (rule trim_plain) simp

lemma find_unique:
  "x \<in> set xs \<Longrightarrow> P x \<Longrightarrow> (\<And>y. y \<in> set xs \<Longrightarrow> P y \<Longrightarrow> y = x) \<Longrightarrow> List.find P xs = Some x"
proof (induction xs)
  case (Cons a xs)
  show ?case
  proof (cases "P a")
    case True
    with Cons.prems(3) [of a] show ?thesis by simp
  next
    case False
    then have "x \<in> set xs" using Cons.prems(1,2) by (metis set_ConsD)
    then have "List.find P xs = Some x"
      using Cons.IH Cons.prems(2,3) by (meson list.set_intros(2))
    with False show ?thesis by simp
  qed
qed simp

lemma white_space_ascii: "w \<in> set white_space \<Longrightarrow> ccode (hd w) < 128 \<Longrightarrow> w = [hd w]"
  by (auto simp: white_space_def ccode_def)

lemma trim_leading_blank:
  assumes "ccode c = 32 \<or> 9 \<le> ccode c \<and> ccode c \<le> 13"
  shows "trim (c # s) = trim s"
proof -
  have "ccode c = 9 \<or> ccode c = 10 \<or> ccode c = 11 \<or> ccode c = 12 \<or> ccode c = 13 \<or> ccode c = 32"
    using assms by auto
  moreover have "c = char_of (ccode c)" by (simp add: ccode_def)
  ultimately have "[c] \<in> set white_space" by (auto simp: white_space_def)
  then have "List.find (\<lambda>w. w \<noteq> [] \<and> prefix w (c # s)) white_space = Some [c]"
  proof (rule find_unique)
    fix w
    assume w: "w \<in> set white_space" and "w \<noteq> [] \<and> prefix w (c # s)"
    from this(2) have "hd w = c" by (cases w) auto
    moreover from this have "ccode (hd w) < 128" using assms by auto
    ultimately show "w = [c]" using white_space_ascii [OF w] by simp
  qed simp
  then have "strip_one white_space (c # s) = Some s" by (simp add: strip_one_def)
  then show ?thesis
    by (simp add: trim_def trim_start_def strip_all.simps [of _ "c # s"])
qed

text \<open>Evaluating string functions on literals.\<close>

lemmas [name_eval] = trim_leading_blank trim_plain_Cons trim_all_plain plain_char_def char_of_def bit_Suc_0_iff ccode_def
  to_ascii_lowercase_def ascii_lower_def remove_char_def is_ascii_def

section \<open>Facts about decimal integers\<close>

lemma ccode_char_of_digit: "(d :: nat) < 10 \<Longrightarrow> ccode (char_of (48 + d)) = 48 + d"
  by (simp add: ccode_def)

lemma show_nat_digits: "list_all is_digit (show_nat n) \<and> show_nat n \<noteq> []"
proof (induction n rule: show_nat.induct)
  case (1 n)
  have d: "is_digit (char_of (48 + k))" if "k < 10" for k :: nat
    using that by (simp add: is_digit_def ccode_char_of_digit)
  show ?case
    using 1 d [of n] d [of "n mod 10"] by (subst (1 2) show_nat.simps) auto
qed

lemma digits_value_show_nat: "digits_value (show_nat n) = n"
proof (induction n rule: show_nat.induct)
  case (1 n)
  have d: "ccode (char_of (48 + n mod 10)) = 48 + n mod 10"
    by (simp add: ccode_char_of_digit)
  then show ?case
    using 1 ccode_char_of_digit [of n]
    by (subst show_nat.simps) (auto simp: digits_value_def)
qed

lemma show_nat_plus: "show_nat n = c # s \<Longrightarrow> c \<noteq> CHR ''+''"
  using show_nat_digits [of n] by (auto simp: is_digit_def ccode_def)

lemma parse_unsigned_show_nat: "n < bound \<Longrightarrow> parse_unsigned bound (show_nat n) = Some n"
  using show_nat_digits [of n] digits_value_show_nat [of n]
  by (auto simp: parse_unsigned_def Let_def dest: show_nat_plus split: list.splits)

lemma show_nat_plain: "list_all plain_char (show_nat n)"
  using show_nat_digits [of n] by (auto simp: list_all_iff is_digit_def plain_char_def)

lemma parse_unsigned_bound: "parse_unsigned bound s = Some n \<Longrightarrow> n < bound"
  by (auto simp: parse_unsigned_def Let_def split: if_splits)

lemmas number_eval = parse_u8_def parse_u32_def parse_unsigned_def digits_value_def is_digit_def

lemma parse_u8_show_nat: "n < 256 \<Longrightarrow> parse_u8 (show_nat n) = Some (of_nat n)"
  by (simp add: parse_u8_def parse_unsigned_show_nat)

lemma parse_u32_show_nat: "n < 2 ^ 32 \<Longrightarrow> parse_u32 (show_nat n) = Some (of_nat n)"
  by (simp add: parse_u32_def parse_unsigned_show_nat)

end
