(* ===== verification/Block_Modes.thy ===== *)
theory Block_Modes
  imports Prelude
begin

unbundle bit_operations_syntax

text \<open>
  The published definitions of what the block-mode crates compute: ECB, CBC and CFB over a
  block cipher (NIST SP 800-38A, full-block CFB) and the padding of PKCS#7. They are the
  abstract specification against which the crates are hypotheses: the model of \<open>raw.rs\<close> calls
  the crates as parameters, and a theorem that needs to know what a crate computes assumes
  that it computes these functions. That decryption undoes encryption is proved here.
\<close>

section \<open>Blocks\<close>

function blocks :: "nat \<Rightarrow> 'a list \<Rightarrow> 'a list list" where
  "blocks n xs = (if xs = [] then [] else if n = 0 then [xs] else take n xs # blocks n (drop n xs))"
  by pat_completeness auto
termination
  by (relation "measure (\<lambda>(n, xs). length xs)") auto

declare blocks.simps [simp del]

definition xor_bytes :: "bytes \<Rightarrow> bytes \<Rightarrow> bytes" where
  "xor_bytes xs ys = map2 (XOR) xs ys"

definition aligned :: "nat \<Rightarrow> 'a list \<Rightarrow> bool" where
  "aligned n xs \<longleftrightarrow> length xs mod n = 0"

lemma blocks_Nil [simp]: "blocks n [] = []"
  by (simp add: blocks.simps)

lemma blocks_step: "0 < n \<Longrightarrow> xs \<noteq> [] \<Longrightarrow> blocks n xs = take n xs # blocks n (drop n xs)"
  by (simp add: blocks.simps [of n xs])

lemma concat_blocks [simp]: "concat (blocks n xs) = xs"
proof (induction n xs rule: blocks.induct)
  case (1 n xs)
  then show ?case by (subst blocks.simps) simp
qed

lemma blocks_lengths: "0 < n \<Longrightarrow> b \<in> set (blocks n xs) \<Longrightarrow> 0 < length b \<and> length b \<le> n"
proof (induction n xs rule: blocks.induct)
  case (1 n xs)
  then show ?case
    by (subst (asm) (2) blocks.simps) (auto split: if_splits)
qed

lemma blocks_aligned:
  "0 < n \<Longrightarrow> aligned n xs \<Longrightarrow> b \<in> set (blocks n xs) \<Longrightarrow> length b = n"
proof (induction n xs rule: blocks.induct)
  case (1 n xs)
  show ?case
  proof (cases "xs = []")
    case True
    with "1.prems" show ?thesis by simp
  next
    case False
    have len: "n \<le> length xs"
      using "1.prems"(2) False by (simp add: aligned_def dvd_imp_le mod_0_imp_dvd)
    have al: "aligned n (drop n xs)"
      using "1.prems"(2) len by (simp add: aligned_def le_mod_geq)
    show ?thesis
      using "1.prems"(1,3) "1.IH" False len al by (auto simp: blocks_step)
  qed
qed

lemma blocks_concat:
  "0 < n \<Longrightarrow> (\<And>b. b \<in> set bs \<Longrightarrow> length b = n) \<Longrightarrow> blocks n (concat bs) = bs"
proof (induction bs)
  case Nil
  then show ?case by simp
next
  case (Cons b bs)
  then have "b @ concat bs \<noteq> []" and "length b = n" by auto
  with Cons show ?case by (simp add: blocks_step)
qed

text \<open>All blocks full but for the last one: what \<^const>\<open>blocks\<close> returns.\<close>

fun block_list :: "nat \<Rightarrow> 'a list list \<Rightarrow> bool" where
  "block_list n [] = True"
| "block_list n [b] = (b \<noteq> [] \<and> length b \<le> n)"
| "block_list n (b # c # bs) = (length b = n \<and> block_list n (c # bs))"

lemma block_list_blocks: "0 < n \<Longrightarrow> block_list n (blocks n xs)"
proof (induction n xs rule: blocks.induct)
  case (1 n xs)
  show ?case
  proof (cases "xs = [] \<or> length xs \<le> n")
    case True
    with "1.prems" show ?thesis by (cases "xs = []") (auto simp: blocks_step)
  next
    case False
    then have "blocks n (drop n xs) = take n (drop n xs) # blocks n (drop n (drop n xs))"
      using "1.prems" by (simp add: blocks_step)
    with False "1.IH" "1.prems" show ?thesis by (simp add: blocks_step)
  qed
qed

lemma blocks_concat_block_list: "0 < n \<Longrightarrow> block_list n bs \<Longrightarrow> blocks n (concat bs) = bs"
proof (induction n bs rule: block_list.induct)
  case (3 n b c bs)
  then have "b @ concat (c # bs) \<noteq> []" and "length b = n" by auto
  with 3 show ?case by (simp add: blocks_step)
qed (auto simp: blocks_step)

lemma length_xor_bytes [simp]: "length (xor_bytes xs ys) = min (length xs) (length ys)"
  by (simp add: xor_bytes_def)

lemma xor_bytes_cancel: "length xs \<le> length ys \<Longrightarrow> xor_bytes (xor_bytes xs ys) ys = xs"
  by (rule nth_equalityI) (simp_all add: xor_bytes_def xor.assoc)

lemma xor_bytes_comm: "xor_bytes xs ys = xor_bytes ys xs"
  by (rule nth_equalityI) (simp_all add: xor_bytes_def xor.commute)

lemma xor_bytes_inject:
  assumes "xor_bytes b xs = xor_bytes b ys" and "length xs = length b" and "length ys = length b"
  shows "xs = ys"
  using assms xor_bytes_cancel [of xs b] xor_bytes_cancel [of ys b] by (simp add: xor_bytes_comm)

section \<open>The modes\<close>

definition ecb :: "(bytes \<Rightarrow> bytes) \<Rightarrow> nat \<Rightarrow> bytes \<Rightarrow> bytes" where
  "ecb f n data = concat (map f (blocks n data))"

fun cbc_enc_blocks :: "(bytes \<Rightarrow> bytes) \<Rightarrow> bytes \<Rightarrow> bytes list \<Rightarrow> bytes list" where
  "cbc_enc_blocks E iv [] = []"
| "cbc_enc_blocks E iv (b # bs) =
    (let c = E (xor_bytes b iv) in c # cbc_enc_blocks E c bs)"

fun cbc_dec_blocks :: "(bytes \<Rightarrow> bytes) \<Rightarrow> bytes \<Rightarrow> bytes list \<Rightarrow> bytes list" where
  "cbc_dec_blocks D iv [] = []"
| "cbc_dec_blocks D iv (c # cs) = xor_bytes (D c) iv # cbc_dec_blocks D c cs"

fun cfb_enc_blocks :: "(bytes \<Rightarrow> bytes) \<Rightarrow> bytes \<Rightarrow> bytes list \<Rightarrow> bytes list" where
  "cfb_enc_blocks E iv [] = []"
| "cfb_enc_blocks E iv (b # bs) =
    (let c = xor_bytes b (E iv) in c # cfb_enc_blocks E c bs)"

fun cfb_dec_blocks :: "(bytes \<Rightarrow> bytes) \<Rightarrow> bytes \<Rightarrow> bytes list \<Rightarrow> bytes list" where
  "cfb_dec_blocks E iv [] = []"
| "cfb_dec_blocks E iv (c # cs) = xor_bytes c (E iv) # cfb_dec_blocks E c cs"

definition cbc_enc :: "(bytes \<Rightarrow> bytes) \<Rightarrow> nat \<Rightarrow> bytes \<Rightarrow> bytes \<Rightarrow> bytes" where
  "cbc_enc E n iv data = concat (cbc_enc_blocks E iv (blocks n data))"

definition cbc_dec :: "(bytes \<Rightarrow> bytes) \<Rightarrow> nat \<Rightarrow> bytes \<Rightarrow> bytes \<Rightarrow> bytes" where
  "cbc_dec D n iv data = concat (cbc_dec_blocks D iv (blocks n data))"

definition cfb_enc :: "(bytes \<Rightarrow> bytes) \<Rightarrow> nat \<Rightarrow> bytes \<Rightarrow> bytes \<Rightarrow> bytes" where
  "cfb_enc E n iv data = concat (cfb_enc_blocks E iv (blocks n data))"

definition cfb_dec :: "(bytes \<Rightarrow> bytes) \<Rightarrow> nat \<Rightarrow> bytes \<Rightarrow> bytes \<Rightarrow> bytes" where
  "cfb_dec E n iv data = concat (cfb_dec_blocks E iv (blocks n data))"

section \<open>PKCS#7 padding\<close>

definition pkcs7_pad :: "nat \<Rightarrow> bytes \<Rightarrow> bytes" where
  "pkcs7_pad n data = (let p = n - length data mod n in data @ replicate p (of_nat p))"

definition pkcs7_unpad :: "nat \<Rightarrow> bytes \<Rightarrow> bytes option" where
  "pkcs7_unpad n data =
    (if data = [] \<or> \<not> aligned n data then None
     else let p = unat (last data) in
       if p = 0 \<or> n < p \<or> drop (length data - p) data \<noteq> replicate p (of_nat p) then None
       else Some (take (length data - p) data))"

lemma pkcs7_pad_aligned: "0 < n \<Longrightarrow> aligned n (pkcs7_pad n data)"
proof -
  assume "0 < n"
  then have "length data + (n - length data mod n) = (length data div n) * n + n"
    by (metis add.assoc div_mult_mod_eq le_add_diff_inverse mod_le_divisor)
  then show ?thesis by (simp add: pkcs7_pad_def aligned_def Let_def)
qed

lemma length_pkcs7_pad: "0 < n \<Longrightarrow> length (pkcs7_pad n data) = (length data div n + 1) * n"
proof -
  assume "0 < n"
  then have "length data + (n - length data mod n) = (length data div n) * n + n"
    by (metis add.assoc div_mult_mod_eq le_add_diff_inverse mod_le_divisor)
  then show ?thesis by (simp add: pkcs7_pad_def Let_def)
qed

lemma pkcs7_unpad_pad:
  assumes "0 < n" and "n < 256"
  shows "pkcs7_unpad n (pkcs7_pad n data) = Some data"
proof -
  define p where "p = n - length data mod n"
  have p: "0 < p" "p \<le> n" using assms(1) by (simp_all add: p_def)
  have pad: "pkcs7_pad n data = data @ replicate p (of_nat p)"
    by (simp add: pkcs7_pad_def p_def Let_def)
  have "last (pkcs7_pad n data) = of_nat p" using p by (simp add: pad)
  moreover have "unat (of_nat p :: u8) = p" using p assms(2) by (simp add: unat_of_nat_u8)
  moreover have "aligned n (data @ replicate p (of_nat p :: u8))"
    using pkcs7_pad_aligned [OF assms(1), of data] by (simp add: pad)
  ultimately show ?thesis
    using p by (simp add: pkcs7_unpad_def pad Let_def)
qed

lemma concat_equal_lengths:
  "(\<And>c. c \<in> set bs \<Longrightarrow> length c = n) \<Longrightarrow> length (concat bs) = length bs * n"
  by (induction bs) auto

lemma length_blocks_aligned: "0 < n \<Longrightarrow> aligned n xs \<Longrightarrow> length (blocks n xs) * n = length xs"
  using concat_equal_lengths [of "blocks n xs" n] blocks_aligned [of n xs] by auto

section \<open>Decryption undoes encryption\<close>

text \<open>A keyed block cipher: a length-preserving map on blocks of \<open>n\<close> bytes and its inverse.\<close>

definition block_perm :: "(bytes \<Rightarrow> bytes) \<Rightarrow> (bytes \<Rightarrow> bytes) \<Rightarrow> nat \<Rightarrow> bool" where
  "block_perm E D n \<longleftrightarrow> 0 < n \<and> n < 256 \<and>
    (\<forall>b. length b = n \<longrightarrow> length (E b) = n \<and> D (E b) = b)"

lemma block_permD:
  assumes "block_perm E D n"
  shows "0 < n" "n < 256" "length b = n \<Longrightarrow> length (E b) = n" "length b = n \<Longrightarrow> D (E b) = b"
  using assms by (auto simp: block_perm_def)

lemma ecb_inverse:
  assumes bp: "block_perm E D n" and al: "aligned n data"
  shows "ecb D n (ecb E n data) = data"
proof -
  note n = block_permD [OF bp]
  have len: "length b = n" if "b \<in> set (blocks n data)" for b
    using blocks_aligned [OF n(1) al that] .
  have "blocks n (concat (map E (blocks n data))) = map E (blocks n data)"
    by (rule blocks_concat) (auto simp: n len)
  moreover have "map D (map E (blocks n data)) = blocks n data"
    by (simp add: map_idI n len)
  ultimately show ?thesis by (simp add: ecb_def)
qed

lemma ecb_length:
  assumes bp: "block_perm E D n" and al: "aligned n data"
  shows "length (ecb E n data) = length data"
proof -
  note n = block_permD [OF bp]
  have "length (concat (map E (blocks n data))) = length (map E (blocks n data)) * n"
    by (rule concat_equal_lengths) (auto simp: n blocks_aligned [OF n(1) al])
  then show ?thesis
    using length_blocks_aligned [OF n(1) al] by (simp add: ecb_def)
qed

lemma cbc_enc_blocks_lengths:
  assumes bp: "block_perm E D n"
  shows "length iv = n \<Longrightarrow> (\<And>b. b \<in> set bs \<Longrightarrow> length b = n) \<Longrightarrow>
    (\<forall>c \<in> set (cbc_enc_blocks E iv bs). length c = n) \<and>
    length (cbc_enc_blocks E iv bs) = length bs"
proof (induction bs arbitrary: iv)
  case (Cons b bs)
  then have "length (E (xor_bytes b iv)) = n" by (simp add: block_permD(3) [OF bp])
  with Cons show ?case by (auto simp: Let_def)
qed simp

lemma cbc_blocks_inverse:
  assumes bp: "block_perm E D n"
  shows "length iv = n \<Longrightarrow> (\<And>b. b \<in> set bs \<Longrightarrow> length b = n) \<Longrightarrow>
    cbc_dec_blocks D iv (cbc_enc_blocks E iv bs) = bs"
proof (induction bs arbitrary: iv)
  case (Cons b bs)
  then have "length (xor_bytes b iv) = n" by simp
  then have "length (E (xor_bytes b iv)) = n" "D (E (xor_bytes b iv)) = xor_bytes b iv"
    by (simp_all add: block_permD [OF bp])
  with Cons show ?case by (simp add: Let_def xor_bytes_cancel)
qed simp

lemma cbc_inverse:
  assumes bp: "block_perm E D n" and iv: "length iv = n" and al: "aligned n data"
  shows "cbc_dec D n iv (cbc_enc E n iv data) = data"
proof -
  note n = block_permD [OF bp]
  have len: "length b = n" if "b \<in> set (blocks n data)" for b
    using blocks_aligned [OF n(1) al that] .
  have "blocks n (concat (cbc_enc_blocks E iv (blocks n data))) = cbc_enc_blocks E iv (blocks n data)"
    using cbc_enc_blocks_lengths [OF bp iv] len n(1) by (intro blocks_concat) auto
  then show ?thesis
    using cbc_blocks_inverse [OF bp iv] len by (simp add: cbc_dec_def cbc_enc_def)
qed

lemma cbc_enc_length:
  assumes bp: "block_perm E D n" and iv: "length iv = n" and al: "aligned n data"
  shows "length (cbc_enc E n iv data) = length data"
proof -
  note n = block_permD [OF bp]
  have "(\<forall>c \<in> set (cbc_enc_blocks E iv (blocks n data)). length c = n) \<and>
      length (cbc_enc_blocks E iv (blocks n data)) = length (blocks n data)"
    using cbc_enc_blocks_lengths [OF bp iv] blocks_aligned [OF n(1) al] by blast
  then show ?thesis
    using concat_equal_lengths [of "cbc_enc_blocks E iv (blocks n data)" n]
      length_blocks_aligned [OF n(1) al] by (simp add: cbc_enc_def)
qed

lemma cfb_enc_blocks_shape:
  "block_perm E D n \<Longrightarrow> length iv = n \<Longrightarrow> block_list n bs \<Longrightarrow>
    block_list n (cfb_enc_blocks E iv bs) \<and>
    length (concat (cfb_enc_blocks E iv bs)) = length (concat bs) \<and>
    cfb_dec_blocks E iv (cfb_enc_blocks E iv bs) = bs"
proof (induction n bs arbitrary: iv rule: block_list.induct)
  case (2 n b)
  then have "length (E iv) = n" by (simp add: block_perm_def)
  with 2 have "length (xor_bytes b (E iv)) = length b" and "xor_bytes (xor_bytes b (E iv)) (E iv) = b"
    by (simp_all add: xor_bytes_cancel)
  moreover from this(1) 2 have "xor_bytes b (E iv) \<noteq> []" by (metis block_list.simps(2) length_0_conv)
  ultimately show ?case using 2 by (simp add: Let_def)
next
  case (3 n b c bs)
  then have E: "length (E iv) = n" by (simp add: block_perm_def)
  define d where "d = xor_bytes b (E iv)"
  have "length d = n" using E 3 by (simp add: d_def)
  with 3 have IH: "block_list n (cfb_enc_blocks E d (c # bs))"
    "length (concat (cfb_enc_blocks E d (c # bs))) = length (concat (c # bs))"
    "cfb_dec_blocks E d (cfb_enc_blocks E d (c # bs)) = c # bs"
    by auto
  have "xor_bytes d (E iv) = b" using E 3 by (simp add: d_def xor_bytes_cancel)
  with IH \<open>length d = n\<close> 3 show ?case
    by (simp add: Let_def d_def [symmetric])
qed simp

lemma cfb_inverse:
  assumes bp: "block_perm E D n" and iv: "length iv = n"
  shows "cfb_dec E n iv (cfb_enc E n iv data) = data"
    and "length (cfb_enc E n iv data) = length data"
proof -
  note shape = cfb_enc_blocks_shape [OF bp iv block_list_blocks [OF block_permD(1) [OF bp], of data]]
  then have "blocks n (concat (cfb_enc_blocks E iv (blocks n data))) = cfb_enc_blocks E iv (blocks n data)"
    using blocks_concat_block_list [OF block_permD(1) [OF bp]] by blast
  with shape show "cfb_dec E n iv (cfb_enc E n iv data) = data"
    by (simp add: cfb_dec_def cfb_enc_def)
  from shape show "length (cfb_enc E n iv data) = length data"
    by (simp add: cfb_enc_def)
qed

section \<open>The initialisation vector shows\<close>

text \<open>
  With a first block to work on, two initialisation vectors give the same ciphertext only if they
  are equal: the first block of the ciphertext determines the vector.
\<close>

lemma cbc_enc_head:
  assumes bp: "block_perm E D n" and iv: "length iv = n" and "aligned n data" and "data \<noteq> []"
  shows "take n (cbc_enc E n iv data) = E (xor_bytes (take n data) iv)" and "length (take n data) = n"
proof -
  note n = block_permD [OF bp]
  have "n \<le> length data" using assms by (simp add: aligned_def dvd_imp_le mod_0_imp_dvd)
  then show len: "length (take n data) = n" by simp
  then have "length (E (xor_bytes (take n data) iv)) = n" by (intro n(3)) (simp add: iv)
  then show "take n (cbc_enc E n iv data) = E (xor_bytes (take n data) iv)"
    using assms(4) n(1) by (simp add: cbc_enc_def blocks_step Let_def)
qed

lemma cbc_enc_iv_inject:
  assumes bp: "block_perm E D n" and iv: "length iv = n" "length iv' = n"
    and data: "aligned n data" "data \<noteq> []" and same: "cbc_enc E n iv data = cbc_enc E n iv' data"
  shows "iv = iv'"
proof -
  let ?b = "take n data"
  note head = cbc_enc_head [OF bp _ data]
  have "E (xor_bytes ?b iv) = E (xor_bytes ?b iv')"
    using head(1) [OF iv(1)] head(1) [OF iv(2)] same by simp
  moreover have "length (xor_bytes ?b iv) = n" "length (xor_bytes ?b iv') = n"
    using head(2) [OF iv(1)] iv by simp_all
  ultimately have "xor_bytes ?b iv = xor_bytes ?b iv'"
    using block_permD(4) [OF bp] by metis
  then show ?thesis
    using iv head(2) [OF iv(1)] by - (rule xor_bytes_inject [of ?b], simp_all)
qed

lemma cfb_enc_iv_inject:
  assumes bp: "block_perm E D n" and iv: "length iv = n" "length iv' = n"
    and data: "n \<le> length data" and same: "cfb_enc E n iv data = cfb_enc E n iv' data"
  shows "iv = iv'"
proof -
  let ?b = "take n data"
  note n = block_permD [OF bp]
  have len: "length (E iv) = n" "length (E iv') = n" using n(3) iv by simp_all
  have "data \<noteq> []" using data n(1) by auto
  then have "take n (cfb_enc E n i data) = xor_bytes ?b (E i)" if "length (E i) = n" for i
    using data n(1) that by (simp add: cfb_enc_def blocks_step Let_def)
  then have "xor_bytes ?b (E iv) = xor_bytes ?b (E iv')" using len same by metis
  then have "E iv = E iv'" using len data by - (rule xor_bytes_inject [of ?b], simp_all)
  then show ?thesis using n(4) iv by metis
qed

end
