(* ===== verification/Raw_Cipher.thy ===== *)
theory Raw_Cipher
  imports Rust_Std Block_Modes "HOL-Library.While_Combinator"
begin

text \<open>
  Model of \<open>src/src/raw.rs\<close>: the raw AES and Blowfish functions of pgcrypto. The type string
  is parsed into algorithm, mode and padding, the key and the initialisation vector are
  brought to the sizes the ciphers take, and the block-mode crates do the rest.

  The crates \<open>aes\<close>, \<open>blowfish\<close>, \<open>cbc\<close>, \<open>ecb\<close>, \<open>cfb_mode\<close> and \<open>cipher\<close> are the parameter
  \<open>rust_crypto\<close>. \<open>encrypt_padded_vec\<close> returns a vector or panics, so its result is an option;
  \<open>decrypt_padded_vec\<close> returns a \<open>Result\<close> whose error the code discards. What a theorem needs
  to know of the crates is \<open>modes_conform\<close>: they compute the published modes over a block
  cipher that can be inverted, and Blowfish takes keys of 4 to 56 bytes.
\<close>

section \<open>Data\<close>

datatype Algorithm = Aes | Blowfish

datatype Mode = Cbc | Cfb | Ecb

datatype Padding = Pkcs | Padding_None

datatype AesKey = Aes128 bytes | Aes192 bytes | Aes256 bytes

section \<open>The crates\<close>

datatype cipher = Cipher_Aes128 | Cipher_Aes192 | Cipher_Aes256 | Cipher_Blowfish

datatype block_padding = Pkcs7 | NoPadding

record rust_crypto =
  cbc_encrypt_padded_vec :: "cipher \<Rightarrow> bytes \<Rightarrow> bytes \<Rightarrow> block_padding \<Rightarrow> bytes \<Rightarrow> bytes option"
  cbc_decrypt_padded_vec :: "cipher \<Rightarrow> bytes \<Rightarrow> bytes \<Rightarrow> block_padding \<Rightarrow> bytes \<Rightarrow> bytes option"
  ecb_encrypt_padded_vec :: "cipher \<Rightarrow> bytes \<Rightarrow> block_padding \<Rightarrow> bytes \<Rightarrow> bytes option"
  ecb_decrypt_padded_vec :: "cipher \<Rightarrow> bytes \<Rightarrow> block_padding \<Rightarrow> bytes \<Rightarrow> bytes option"
  cfb_encrypt :: "cipher \<Rightarrow> bytes \<Rightarrow> bytes \<Rightarrow> bytes \<Rightarrow> bytes"
  cfb_decrypt :: "cipher \<Rightarrow> bytes \<Rightarrow> bytes \<Rightarrow> bytes \<Rightarrow> bytes"
  blowfish_new_from_slices :: "bytes \<Rightarrow> bytes \<Rightarrow> bool"
  blowfish_new_from_slice :: "bytes \<Rightarrow> bool"

definition unwinding :: "'a option \<Rightarrow> 'a result" where
  "unwinding x = ok_or x (Panic ''encrypt_padded_vec'')"

section \<open>Operations\<close>

definition raw_error :: "string \<Rightarrow> pg_error" where
  "raw_error message = PgError (''raw cipher error: '' @ message)"

definition parse_type :: "string \<Rightarrow> (Algorithm \<times> Mode \<times> Padding) result" where
  "parse_type cipher_type =
    (let normalized = to_ascii_lowercase cipher_type in
     and_then
       (case split_once CHR ''/'' normalized of
          None \<Rightarrow> Inr (normalized, Pkcs)
        | Some (left, right) \<Rightarrow>
            and_then
              (if right = ''pad:pkcs'' then Inr Pkcs
               else if right = ''pad:none'' then Inr Padding_None
               else Inl (raw_error ''padding must be pad:pkcs or pad:none''))
              (\<lambda>padding. Inr (left, padding)))
       (\<lambda>(cipher_mode, padding).
          and_then
            (if cipher_mode \<in> set [''aes'', ''aes-cbc'', ''rijndael'', ''rijndael-cbc''] then Inr (Aes, Cbc)
             else if cipher_mode \<in> set [''aes-cfb'', ''rijndael-cfb''] then Inr (Aes, Cfb)
             else if cipher_mode \<in> set [''aes-ecb'', ''rijndael-ecb''] then Inr (Aes, Ecb)
             else if cipher_mode \<in> set [''bf'', ''bf-cbc'', ''blowfish'', ''blowfish-cbc''] then Inr (Blowfish, Cbc)
             else if cipher_mode \<in> set [''bf-cfb'', ''blowfish-cfb''] then Inr (Blowfish, Cfb)
             else if cipher_mode \<in> set [''bf-ecb'', ''blowfish-ecb''] then Inr (Blowfish, Ecb)
             else Inl (raw_error ''cipher must be aes or bf with cbc, cfb, or ecb mode''))
            (\<lambda>(algorithm, mode). Inr (algorithm, mode, padding))))"

definition fixed :: "nat \<Rightarrow> bytes \<Rightarrow> bytes result" where
  "fixed N input =
    (let output = replicate N 0; count = min (length input) N
     in and_then (slice_range input 0 count) (\<lambda>src. copy_to_front output count src))"

definition aes_key :: "bytes \<Rightarrow> AesKey result" where
  "aes_key input =
    (let n = length input in
     if n \<le> 16 then and_then (fixed 16 input) (\<lambda>key. Inr (Aes128 key))
     else if 17 \<le> n \<and> n \<le> 24 then and_then (fixed 24 input) (\<lambda>key. Inr (Aes192 key))
     else if 25 \<le> n \<and> n \<le> 32 then and_then (fixed 32 input) (\<lambda>key. Inr (Aes256 key))
     else Inl (raw_error ''AES key must not exceed 32 bytes''))"

definition encrypt_aes_with ::
    "rust_crypto \<Rightarrow> cipher \<Rightarrow> bytes \<Rightarrow> bytes \<Rightarrow> Mode \<Rightarrow> Padding \<Rightarrow> bytes \<Rightarrow> bytes result" where
  "encrypt_aes_with L c key iv mode padding data =
    (case mode of
       Cbc \<Rightarrow> (case padding of
           Pkcs \<Rightarrow> unwinding (cbc_encrypt_padded_vec L c key iv Pkcs7 data)
         | Padding_None \<Rightarrow> unwinding (cbc_encrypt_padded_vec L c key iv NoPadding data))
     | Ecb \<Rightarrow> (case padding of
           Pkcs \<Rightarrow> unwinding (ecb_encrypt_padded_vec L c key Pkcs7 data)
         | Padding_None \<Rightarrow> unwinding (ecb_encrypt_padded_vec L c key NoPadding data))
     | Cfb \<Rightarrow> Inr (cfb_encrypt L c key iv data))"

definition decrypt_aes_with ::
    "rust_crypto \<Rightarrow> cipher \<Rightarrow> bytes \<Rightarrow> bytes \<Rightarrow> Mode \<Rightarrow> Padding \<Rightarrow> bytes \<Rightarrow> bytes result" where
  "decrypt_aes_with L c key iv mode padding data =
    (case mode of
       Cbc \<Rightarrow> (case padding of
           Pkcs \<Rightarrow> ok_or (cbc_decrypt_padded_vec L c key iv Pkcs7 data)
             (raw_error ''invalid ciphertext or padding'')
         | Padding_None \<Rightarrow> ok_or (cbc_decrypt_padded_vec L c key iv NoPadding data)
             (raw_error ''ciphertext is not block aligned''))
     | Ecb \<Rightarrow> (case padding of
           Pkcs \<Rightarrow> ok_or (ecb_decrypt_padded_vec L c key Pkcs7 data)
             (raw_error ''invalid ciphertext or padding'')
         | Padding_None \<Rightarrow> ok_or (ecb_decrypt_padded_vec L c key NoPadding data)
             (raw_error ''ciphertext is not block aligned''))
     | Cfb \<Rightarrow> Inr (cfb_decrypt L c key iv data))"

definition encrypt_aes :: "rust_crypto \<Rightarrow> bytes \<Rightarrow> bytes \<Rightarrow> bytes \<Rightarrow> Mode \<Rightarrow> Padding \<Rightarrow> bytes result" where
  "encrypt_aes L data key iv mode padding =
    and_then (fixed 16 iv) (\<lambda>iv.
     and_then (aes_key key) (\<lambda>k. case k of
         Aes128 key \<Rightarrow> encrypt_aes_with L Cipher_Aes128 key iv mode padding data
       | Aes192 key \<Rightarrow> encrypt_aes_with L Cipher_Aes192 key iv mode padding data
       | Aes256 key \<Rightarrow> encrypt_aes_with L Cipher_Aes256 key iv mode padding data))"

definition decrypt_aes :: "rust_crypto \<Rightarrow> bytes \<Rightarrow> bytes \<Rightarrow> bytes \<Rightarrow> Mode \<Rightarrow> Padding \<Rightarrow> bytes result" where
  "decrypt_aes L data key iv mode padding =
    and_then (fixed 16 iv) (\<lambda>iv.
     and_then (aes_key key) (\<lambda>k. case k of
         Aes128 key \<Rightarrow> decrypt_aes_with L Cipher_Aes128 key iv mode padding data
       | Aes192 key \<Rightarrow> decrypt_aes_with L Cipher_Aes192 key iv mode padding data
       | Aes256 key \<Rightarrow> decrypt_aes_with L Cipher_Aes256 key iv mode padding data))"

definition blowfish_key :: "bytes \<Rightarrow> bytes result" where
  "blowfish_key key =
    and_then (slice_range key 0 (min (length key) 56)) (\<lambda>output.
     if output \<noteq> [] \<and> length output < 4
     then (let original = output in Inr (while (\<lambda>output. length output < 4) (\<lambda>output. output @ original) output))
     else Inr output)"

definition encrypt_blowfish ::
    "rust_crypto \<Rightarrow> bytes \<Rightarrow> bytes \<Rightarrow> bytes \<Rightarrow> Mode \<Rightarrow> Padding \<Rightarrow> bytes result" where
  "encrypt_blowfish L data key iv mode padding =
    and_then (blowfish_key key) (\<lambda>key.
    and_then (fixed 8 iv) (\<lambda>iv.
     let bad = Inl (raw_error ''invalid Blowfish key'') in
     case mode of
       Cbc \<Rightarrow> (case padding of
           Pkcs \<Rightarrow> if \<not> blowfish_new_from_slices L key iv then bad
             else unwinding (cbc_encrypt_padded_vec L Cipher_Blowfish key iv Pkcs7 data)
         | Padding_None \<Rightarrow> if \<not> blowfish_new_from_slices L key iv then bad
             else unwinding (cbc_encrypt_padded_vec L Cipher_Blowfish key iv NoPadding data))
     | Ecb \<Rightarrow> (case padding of
           Pkcs \<Rightarrow> if \<not> blowfish_new_from_slice L key then bad
             else unwinding (ecb_encrypt_padded_vec L Cipher_Blowfish key Pkcs7 data)
         | Padding_None \<Rightarrow> if \<not> blowfish_new_from_slice L key then bad
             else unwinding (ecb_encrypt_padded_vec L Cipher_Blowfish key NoPadding data))
     | Cfb \<Rightarrow> if \<not> blowfish_new_from_slices L key iv then bad
         else Inr (cfb_encrypt L Cipher_Blowfish key iv data)))"

definition decrypt_blowfish ::
    "rust_crypto \<Rightarrow> bytes \<Rightarrow> bytes \<Rightarrow> bytes \<Rightarrow> Mode \<Rightarrow> Padding \<Rightarrow> bytes result" where
  "decrypt_blowfish L data key iv mode padding =
    and_then (blowfish_key key) (\<lambda>key.
    and_then (fixed 8 iv) (\<lambda>iv.
     let bad = Inl (raw_error ''invalid Blowfish key'') in
     case mode of
       Cbc \<Rightarrow> (case padding of
           Pkcs \<Rightarrow> if \<not> blowfish_new_from_slices L key iv then bad
             else ok_or (cbc_decrypt_padded_vec L Cipher_Blowfish key iv Pkcs7 data)
               (raw_error ''invalid ciphertext or padding'')
         | Padding_None \<Rightarrow> if \<not> blowfish_new_from_slices L key iv then bad
             else ok_or (cbc_decrypt_padded_vec L Cipher_Blowfish key iv NoPadding data)
               (raw_error ''ciphertext is not block aligned''))
     | Ecb \<Rightarrow> (case padding of
           Pkcs \<Rightarrow> if \<not> blowfish_new_from_slice L key then bad
             else ok_or (ecb_decrypt_padded_vec L Cipher_Blowfish key Pkcs7 data)
               (raw_error ''invalid ciphertext or padding'')
         | Padding_None \<Rightarrow> if \<not> blowfish_new_from_slice L key then bad
             else ok_or (ecb_decrypt_padded_vec L Cipher_Blowfish key NoPadding data)
               (raw_error ''ciphertext is not block aligned''))
     | Cfb \<Rightarrow> if \<not> blowfish_new_from_slices L key iv then bad
         else Inr (cfb_decrypt L Cipher_Blowfish key iv data)))"

definition transform :: "rust_crypto \<Rightarrow> bytes \<Rightarrow> bytes \<Rightarrow> bytes \<Rightarrow> string \<Rightarrow> bool \<Rightarrow> bytes result" where
  "transform L data key iv cipher_type decrypting =
    and_then (parse_type cipher_type) (\<lambda>(algorithm, mode, padding).
      case (algorithm, decrypting) of
        (Aes, False) \<Rightarrow> encrypt_aes L data key iv mode padding
      | (Aes, True) \<Rightarrow> decrypt_aes L data key iv mode padding
      | (Blowfish, False) \<Rightarrow> encrypt_blowfish L data key iv mode padding
      | (Blowfish, True) \<Rightarrow> decrypt_blowfish L data key iv mode padding)"

definition encrypt :: "rust_crypto \<Rightarrow> bytes \<Rightarrow> bytes \<Rightarrow> string \<Rightarrow> bytes result" where
  "encrypt L data key cipher_type = transform L data key [] cipher_type False"

definition decrypt :: "rust_crypto \<Rightarrow> bytes \<Rightarrow> bytes \<Rightarrow> string \<Rightarrow> bytes result" where
  "decrypt L data key cipher_type = transform L data key [] cipher_type True"

definition encrypt_iv :: "rust_crypto \<Rightarrow> bytes \<Rightarrow> bytes \<Rightarrow> bytes \<Rightarrow> string \<Rightarrow> bytes result" where
  "encrypt_iv L data key iv cipher_type = transform L data key iv cipher_type False"

definition decrypt_iv :: "rust_crypto \<Rightarrow> bytes \<Rightarrow> bytes \<Rightarrow> bytes \<Rightarrow> string \<Rightarrow> bytes result" where
  "decrypt_iv L data key iv cipher_type = transform L data key iv cipher_type True"

section \<open>Keys and initialisation vectors\<close>

text \<open>
  The two normalisations as functions of the bytes alone. No slice of the code is out of range:
  \<open>fixed\<close> and \<open>blowfish_key\<close> compute them on every input.
\<close>

definition fit :: "nat \<Rightarrow> bytes \<Rightarrow> bytes" where
  "fit N input = take N input @ replicate (N - length input) 0"

definition cycled_key :: "bytes \<Rightarrow> bytes" where
  "cycled_key key =
    (if key \<noteq> [] \<and> length key < 4 then concat (replicate (if length key = 1 then 4 else 2) key)
     else take 56 key)"

lemma fixed_eq [simp]: "fixed N input = Inr (fit N input)"
  by (simp add: fixed_def fit_def Let_def min_def)

lemma length_fit [simp]: "length (fit N input) = N"
  by (simp add: fit_def)

lemma fit_zeros:
  "fit N (iv @ replicate z 0) = fit N iv"
  "fit N (replicate z 0) = fit N []"
  by (simp_all add: fit_def replicate_add [symmetric] min_def)

lemma fit_take: "N \<le> M \<Longrightarrow> fit N (take M iv) = fit N iv"
  by (simp add: fit_def min_def)

lemma fit_fit [simp]: "fit N (fit N iv) = fit N iv"
  by (simp add: fit_def)

lemma fit_append_zeros:
  "length input + m \<le> N \<Longrightarrow> fit N (input @ replicate m 0) = fit N input"
  by (simp add: fit_def replicate_add [symmetric])

lemma blowfish_extend:
  assumes "xs \<noteq> []" and "length xs < 4"
  shows "while (\<lambda>output. length output < 4) (\<lambda>output. output @ xs) xs =
    concat (replicate (if length xs = 1 then 4 else 2) xs)"
proof -
  consider a where "xs = [a]" | a b where "xs = [a, b]" | a b c where "xs = [a, b, c]"
    using assms by (cases xs; cases "tl xs"; cases "tl (tl xs)"; cases "tl (tl (tl xs))") auto
  then show ?thesis
    by cases (simp_all add: while_unfold eval_nat_numeral)
qed

lemma blowfish_key_eq [simp]: "blowfish_key key = Inr (cycled_key key)"
  by (auto simp: blowfish_key_def cycled_key_def Let_def blowfish_extend min_def)

lemma length_cycled_key:
  "key \<noteq> [] \<Longrightarrow> 4 \<le> length (cycled_key key) \<and> length (cycled_key key) \<le> 56"
  by (cases "length key = 1"; cases "length key = 2"; cases "length key = 3")
    (auto simp: cycled_key_def neq_Nil_conv)

lemma cycled_key_cycle:
  assumes "key \<noteq> []"
  shows "cycled_key key ! (i mod length (cycled_key key)) = take 56 key ! (i mod length (take 56 key))"
proof (cases "length key < 4")
  case True
  define m where "m = (if length key = 1 then 4 else 2 :: nat)"
  have key: "cycled_key key = concat (replicate m key)"
    using True assms by (simp add: cycled_key_def m_def)
  have "0 < m * length key" using assms by (simp add: m_def)
  then have "i mod (m * length key) < m * length key" by simp
  then have "cycled_key key ! (i mod length (cycled_key key)) = key ! (i mod (m * length key) mod length key)"
    using nth_replicate_concat [OF assms] by (simp add: key)
  with True show ?thesis by (simp add: mod_mod_cancel)
next
  case False
  then show ?thesis by (simp add: cycled_key_def)
qed

section \<open>What the crates are assumed to compute\<close>

definition cipher_block :: "cipher \<Rightarrow> nat" where
  "cipher_block c = (if c = Cipher_Blowfish then 8 else 16)"

definition key_fits :: "cipher \<Rightarrow> bytes \<Rightarrow> bool" where
  "key_fits c k = (case c of
      Cipher_Aes128 \<Rightarrow> length k = 16 | Cipher_Aes192 \<Rightarrow> length k = 24 | Cipher_Aes256 \<Rightarrow> length k = 32
    | Cipher_Blowfish \<Rightarrow> 4 \<le> length k \<and> length k \<le> 56)"

definition cbc_conforms ::
    "rust_crypto \<Rightarrow> (bytes \<Rightarrow> bytes) \<Rightarrow> (bytes \<Rightarrow> bytes) \<Rightarrow> cipher \<Rightarrow> bytes \<Rightarrow> bytes \<Rightarrow> bytes \<Rightarrow> bool" where
  "cbc_conforms L E D c k iv data \<longleftrightarrow> (let n = cipher_block c in
     cbc_encrypt_padded_vec L c k iv Pkcs7 data = Some (cbc_enc E n iv (pkcs7_pad n data)) \<and>
     (aligned n data \<longrightarrow> cbc_encrypt_padded_vec L c k iv NoPadding data = Some (cbc_enc E n iv data)) \<and>
     cbc_decrypt_padded_vec L c k iv Pkcs7 data =
       (if aligned n data then pkcs7_unpad n (cbc_dec D n iv data) else None) \<and>
     cbc_decrypt_padded_vec L c k iv NoPadding data =
       (if aligned n data then Some (cbc_dec D n iv data) else None))"

definition ecb_conforms ::
    "rust_crypto \<Rightarrow> (bytes \<Rightarrow> bytes) \<Rightarrow> (bytes \<Rightarrow> bytes) \<Rightarrow> cipher \<Rightarrow> bytes \<Rightarrow> bytes \<Rightarrow> bool" where
  "ecb_conforms L E D c k data \<longleftrightarrow> (let n = cipher_block c in
     ecb_encrypt_padded_vec L c k Pkcs7 data = Some (ecb E n (pkcs7_pad n data)) \<and>
     (aligned n data \<longrightarrow> ecb_encrypt_padded_vec L c k NoPadding data = Some (ecb E n data)) \<and>
     ecb_decrypt_padded_vec L c k Pkcs7 data =
       (if aligned n data then pkcs7_unpad n (ecb D n data) else None) \<and>
     ecb_decrypt_padded_vec L c k NoPadding data =
       (if aligned n data then Some (ecb D n data) else None))"

definition cfb_conforms ::
    "rust_crypto \<Rightarrow> (bytes \<Rightarrow> bytes) \<Rightarrow> cipher \<Rightarrow> bytes \<Rightarrow> bytes \<Rightarrow> bytes \<Rightarrow> bool" where
  "cfb_conforms L E c k iv data \<longleftrightarrow> (let n = cipher_block c in
     cfb_encrypt L c k iv data = cfb_enc E n iv data \<and>
     cfb_decrypt L c k iv data = cfb_dec E n iv data)"

definition modes_conform ::
    "rust_crypto \<Rightarrow> (cipher \<Rightarrow> bytes \<Rightarrow> bytes \<Rightarrow> bytes) \<Rightarrow> (cipher \<Rightarrow> bytes \<Rightarrow> bytes \<Rightarrow> bytes) \<Rightarrow> bool" where
  "modes_conform L E D \<longleftrightarrow>
    (\<forall>k iv. blowfish_new_from_slices L k iv \<longleftrightarrow> key_fits Cipher_Blowfish k \<and> length iv = 8) \<and>
    (\<forall>k. blowfish_new_from_slice L k \<longleftrightarrow> key_fits Cipher_Blowfish k) \<and>
    (\<forall>c k. key_fits c k \<longrightarrow> block_perm (E c k) (D c k) (cipher_block c)) \<and>
    (\<forall>c k iv data. key_fits c k \<longrightarrow> length iv = cipher_block c \<longrightarrow>
       cbc_conforms L (E c k) (D c k) c k iv data \<and> ecb_conforms L (E c k) (D c k) c k data \<and>
       cfb_conforms L (E c k) c k iv data)"

section \<open>Decryption undoes encryption\<close>

text \<open>When the mode can take the data at all, and how long the ciphertext is.\<close>

definition mode_takes :: "nat \<Rightarrow> Mode \<Rightarrow> Padding \<Rightarrow> bytes \<Rightarrow> bool" where
  "mode_takes n mode padding data \<longleftrightarrow> mode = Cfb \<or> padding = Pkcs \<or> aligned n data"

definition ciphertext_length :: "nat \<Rightarrow> Mode \<Rightarrow> Padding \<Rightarrow> nat \<Rightarrow> nat" where
  "ciphertext_length n mode padding len =
    (if mode \<noteq> Cfb \<and> padding = Pkcs then (len div n + 1) * n else len)"

lemma mode_round_trip:
  assumes conf: "modes_conform L E D" and key: "key_fits c k"
    and iv: "length iv = cipher_block c" and takes: "mode_takes (cipher_block c) mode padding data"
  shows "\<exists>ct. encrypt_aes_with L c k iv mode padding data = Inr ct \<and>
    decrypt_aes_with L c k iv mode padding ct = Inr data \<and>
    length ct = ciphertext_length (cipher_block c) mode padding (length data)"
proof -
  let ?n = "cipher_block c"
  have bp: "block_perm (E c k) (D c k) ?n" and cbc: "\<And>d. cbc_conforms L (E c k) (D c k) c k iv d"
    and ecb: "\<And>d. ecb_conforms L (E c k) (D c k) c k d" and cfb: "\<And>d. cfb_conforms L (E c k) c k iv d"
    using conf key iv unfolding modes_conform_def by blast+
  note n = block_permD(1,2) [OF bp]
  have pad: "aligned ?n (pkcs7_pad ?n data)" "pkcs7_unpad ?n (pkcs7_pad ?n data) = Some data"
    "length (pkcs7_pad ?n data) = (length data div ?n + 1) * ?n"
    using n by (simp_all add: pkcs7_pad_aligned pkcs7_unpad_pad length_pkcs7_pad)
  note inv = cbc_inverse [OF bp iv] ecb_inverse [OF bp] cbc_enc_length [OF bp iv]
    ecb_length [OF bp] cfb_inverse [OF bp iv]
  note defs = encrypt_aes_with_def decrypt_aes_with_def unwinding_def ciphertext_length_def
    cbc [unfolded cbc_conforms_def Let_def] ecb [unfolded ecb_conforms_def Let_def]
    cfb [unfolded cfb_conforms_def Let_def]
  show ?thesis
  proof (cases mode)
    case Cfb
    then show ?thesis by (simp add: defs inv)
  next
    case Cbc
    then show ?thesis
      using takes pad by (cases padding) (simp_all add: defs inv mode_takes_def aligned_def)
  next
    case Ecb
    then show ?thesis
      using takes pad by (cases padding) (simp_all add: defs inv mode_takes_def aligned_def)
  qed
qed

text \<open>When there is a whole block for the initialisation vector to act on, and that it then shows.\<close>

definition iv_counts :: "nat \<Rightarrow> Mode \<Rightarrow> Padding \<Rightarrow> bytes \<Rightarrow> bool" where
  "iv_counts n mode padding data = (case mode of
      Cbc \<Rightarrow> padding = Pkcs \<or> data \<noteq> [] | Cfb \<Rightarrow> n \<le> length data | Ecb \<Rightarrow> False)"

lemma mode_iv_inject:
  assumes conf: "modes_conform L E D" and key: "key_fits c k"
    and iv: "length iv = cipher_block c" "length iv' = cipher_block c"
    and takes: "mode_takes (cipher_block c) mode padding data"
    and counts: "iv_counts (cipher_block c) mode padding data"
    and same: "encrypt_aes_with L c k iv mode padding data = encrypt_aes_with L c k iv' mode padding data"
  shows "iv = iv'"
proof -
  let ?n = "cipher_block c"
  have bp: "block_perm (E c k) (D c k) ?n"
    and cbc: "\<And>i d. length i = ?n \<Longrightarrow> cbc_conforms L (E c k) (D c k) c k i d"
    and cfb: "\<And>i d. length i = ?n \<Longrightarrow> cfb_conforms L (E c k) c k i d"
    using conf key unfolding modes_conform_def by blast+
  have pad: "aligned ?n (pkcs7_pad ?n data)" "pkcs7_pad ?n data \<noteq> []"
    using block_permD(1) [OF bp] length_pkcs7_pad [of ?n data] by (auto simp: pkcs7_pad_aligned)
  note run = encrypt_aes_with_def unwinding_def cbc [unfolded cbc_conforms_def Let_def] iv
    cfb [unfolded cfb_conforms_def Let_def]
  show ?thesis
  proof (cases mode)
    case Cbc
    have "cbc_enc (E c k) ?n iv d = cbc_enc (E c k) ?n iv' d \<Longrightarrow> aligned ?n d \<Longrightarrow> d \<noteq> [] \<Longrightarrow> ?thesis" for d
      using cbc_enc_iv_inject [OF bp iv] by blast
    with Cbc pad same takes counts show ?thesis
      by (cases padding) (auto simp: run mode_takes_def iv_counts_def)
  next
    case Cfb
    with same counts show ?thesis
      using cfb_enc_iv_inject [OF bp iv, of data] by (simp add: run iv_counts_def)
  next
    case Ecb
    with counts show ?thesis by (simp add: iv_counts_def)
  qed
qed

section \<open>The contract of the two ciphers\<close>

locale raw_engine =
  fixes enc dec :: "rust_crypto \<Rightarrow> bytes \<Rightarrow> bytes \<Rightarrow> bytes \<Rightarrow> Mode \<Rightarrow> Padding \<Rightarrow> bytes result"
    and usable :: "bytes \<Rightarrow> bool"
    and n :: nat
    and complaint :: string
  assumes inverse: "modes_conform L E D \<Longrightarrow> usable key \<Longrightarrow> mode_takes n mode padding data \<Longrightarrow>
      \<exists>ct. enc L data key iv mode padding = Inr ct \<and> dec L ct key iv mode padding = Inr data \<and>
        length ct = ciphertext_length n mode padding (length data)"
    and refusal: "modes_conform L E D \<Longrightarrow> \<not> usable key \<Longrightarrow>
      enc L data key iv mode padding = Inl (raw_error complaint) \<and>
      dec L data key iv mode padding = Inl (raw_error complaint)"
    and iv_normal: "enc L data key (fit n iv) mode padding = enc L data key iv mode padding"
      "dec L data key (fit n iv) mode padding = dec L data key iv mode padding"
    and iv_shows: "modes_conform L E D \<Longrightarrow> usable key \<Longrightarrow> mode_takes n mode padding data \<Longrightarrow>
      iv_counts n mode padding data \<Longrightarrow>
      enc L data key iv mode padding = enc L data key iv' mode padding \<Longrightarrow> fit n iv = fit n iv'"
begin

lemma same_fit:
  assumes "fit n iv = fit n iv'"
  shows "enc L data key iv mode padding = enc L data key iv' mode padding"
    and "dec L data key iv mode padding = dec L data key iv' mode padding"
  using iv_normal assms by metis+

lemma iv_prefix:
  "enc L data key (take n iv) mode padding = enc L data key iv mode padding"
  "dec L data key (take n iv) mode padding = dec L data key iv mode padding"
  by (rule same_fit, simp add: fit_take)+

lemma iv_zeros:
  "enc L data key (iv @ replicate z 0) mode padding = enc L data key iv mode padding"
  "dec L data key (iv @ replicate z 0) mode padding = dec L data key iv mode padding"
  by (rule same_fit, simp add: fit_zeros)+

lemma enc_iv_iff:
  assumes "modes_conform L E D" and "usable key" and "mode_takes n mode padding data"
    and "iv_counts n mode padding data"
  shows "enc L data key iv mode padding = enc L data key iv' mode padding \<longleftrightarrow> fit n iv = fit n iv'"
  using iv_shows [OF assms] same_fit by blast

lemma enc_injective:
  assumes "modes_conform L E D" and "usable key"
    and "mode_takes n mode padding data" and "mode_takes n mode padding data'"
    and same: "enc L data key iv mode padding = enc L data' key iv mode padding"
  shows "data = data'"
proof -
  obtain ct where "enc L data key iv mode padding = Inr ct" "dec L ct key iv mode padding = Inr data"
    using inverse assms(1-3) by blast
  moreover obtain ct' where "enc L data' key iv mode padding = Inr ct'" "dec L ct' key iv mode padding = Inr data'"
    using inverse assms(1,2,4) by blast
  ultimately show ?thesis using same by simp
qed

lemma enc_succeeds_iff:
  assumes "modes_conform L E D" and "mode_takes n mode padding data"
  shows "is_ok (enc L data key iv mode padding) \<longleftrightarrow> usable key"
proof (cases "usable key")
  case True
  then show ?thesis using inverse [OF assms(1) True assms(2), of iv] by auto
next
  case False
  then show ?thesis using refusal [OF assms(1) False] by simp
qed

lemma no_iv_is_zero_iv:
  "enc L data key [] mode padding = enc L data key (replicate n 0) mode padding"
  "dec L data key [] mode padding = dec L data key (replicate n 0) mode padding"
  using iv_normal [where iv = "[]"] by (simp_all add: fit_def)

end

lemma aes_key_cases:
  assumes "length key \<le> 32"
  obtains c k where "key_fits c k" "cipher_block c = 16"
    "\<And>L data iv mode padding. encrypt_aes L data key iv mode padding =
       encrypt_aes_with L c k (fit 16 iv) mode padding data"
    "\<And>L data iv mode padding. decrypt_aes L data key iv mode padding =
       decrypt_aes_with L c k (fit 16 iv) mode padding data"
proof -
  note defs = encrypt_aes_def decrypt_aes_def aes_key_def key_fits_def cipher_block_def Let_def
  consider "length key \<le> 16" | "16 < length key" "length key \<le> 24" | "24 < length key" "length key \<le> 32"
    using assms by linarith
  then show thesis
  proof cases
    case 1
    then show thesis by (intro that [of Cipher_Aes128 "fit 16 key"]) (simp_all add: defs)
  next
    case 2
    then show thesis by (intro that [of Cipher_Aes192 "fit 24 key"]) (simp_all add: defs)
  next
    case 3
    then show thesis by (intro that [of Cipher_Aes256 "fit 32 key"]) (simp_all add: defs)
  qed
qed

lemma aes_iv_shows:
  assumes conf: "modes_conform L E D" and key: "length key \<le> 32" and takes: "mode_takes 16 mode padding data"
    and counts: "iv_counts 16 mode padding data"
    and same: "encrypt_aes L data key iv mode padding = encrypt_aes L data key iv' mode padding"
  shows "fit 16 iv = fit 16 iv'"
  using key
proof (rule aes_key_cases)
  fix c k
  assume "key_fits c k" and "cipher_block c = 16"
    and "\<And>L data iv mode padding. encrypt_aes L data key iv mode padding =
      encrypt_aes_with L c k (fit 16 iv) mode padding data"
  with mode_iv_inject [OF conf, of c k "fit 16 iv" "fit 16 iv'" mode padding data] takes counts same
  show ?thesis by simp
qed

interpretation aes: raw_engine encrypt_aes decrypt_aes "\<lambda>key. length key \<le> 32" 16
  "''AES key must not exceed 32 bytes''"
proof unfold_locales
  fix L E D key mode padding data iv
  assume conf: "modes_conform L E D" and key: "length (key :: bytes) \<le> 32"
    and takes: "mode_takes 16 mode padding data"
  from key show "\<exists>ct. encrypt_aes L data key iv mode padding = Inr ct \<and>
      decrypt_aes L ct key iv mode padding = Inr data \<and>
      length ct = ciphertext_length 16 mode padding (length data)"
  proof (rule aes_key_cases)
    fix c k
    assume "key_fits c k" and "cipher_block c = 16"
      and "\<And>L data iv mode padding. encrypt_aes L data key iv mode padding =
        encrypt_aes_with L c k (fit 16 iv) mode padding data"
      and "\<And>L data iv mode padding. decrypt_aes L data key iv mode padding =
        decrypt_aes_with L c k (fit 16 iv) mode padding data"
    with mode_round_trip [OF conf, of c k "fit 16 iv" mode padding data] takes show ?thesis by simp
  qed
qed (auto simp: encrypt_aes_def decrypt_aes_def aes_key_def Let_def intro: aes_iv_shows)

lemma blowfish_engine:
  assumes "modes_conform L E D"
  shows "encrypt_blowfish L data key iv mode padding =
      (if key = [] then Inl (raw_error ''invalid Blowfish key'')
       else encrypt_aes_with L Cipher_Blowfish (cycled_key key) (fit 8 iv) mode padding data)"
    and "decrypt_blowfish L data key iv mode padding =
      (if key = [] then Inl (raw_error ''invalid Blowfish key'')
       else decrypt_aes_with L Cipher_Blowfish (cycled_key key) (fit 8 iv) mode padding data)"
proof -
  have fits: "key_fits Cipher_Blowfish (cycled_key key) \<longleftrightarrow> key \<noteq> []"
    using length_cycled_key [of key] by (auto simp: key_fits_def cycled_key_def)
  have new: "blowfish_new_from_slices L (cycled_key key) (fit 8 iv) \<longleftrightarrow> key \<noteq> []"
    "blowfish_new_from_slice L (cycled_key key) \<longleftrightarrow> key \<noteq> []"
    using assms fits unfolding modes_conform_def by simp_all
  show "encrypt_blowfish L data key iv mode padding =
      (if key = [] then Inl (raw_error ''invalid Blowfish key'')
       else encrypt_aes_with L Cipher_Blowfish (cycled_key key) (fit 8 iv) mode padding data)"
    by (simp add: encrypt_blowfish_def encrypt_aes_with_def Let_def new split: Mode.splits Padding.splits)
  show "decrypt_blowfish L data key iv mode padding =
      (if key = [] then Inl (raw_error ''invalid Blowfish key'')
       else decrypt_aes_with L Cipher_Blowfish (cycled_key key) (fit 8 iv) mode padding data)"
    by (simp add: decrypt_blowfish_def decrypt_aes_with_def Let_def new split: Mode.splits Padding.splits)
qed

interpretation bf: raw_engine encrypt_blowfish decrypt_blowfish "\<lambda>key. key \<noteq> []" 8
  "''invalid Blowfish key''"
proof unfold_locales
  fix L E D key mode padding data iv
  assume conf: "modes_conform L E D" and key: "(key :: bytes) \<noteq> []"
    and takes: "mode_takes 8 mode padding data"
  have "key_fits Cipher_Blowfish (cycled_key key)"
    using length_cycled_key [OF key] by (simp add: key_fits_def)
  with mode_round_trip [OF conf this, of "fit 8 iv" mode padding data] takes key
  show "\<exists>ct. encrypt_blowfish L data key iv mode padding = Inr ct \<and>
      decrypt_blowfish L ct key iv mode padding = Inr data \<and>
      length ct = ciphertext_length 8 mode padding (length data)"
    by (simp add: blowfish_engine [OF conf] cipher_block_def)
next
  fix L E D and key :: bytes and data iv mode padding
  assume conf: "modes_conform L E D" and "\<not> key \<noteq> []"
  then show "encrypt_blowfish L data key iv mode padding = Inl (raw_error ''invalid Blowfish key'') \<and>
      decrypt_blowfish L data key iv mode padding = Inl (raw_error ''invalid Blowfish key'')"
    by (simp add: blowfish_engine [OF conf])
next
  fix L E D and key :: bytes and data iv iv' mode padding
  assume conf: "modes_conform L E D" and key: "key \<noteq> []" and "mode_takes 8 mode padding data"
    and "iv_counts 8 mode padding data"
    and "encrypt_blowfish L data key iv mode padding = encrypt_blowfish L data key iv' mode padding"
  with mode_iv_inject [OF conf, of Cipher_Blowfish "cycled_key key" "fit 8 iv" "fit 8 iv'" mode padding data]
  show "fit 8 iv = fit 8 iv'"
    using length_cycled_key [OF key] by (simp add: blowfish_engine [OF conf] cipher_block_def key_fits_def)
qed (simp_all add: encrypt_blowfish_def decrypt_blowfish_def)

section \<open>The type string\<close>

text \<open>The names of the documentation: a base name per algorithm and mode, with aliases.\<close>

definition type_names :: "Algorithm \<Rightarrow> Mode \<Rightarrow> string list" where
  "type_names a m =
    (let bases = (case a of Aes \<Rightarrow> [''aes'', ''rijndael''] | Blowfish \<Rightarrow> [''bf'', ''blowfish''])
     in case m of
        Cbc \<Rightarrow> bases @ map (\<lambda>b. b @ ''-cbc'') bases
      | Cfb \<Rightarrow> map (\<lambda>b. b @ ''-cfb'') bases
      | Ecb \<Rightarrow> map (\<lambda>b. b @ ''-ecb'') bases)"

definition padding_suffixes :: "Padding \<Rightarrow> string list" where
  "padding_suffixes p = (case p of Pkcs \<Rightarrow> ['''', ''/pad:pkcs''] | Padding_None \<Rightarrow> [''/pad:none''])"

lemma parse_type_complete:
  assumes "name \<in> set (type_names a m)" and "sfx \<in> set (padding_suffixes p)"
    and "to_ascii_lowercase t = name @ sfx"
  shows "parse_type t = Inr (a, m, p)"
  using assms
  by (cases a; cases m; cases p; auto simp: parse_type_def type_names_def padding_suffixes_def)

lemma parse_type_sound:
  assumes "parse_type t = Inr (a, m, p)"
  shows "\<exists>name \<in> set (type_names a m). \<exists>sfx \<in> set (padding_suffixes p).
    to_ascii_lowercase t = name @ sfx"
proof (cases "split_once CHR ''/'' (to_ascii_lowercase t)")
  case None
  then show ?thesis
    using assms by (auto simp: parse_type_def Let_def type_names_def padding_suffixes_def split: if_splits)
next
  case (Some lr)
  then obtain l r where lr: "lr = (l, r)" "to_ascii_lowercase t = l @ CHR ''/'' # r"
    by (cases lr) (auto simp: split_once_Some)
  then show ?thesis
    using assms Some
    by (auto simp: parse_type_def Let_def type_names_def padding_suffixes_def split: if_splits)
qed

section \<open>Properties\<close>

definition usable_key :: "Algorithm \<Rightarrow> bytes \<Rightarrow> bool" where
  "usable_key a key = (case a of Aes \<Rightarrow> length key \<le> 32 | Blowfish \<Rightarrow> key \<noteq> [])"

definition algorithm_block :: "Algorithm \<Rightarrow> nat" where
  "algorithm_block a = (case a of Aes \<Rightarrow> 16 | Blowfish \<Rightarrow> 8)"

definition key_complaint :: "Algorithm \<Rightarrow> string" where
  "key_complaint a = (case a of Aes \<Rightarrow> ''AES key must not exceed 32 bytes''
     | Blowfish \<Rightarrow> ''invalid Blowfish key'')"

lemmas raw_sql_defs = encrypt_def decrypt_def encrypt_iv_def decrypt_iv_def transform_def

text \<open>
  Crates that compute the published modes over a given block cipher, and a cipher to run them
  on: every block is combined with the zero-padded key. They show that the hypotheses on the
  crates can hold together.
\<close>

definition published_modes ::
    "(cipher \<Rightarrow> bytes \<Rightarrow> bytes \<Rightarrow> bytes) \<Rightarrow> (cipher \<Rightarrow> bytes \<Rightarrow> bytes \<Rightarrow> bytes) \<Rightarrow> rust_crypto" where
  "published_modes E D = \<lparr>
    cbc_encrypt_padded_vec = (\<lambda>c k iv p data. let n = cipher_block c in
      if p = Pkcs7 then Some (cbc_enc (E c k) n iv (pkcs7_pad n data))
      else if aligned n data then Some (cbc_enc (E c k) n iv data) else None),
    cbc_decrypt_padded_vec = (\<lambda>c k iv p data. let n = cipher_block c in
      if \<not> aligned n data then None
      else if p = Pkcs7 then pkcs7_unpad n (cbc_dec (D c k) n iv data) else Some (cbc_dec (D c k) n iv data)),
    ecb_encrypt_padded_vec = (\<lambda>c k p data. let n = cipher_block c in
      if p = Pkcs7 then Some (ecb (E c k) n (pkcs7_pad n data))
      else if aligned n data then Some (ecb (E c k) n data) else None),
    ecb_decrypt_padded_vec = (\<lambda>c k p data. let n = cipher_block c in
      if \<not> aligned n data then None
      else if p = Pkcs7 then pkcs7_unpad n (ecb (D c k) n data) else Some (ecb (D c k) n data)),
    cfb_encrypt = (\<lambda>c k iv data. cfb_enc (E c k) (cipher_block c) iv data),
    cfb_decrypt = (\<lambda>c k iv data. cfb_dec (E c k) (cipher_block c) iv data),
    blowfish_new_from_slices = (\<lambda>k iv. key_fits Cipher_Blowfish k \<and> length iv = 8),
    blowfish_new_from_slice = (\<lambda>k. key_fits Cipher_Blowfish k) \<rparr>"

definition xor_cipher :: "cipher \<Rightarrow> bytes \<Rightarrow> bytes \<Rightarrow> bytes" where
  "xor_cipher c k b = xor_bytes b (fit (cipher_block c) k)"

lemma published_modes_conform:
  assumes "\<And>c k. key_fits c k \<Longrightarrow> block_perm (E c k) (D c k) (cipher_block c)"
  shows "modes_conform (published_modes E D) E D"
  using assms
  by (simp add: modes_conform_def published_modes_def cbc_conforms_def ecb_conforms_def
      cfb_conforms_def Let_def)

lemma xor_cipher_conforms: "modes_conform (published_modes xor_cipher xor_cipher) xor_cipher xor_cipher"
  by (rule published_modes_conform)
    (simp add: block_perm_def cipher_block_def xor_cipher_def xor_bytes_cancel)

text \<open>
  C3. Raw decryption undoes raw encryption. For every type string the parser accepts, every
  key the algorithm can use and any initialisation vector, encrypting succeeds and decrypting
  the result with the same arguments returns the data, provided the mode can take it (with
  \<open>/pad:none\<close> outside CFB the data must fill whole blocks). The ciphertext has the length of
  the data in CFB and unpadded modes, and the next multiple of the block size under PKCS#7.
\<close>

theorem raw_round_trip:
  assumes conf: "modes_conform L E D" and ty: "parse_type ty = Inr (a, m, p)"
    and key: "usable_key a key" and takes: "mode_takes (algorithm_block a) m p data"
  shows "\<exists>ct. encrypt_iv L data key iv ty = Inr ct \<and> decrypt_iv L ct key iv ty = Inr data \<and>
    length ct = ciphertext_length (algorithm_block a) m p (length data)"
proof (cases a)
  case Aes
  then show ?thesis
    using aes.inverse [OF conf, of key m p data iv] key takes
    by (simp add: raw_sql_defs ty usable_key_def algorithm_block_def)
next
  case Blowfish
  then show ?thesis
    using bf.inverse [OF conf, of key m p data iv] key takes
    by (simp add: raw_sql_defs ty usable_key_def algorithm_block_def)
qed

theorem raw_round_trip_witness:
  "parse_type ''AES-CBC/pad:pkcs'' = Inr (Aes, Cbc, Pkcs) \<and>
   (\<exists>ct. encrypt_iv (published_modes xor_cipher xor_cipher) [1, 2, 3] [7] [9] ''AES-CBC/pad:pkcs'' = Inr ct \<and>
     decrypt_iv (published_modes xor_cipher xor_cipher) ct [7] [9] ''AES-CBC/pad:pkcs'' = Inr [1, 2, 3] \<and>
     length ct = 16)"
proof -
  have ty: "parse_type ''AES-CBC/pad:pkcs'' = Inr (Aes, Cbc, Pkcs)" by code_simp
  show ?thesis
    using ty raw_round_trip [OF xor_cipher_conforms ty, of "[7]" "[1, 2, 3]" "[9]"]
    by (simp add: usable_key_def mode_takes_def algorithm_block_def ciphertext_length_def)
qed

text \<open>
  C24. Which type strings are accepted, and what they mean: up to ASCII case, exactly the
  names of \<open>docs/API.md\<close> with their \<open>rijndael\<close> and \<open>blowfish\<close> aliases, CBC being the default
  mode, followed by nothing, \<open>/pad:pkcs\<close> or \<open>/pad:none\<close>, PKCS being the default padding.
\<close>

theorem parse_type_iff:
  "parse_type t = Inr (a, m, p) \<longleftrightarrow>
    (\<exists>name \<in> set (type_names a m). \<exists>sfx \<in> set (padding_suffixes p).
      to_ascii_lowercase t = name @ sfx)"
  using parse_type_sound parse_type_complete by blast

text \<open>
  C25. Extending a short Blowfish key does not change the cipher: the key handed to the cipher
  has 4 to 56 bytes, and read cyclically, as Blowfish's key schedule reads it, it is the
  user's key cut at 56 bytes. No slice is out of range on the way.
\<close>

theorem blowfish_key_cyclic:
  assumes "key \<noteq> []"
  shows "\<exists>k. blowfish_key key = Inr k \<and> 4 \<le> length k \<and> length k \<le> 56 \<and>
    (\<forall>i. k ! (i mod length k) = take 56 key ! (i mod length (take 56 key)))"
  using assms length_cycled_key cycled_key_cycle by simp

theorem blowfish_key_cyclic_witness:
  "blowfish_key [102, 111, 111] = Inr [102, 111, 111, 102, 111, 111] \<and>
   [102, 111, 111, 102, 111, 111] ! (7 mod 6) = take 56 [102, 111, 111] ! (7 mod length (take 56 [102, 111, 111 :: u8]))"
proof -
  have "blowfish_key [102, 111, 111] = Inr [102, 111, 111, 102, 111, 111]"
    by (simp add: cycled_key_def eval_nat_numeral)
  then show ?thesis using blowfish_key_cyclic [of "[102, 111, 111]"] by force
qed

text \<open>
  C26. The AES key sizes come in tiers of 16, 24 and 32 bytes, and inside a tier a key is the
  same as the key with zero bytes appended: the two encrypt and decrypt alike under every
  type string that selects AES.
\<close>

theorem aes_keys_zero_padded:
  assumes "parse_type ty = Inr (Aes, m, p)"
    and "length key + z \<le> 16 \<or> 16 < length key \<and> length key + z \<le> 24 \<or>
      24 < length key \<and> length key + z \<le> 32"
  shows "encrypt_iv L data (key @ replicate z 0) iv ty = encrypt_iv L data key iv ty \<and>
    decrypt_iv L data (key @ replicate z 0) iv ty = decrypt_iv L data key iv ty"
proof -
  have "aes_key (key @ replicate z 0) = aes_key key"
    using assms(2) by (auto simp: aes_key_def Let_def fit_append_zeros)
  then show ?thesis
    using assms(1) by (simp add: raw_sql_defs encrypt_aes_def decrypt_aes_def)
qed

theorem aes_keys_zero_padded_witness:
  "encrypt_iv (published_modes xor_cipher xor_cipher) [1] ([7] @ replicate 3 0) [] ''rijndael'' =
     encrypt_iv (published_modes xor_cipher xor_cipher) [1] [7] [] ''rijndael''"
proof -
  have ty: "parse_type ''rijndael'' = Inr (Aes, Cbc, Pkcs)" by code_simp
  have "length [7 :: u8] + 3 \<le> 16" by simp
  then show ?thesis
    using aes_keys_zero_padded [OF ty, of "[7]" 3 "published_modes xor_cipher xor_cipher" "[1]" "[]"] by blast
qed

text \<open>
  C27. The initialisation vector is cut or zero-padded to the block size of the algorithm, 16
  bytes for AES and 8 for Blowfish: appended zero bytes and bytes past the block size have no
  effect in either direction, and \<open>encrypt\<close> and \<open>decrypt\<close>, which take none, use a vector of
  zeros. Nothing more is cut: with crates that compute the published modes, a usable key and data
  that has a whole block for the vector to act on (any data under PKCS#7 in CBC mode, non-empty
  data without padding, at least a block in CFB mode), two vectors encrypt alike exactly if they
  agree on the whole block after cutting and padding.
\<close>

theorem raw_iv_normalised:
  "transform L data key (iv @ replicate z 0) ty dir = transform L data key iv ty dir \<and>
   encrypt L data key ty = encrypt_iv L data key (replicate z 0) ty \<and>
   decrypt L data key ty = decrypt_iv L data key (replicate z 0) ty \<and>
   (parse_type ty = Inr (a, m, p) \<longrightarrow>
     transform L data key (take (algorithm_block a) iv) ty dir = transform L data key iv ty dir \<and>
     (modes_conform L E D \<and> usable_key a key \<and> mode_takes (algorithm_block a) m p data \<and>
       iv_counts (algorithm_block a) m p data \<longrightarrow>
       (encrypt_iv L data key iv ty = encrypt_iv L data key iv' ty \<longleftrightarrow>
         fit (algorithm_block a) iv = fit (algorithm_block a) iv')))"
proof (intro conjI impI)
  have zeros: "transform L data key (i @ replicate z 0) ty d = transform L data key i ty d" for i d
    by (cases "parse_type ty") (auto simp: transform_def aes.iv_zeros bf.iv_zeros split: Algorithm.splits bool.splits)
  show "transform L data key (iv @ replicate z 0) ty dir = transform L data key iv ty dir"
    by (rule zeros)
  show "encrypt L data key ty = encrypt_iv L data key (replicate z 0) ty"
    "decrypt L data key ty = decrypt_iv L data key (replicate z 0) ty"
    using zeros [of "[]"] by (simp_all add: encrypt_def decrypt_def encrypt_iv_def decrypt_iv_def)
next
  assume ty: "parse_type ty = Inr (a, m, p)"
  show "transform L data key (take (algorithm_block a) iv) ty dir = transform L data key iv ty dir"
    by (cases a; cases dir) (simp_all add: transform_def ty algorithm_block_def aes.iv_prefix bf.iv_prefix)
  assume "modes_conform L E D \<and> usable_key a key \<and> mode_takes (algorithm_block a) m p data \<and>
    iv_counts (algorithm_block a) m p data"
  then show "encrypt_iv L data key iv ty = encrypt_iv L data key iv' ty \<longleftrightarrow>
      fit (algorithm_block a) iv = fit (algorithm_block a) iv'"
    by (cases a) (auto simp: encrypt_iv_def transform_def ty usable_key_def algorithm_block_def
        aes.enc_iv_iff bf.enc_iv_iff)
qed

theorem raw_iv_normalised_witness:
  "encrypt_iv (published_modes xor_cipher xor_cipher) [1] [7] [1, 2, 3, 4, 5, 6, 7, 8, 9] ''bf'' =
     encrypt_iv (published_modes xor_cipher xor_cipher) [1] [7] [1, 2, 3, 4, 5, 6, 7, 8] ''bf'' \<and>
   encrypt_iv (published_modes xor_cipher xor_cipher) [1] [7] [1, 2, 3, 4, 5, 6, 7, 8] ''bf'' \<noteq>
     encrypt_iv (published_modes xor_cipher xor_cipher) [1] [7] [1, 2, 3, 4, 5, 6, 7] ''bf''"
proof -
  let ?L = "published_modes xor_cipher xor_cipher"
  have ty: "parse_type ''bf'' = Inr (Blowfish, Cbc, Pkcs)" by code_simp
  have "encrypt_iv ?L [1] [7] iv ''bf'' = encrypt_iv ?L [1] [7] iv' ''bf'' \<longleftrightarrow> fit 8 iv = fit 8 iv'" for iv iv'
    using raw_iv_normalised [where L = ?L and data = "[1]" and key = "[7]" and iv = iv and iv' = iv' and ty = "''bf''"
        and E = xor_cipher and D = xor_cipher and z = 0 and dir = False and a = Blowfish and m = Cbc and p = Pkcs] ty
    by (simp add: xor_cipher_conforms usable_key_def algorithm_block_def mode_takes_def iv_counts_def)
  then show ?thesis by (simp add: fit_def)
qed

text \<open>
  C28. A key the algorithm cannot use is refused in both directions with the message for that
  algorithm, whatever the data: AES keys over 32 bytes, and the empty Blowfish key.
\<close>

theorem raw_bad_key:
  assumes "modes_conform L E D" and "parse_type ty = Inr (a, m, p)" and "\<not> usable_key a key"
  shows "encrypt_iv L data key iv ty = Inl (raw_error (key_complaint a)) \<and>
    decrypt_iv L data key iv ty = Inl (raw_error (key_complaint a))"
  using assms aes.refusal [OF assms(1)] bf.refusal [OF assms(1)]
  by (cases a) (simp_all add: raw_sql_defs usable_key_def key_complaint_def)

theorem raw_bad_key_witness:
  "encrypt_iv (published_modes xor_cipher xor_cipher) [1] (replicate 33 0) [] ''aes'' =
     Inl (raw_error ''AES key must not exceed 32 bytes'') \<and>
   decrypt_iv (published_modes xor_cipher xor_cipher) [1] (replicate 33 0) [] ''aes'' =
     Inl (raw_error ''AES key must not exceed 32 bytes'')"
proof -
  have ty: "parse_type ''aes'' = Inr (Aes, Cbc, Pkcs)" by code_simp
  show ?thesis
    using raw_bad_key [OF xor_cipher_conforms ty, of "replicate 33 0" "[1]" "[]"]
    by (simp add: usable_key_def key_complaint_def)
qed

lemma no_panic_raw_error [simp]: "no_panic (Inl (raw_error m))" "no_panic (ok_or x (raw_error m))"
  by (simp_all add: raw_error_def no_panic_ok_or)

lemma parse_type_no_panic [no_panics]: "no_panic (parse_type ty)"
  unfolding parse_type_def Let_def by (auto intro!: no_panics split: option.split)

lemma aes_key_no_panic [no_panics]: "no_panic (aes_key key)"
  by (simp add: aes_key_def Let_def)

lemma decrypt_no_panic [no_panics]:
  "no_panic (decrypt_aes L data key iv m p)" "no_panic (decrypt_blowfish L data key iv m p)"
  unfolding decrypt_aes_def decrypt_blowfish_def decrypt_aes_with_def Let_def
  by (auto intro!: no_panics split: AesKey.split Mode.split Padding.split)

text \<open>
  C29. The raw functions panic in one case only: encrypting without padding, in CBC or ECB mode,
  data that does not fill whole blocks, which is left to the block-mode crate. Decrypting never
  panics: there the same misfit is an error of the extension.
\<close>

theorem raw_panics_only_unaligned:
  assumes "modes_conform L E D"
  shows "no_panic (decrypt_iv L data key iv ty) \<and> no_panic (decrypt L data key ty) \<and>
    (\<not> no_panic (encrypt_iv L data key iv ty) \<longrightarrow>
      (\<exists>a m. parse_type ty = Inr (a, m, Padding_None) \<and> m \<noteq> Cfb \<and> usable_key a key \<and>
        \<not> aligned (algorithm_block a) data))"
proof -
  have dec: "no_panic (transform L data key i ty True)" for i
    unfolding transform_def by (auto intro!: no_panics split: Algorithm.split)
  have enc: "no_panic (encrypt_aes L data key iv m p) \<or> length key \<le> 32 \<and> \<not> mode_takes 16 m p data"
    "no_panic (encrypt_blowfish L data key iv m p) \<or> key \<noteq> [] \<and> \<not> mode_takes 8 m p data" for m p
    using aes.inverse [OF assms, of key m p data iv] aes.refusal [OF assms, of key data iv m p]
      bf.inverse [OF assms, of key m p data iv] bf.refusal [OF assms, of key data iv m p]
    by (cases "length key \<le> 32"; cases "key = []"; force)+
  show ?thesis
  proof (intro conjI impI)
    assume panics: "\<not> no_panic (encrypt_iv L data key iv ty)"
    obtain a m p where ty: "parse_type ty = Inr (a, m, p)"
      using panics parse_type_no_panic [of ty]
      by (cases "parse_type ty") (auto simp: encrypt_iv_def transform_def no_panic_iff)
    have "usable_key a key \<and> \<not> mode_takes (algorithm_block a) m p data"
      using panics enc [of m p]
      by (cases a) (auto simp: encrypt_iv_def transform_def ty usable_key_def algorithm_block_def)
    then show "\<exists>a m. parse_type ty = Inr (a, m, Padding_None) \<and> m \<noteq> Cfb \<and> usable_key a key \<and>
        \<not> aligned (algorithm_block a) data"
      using ty by (cases p) (auto simp: mode_takes_def)
  qed (simp_all add: decrypt_iv_def decrypt_def dec)
qed

theorem raw_panics_only_unaligned_witness:
  "encrypt_iv (published_modes xor_cipher xor_cipher) [1] [7] [] ''aes/pad:none'' = panic ''encrypt_padded_vec'' \<and>
   \<not> aligned 16 [1 :: u8]"
proof -
  have ty: "parse_type ''aes/pad:none'' = Inr (Aes, Cbc, Padding_None)" by code_simp
  have run: "encrypt_iv (published_modes xor_cipher xor_cipher) [1] [7] [] ''aes/pad:none'' = panic ''encrypt_padded_vec''"
    by (simp add: encrypt_iv_def transform_def ty encrypt_aes_def aes_key_def encrypt_aes_with_def unwinding_def
        published_modes_def cipher_block_def aligned_def)
  then have "\<not> no_panic (encrypt_iv (published_modes xor_cipher xor_cipher) [1] [7] [] ''aes/pad:none'')" by simp
  then show ?thesis
    using raw_panics_only_unaligned [OF xor_cipher_conforms, of "[1]" "[7]" "[]" "''aes/pad:none''"] run ty
    by (auto simp: algorithm_block_def)
qed

end
