(* ===== verification/Hash.thy ===== *)
theory Hash
  imports Rust_Std
begin

text \<open>
  Model of \<open>src/src/hash.rs\<close>: digests and keyed digests selected by name. The hash functions
  are the parameter \<open>digests\<close>: \<open>digest\<close> is \<open>D::digest\<close> and \<open>hmac_new\<close> and \<open>hmac_finish\<close> are
  \<open>Hmac::<D>::new_from_slice\<close> and the \<open>update\<close>, \<open>finalize\<close>, \<open>into_bytes\<close> chain, for each hash
  type the source names.
\<close>

section \<open>The crates\<close>

datatype hash_type = Md5 | Sha1 | Sha224 | Sha256 | Sha384 | Sha512 | Sha3_256 | Sha3_512 | Blake2b512

record 'mac digests =
  digest :: "hash_type \<Rightarrow> bytes \<Rightarrow> bytes"
  hmac_new :: "hash_type \<Rightarrow> bytes \<Rightarrow> 'mac option"
  hmac_update :: "hash_type \<Rightarrow> 'mac \<Rightarrow> bytes \<Rightarrow> 'mac"
  hmac_finalize :: "hash_type \<Rightarrow> 'mac \<Rightarrow> bytes"

section \<open>Operations\<close>

definition unknown_algorithm :: "string \<Rightarrow> string \<Rightarrow> pg_error" where
  "unknown_algorithm kind algorithm = PgError (''unknown '' @ kind @ '' algorithm: '' @ algorithm)"

definition digest_bytes :: "'mac digests \<Rightarrow> bytes \<Rightarrow> string \<Rightarrow> bytes result" where
  "digest_bytes H data algorithm =
    (let name = remove_char CHR ''-'' (to_ascii_lowercase algorithm) in
     if name = ''md5'' then Inr (digest H Md5 data)
     else if name = ''sha1'' then Inr (digest H Sha1 data)
     else if name = ''sha224'' then Inr (digest H Sha224 data)
     else if name = ''sha256'' then Inr (digest H Sha256 data)
     else if name = ''sha384'' then Inr (digest H Sha384 data)
     else if name = ''sha512'' then Inr (digest H Sha512 data)
     else if name = ''sha3256'' then Inr (digest H Sha3_256 data)
     else if name = ''sha3512'' then Inr (digest H Sha3_512 data)
     else if name = ''blake2b'' \<or> name = ''blake2b512'' then Inr (digest H Blake2b512 data)
     else Inl (unknown_algorithm ''digest'' algorithm))"

text \<open>The macro \<open>calculate!\<close> of \<open>hmac_bytes\<close>.\<close>

definition calculate :: "'mac digests \<Rightarrow> hash_type \<Rightarrow> bytes \<Rightarrow> bytes \<Rightarrow> bytes result" where
  "calculate H d data key =
    and_then (ok_or (hmac_new H d key) (PgError ''invalid HMAC key''))
      (\<lambda>mac. Inr (hmac_finalize H d (hmac_update H d mac data)))"

definition hmac_bytes :: "'mac digests \<Rightarrow> bytes \<Rightarrow> bytes \<Rightarrow> string \<Rightarrow> bytes result" where
  "hmac_bytes H data key algorithm =
    (let name = remove_char CHR ''-'' (to_ascii_lowercase algorithm) in
     if name = ''md5'' then calculate H Md5 data key
     else if name = ''sha1'' then calculate H Sha1 data key
     else if name = ''sha224'' then calculate H Sha224 data key
     else if name = ''sha256'' then calculate H Sha256 data key
     else if name = ''sha384'' then calculate H Sha384 data key
     else if name = ''sha512'' then calculate H Sha512 data key
     else if name = ''sha3256'' then calculate H Sha3_256 data key
     else if name = ''sha3512'' then calculate H Sha3_512 data key
     else Inl (unknown_algorithm ''HMAC'' algorithm))"

definition digest_bytea :: "'mac digests \<Rightarrow> bytes \<Rightarrow> string \<Rightarrow> bytes result" where
  "digest_bytea H data algorithm = digest_bytes H data algorithm"

definition digest_text :: "'mac digests \<Rightarrow> string \<Rightarrow> string \<Rightarrow> bytes result" where
  "digest_text H data algorithm = digest_bytes H (as_bytes data) algorithm"

definition hmac_bytea :: "'mac digests \<Rightarrow> bytes \<Rightarrow> bytes \<Rightarrow> string \<Rightarrow> bytes result" where
  "hmac_bytea H data key algorithm = hmac_bytes H data key algorithm"

definition hmac_text :: "'mac digests \<Rightarrow> string \<Rightarrow> string \<Rightarrow> string \<Rightarrow> bytes result" where
  "hmac_text H data key algorithm = hmac_bytes H (as_bytes data) (as_bytes key) algorithm"

definition blake2b :: "'mac digests \<Rightarrow> bytes \<Rightarrow> bytes result" where
  "blake2b H data = digest_bytes H data ''blake2b''"

definition sha3_256 :: "'mac digests \<Rightarrow> bytes \<Rightarrow> bytes result" where
  "sha3_256 H data = digest_bytes H data ''sha3-256''"

definition sha3_512 :: "'mac digests \<Rightarrow> bytes \<Rightarrow> bytes result" where
  "sha3_512 H data = digest_bytes H data ''sha3-512''"

definition fips_mode :: bool where
  "fips_mode = False"

section \<open>Selection by name\<close>

text \<open>
  What the two dispatchers share: the algorithm is looked up in a table after the name has
  been lowered and freed of hyphens, an unknown name is an error that quotes the name as the
  caller wrote it, and nothing else of the name matters.
\<close>

definition normal_name :: "string \<Rightarrow> string" where
  "normal_name s = remove_char CHR ''-'' (to_ascii_lowercase s)"

locale name_dispatch =
  fixes table :: "string \<Rightarrow> hash_type option"
    and run :: "'lib \<Rightarrow> hash_type \<Rightarrow> 'arg \<Rightarrow> bytes result"
    and dispatch :: "'lib \<Rightarrow> 'arg \<Rightarrow> string \<Rightarrow> bytes result"
    and kind :: string
  assumes dispatch_known: "table (normal_name a) = Some d \<Longrightarrow> dispatch H x a = run H d x"
    and dispatch_unknown: "table (normal_name a) = None \<Longrightarrow> dispatch H x a = Inl (unknown_algorithm kind a)"
begin

lemma spelling_irrelevant:
  assumes "normal_name a = normal_name b" and "table (normal_name a) \<noteq> None"
  shows "dispatch H x a = dispatch H x b"
  using assms dispatch_known [of a] dispatch_known [of b] by auto

lemma error_iff_unknown:
  assumes "\<And>d. is_ok (run H d x)"
  shows "is_ok (dispatch H x a) \<longleftrightarrow> table (normal_name a) \<noteq> None"
  using assms by (cases "table (normal_name a)") (simp_all add: dispatch_known dispatch_unknown)

lemma result_from_table:
  "dispatch H x a = Inr y \<Longrightarrow> \<exists>d. table (normal_name a) = Some d \<and> run H d x = Inr y"
  by (cases "table (normal_name a)") (simp_all add: dispatch_known dispatch_unknown)

end

definition hmac_table :: "string \<Rightarrow> hash_type option" where
  "hmac_table = map_of [(''md5'', Md5), (''sha1'', Sha1), (''sha224'', Sha224), (''sha256'', Sha256),
    (''sha384'', Sha384), (''sha512'', Sha512), (''sha3256'', Sha3_256), (''sha3512'', Sha3_512)]"

definition digest_table :: "string \<Rightarrow> hash_type option" where
  "digest_table = hmac_table(''blake2b'' \<mapsto> Blake2b512, ''blake2b512'' \<mapsto> Blake2b512)"

interpretation dig: name_dispatch digest_table "\<lambda>H d data. Inr (digest H d data)" digest_bytes "''digest''"
  by unfold_locales
    (auto simp: digest_bytes_def digest_table_def hmac_table_def normal_name_def Let_def split: if_splits)

interpretation mac: name_dispatch hmac_table "\<lambda>H d (data, key). calculate H d data key"
    "\<lambda>H (data, key). hmac_bytes H data key" "''HMAC''"
  by unfold_locales
    (auto simp: hmac_bytes_def hmac_table_def normal_name_def Let_def split: if_splits)

section \<open>Properties\<close>

lemma unknown_algorithm_neq_invalid_key: "unknown_algorithm ''HMAC'' a \<noteq> PgError ''invalid HMAC key''"
  by (simp add: unknown_algorithm_def)

lemma hmac_known_iff:
  "hmac_bytes H data key a \<noteq> Inl (unknown_algorithm ''HMAC'' a) \<longleftrightarrow> hmac_table (normal_name a) \<noteq> None"
proof (cases "hmac_table (normal_name a)")
  case None
  then show ?thesis using mac.dispatch_unknown [of a H "(data, key)"] by simp
next
  case (Some d)
  have "calculate H d data key \<noteq> Inl (unknown_algorithm ''HMAC'' a)"
    using unknown_algorithm_neq_invalid_key [of a]
    by (cases "hmac_new H d key") (simp_all add: calculate_def)
  with Some show ?thesis using mac.dispatch_known [of a d H "(data, key)"] by simp
qed

lemma digest_known_iff: "is_ok (digest_bytes H data a) \<longleftrightarrow> digest_table (normal_name a) \<noteq> None"
  by (rule dig.error_iff_unknown) simp

text \<open>
  C36. Case and hyphens in an algorithm name do not matter: two names that agree after lowering
  and removing hyphens select the same hash, for digests and for HMACs, whenever either is
  known to the function.
\<close>

theorem algorithm_spelling:
  assumes "normal_name a = normal_name b"
  shows "(is_ok (digest_bytes H data a) \<longrightarrow> digest_bytes H data a = digest_bytes H data b) \<and>
    (hmac_bytes H data key a \<noteq> Inl (unknown_algorithm ''HMAC'' a) \<longrightarrow>
      hmac_bytes H data key a = hmac_bytes H data key b)"
  using assms dig.spelling_irrelevant [OF assms, of H data]
    mac.spelling_irrelevant [OF assms, of H "(data, key)"]
  by (simp add: digest_known_iff hmac_known_iff)

text \<open>Hash functions that can be run: the digest is the data, an HMAC the key and the data.\<close>

definition echo_digests :: "bytes digests" where
  "echo_digests = \<lparr> digest = (\<lambda>d data. data), hmac_new = (\<lambda>d key. Some key),
     hmac_update = (\<lambda>d mac data. mac @ data), hmac_finalize = (\<lambda>d mac. mac) \<rparr>"

theorem algorithm_spelling_witness:
  "digest_bytes echo_digests [1] ''SHA3-256'' = digest_bytes echo_digests [1] ''sha3256'' \<and>
   hmac_bytes echo_digests [1] [2] ''SHA3-256'' = Inr [2, 1] \<and>
   hmac_bytes echo_digests [1] [2] ''SHA3-256'' = hmac_bytes echo_digests [1] [2] ''sha3256''"
proof -
  have eq: "normal_name ''SHA3-256'' = normal_name ''sha3256''" by code_simp
  have ok: "is_ok (digest_bytes echo_digests [1] ''SHA3-256'')" by code_simp
  have hm: "hmac_bytes echo_digests [1] [2] ''SHA3-256'' = Inr [2, 1]" by code_simp
  show ?thesis
    using algorithm_spelling [OF eq, of echo_digests "[1]" "[2]"] ok hm by simp
qed

text \<open>
  C35. \<open>digest\<close> refuses exactly the names \<open>hmac\<close> refuses, but for the two BLAKE2b names, which
  only \<open>digest\<close> knows. In particular \<open>hmac\<close> accepts the SHA-3 names, which \<open>docs/API.md\<close> lists
  for \<open>digest\<close> only.
\<close>

theorem digest_and_hmac_names:
  "digest_bytes H data a = Inl (unknown_algorithm ''digest'' a) \<longleftrightarrow>
    hmac_bytes H data key a = Inl (unknown_algorithm ''HMAC'' a) \<and>
    normal_name a \<noteq> ''blake2b'' \<and> normal_name a \<noteq> ''blake2b512''"
proof -
  have "digest_bytes H data a = Inl (unknown_algorithm ''digest'' a) \<longleftrightarrow> digest_table (normal_name a) = None"
    by (cases "digest_table (normal_name a)") (simp_all add: dig.dispatch_known dig.dispatch_unknown)
  then show ?thesis
    using hmac_known_iff [of H data key a] by (auto simp: digest_table_def)
qed


end
