(* ===== verification/Random_Bytes.thy ===== *)
theory Random_Bytes
  imports Rust_Std
begin

text \<open>
  Model of \<open>src/src/random.rs\<close>. The operating system's randomness is the parameter
  \<open>entropy\<close>, with a state of type \<open>'w\<close> that every draw moves on: \<open>copy_randombytes\<close> is
  \<open>dryoc::rng::copy_randombytes\<close>, which overwrites the buffer it is given, and \<open>new_v4\<close> is
  \<open>uuid::Uuid::new_v4().as_bytes()\<close>. A function of the extension that draws randomness takes
  the state and returns it with its result.
\<close>

record 'w entropy =
  copy_randombytes :: "bytes \<Rightarrow> 'w \<Rightarrow> bytes \<times> 'w"
  new_v4 :: "'w \<Rightarrow> bytes \<times> 'w"

definition MAX_RANDOM_BYTES :: i32 where
  "MAX_RANDOM_BYTES = 1024"

definition random_vec :: "'w entropy \<Rightarrow> nat \<Rightarrow> 'w \<Rightarrow> bytes \<times> 'w" where
  "random_vec R len w = copy_randombytes R (replicate len 0) w"

definition gen_random_bytes :: "'w entropy \<Rightarrow> i32 \<Rightarrow> 'w \<Rightarrow> bytes result \<times> 'w" where
  "gen_random_bytes R len w =
    (if \<not> (1 \<le> sint len \<and> sint len \<le> sint MAX_RANDOM_BYTES)
     then (raise_error (''length must be between 1 and '' @ show_nat (nat (sint MAX_RANDOM_BYTES))), w)
     else if sint len < 0 then (panic ''positive random byte length'', w)
     else (case random_vec R (nat (sint len)) w of (output, w') \<Rightarrow> (Inr output, w')))"

definition random_bytes :: "'w entropy \<Rightarrow> i32 \<Rightarrow> 'w \<Rightarrow> bytes result \<times> 'w" where
  "random_bytes R len w = gen_random_bytes R len w"

definition gen_random_uuid :: "'w entropy \<Rightarrow> 'w \<Rightarrow> bytes \<times> 'w" where
  "gen_random_uuid R w = new_v4 R w"

text \<open>Filling a buffer keeps its length: the buffer is a mutable slice.\<close>

definition fills_buffers :: "'w entropy \<Rightarrow> bool" where
  "fills_buffers R \<longleftrightarrow> (\<forall>buf w. length (fst (copy_randombytes R buf w)) = length buf)"

text \<open>A source that counts upwards.\<close>

definition counting :: "nat entropy" where
  "counting = \<lparr> copy_randombytes = (\<lambda>buf w. (map (\<lambda>i. of_nat (w + i)) [0 ..< length buf], w + length buf)),
     new_v4 = (\<lambda>w. (map (\<lambda>i. of_nat (w + i)) [0 ..< 16], w + 16)) \<rparr>"

lemma counting_fills: "fills_buffers counting"
  by (simp add: fills_buffers_def counting_def)

text \<open>
  C34. \<open>gen_random_bytes\<close> returns exactly as many bytes as asked for, from 1 to 1024, and for
  any other argument, negative ones included, reports the range and draws nothing. The
  conversion of the length cannot fail.
\<close>

theorem gen_random_bytes_length:
  assumes "fills_buffers R"
  shows "case gen_random_bytes R len w of
      (Inr bs, w') \<Rightarrow> 1 \<le> sint len \<and> sint len \<le> 1024 \<and> int (length bs) = sint len
    | (Inl e, w') \<Rightarrow> e = PgError ''length must be between 1 and 1024'' \<and> w' = w \<and>
        (sint len < 1 \<or> 1024 < sint len)"
proof -
  have shown: "show_nat 1024 = ''1024''" by code_simp
  have filled: "length bs = n" if "random_vec R n w = (bs, w')" for n bs w'
    using assms that by (metis fst_conv fills_buffers_def length_replicate random_vec_def)
  show ?thesis
    using shown by (auto simp: gen_random_bytes_def MAX_RANDOM_BYTES_def dest!: filled split: prod.splits)
qed

theorem gen_random_bytes_length_witness:
  "gen_random_bytes counting 3 7 = (Inr [7, 8, 9], 10) \<and>
   (case gen_random_bytes counting 3 7 of
      (Inr bs, w') \<Rightarrow> 1 \<le> sint (3 :: i32) \<and> sint (3 :: i32) \<le> 1024 \<and> int (length bs) = sint (3 :: i32)
    | (Inl e, w') \<Rightarrow> e = PgError ''length must be between 1 and 1024'' \<and> w' = 7 \<and>
        (sint (3 :: i32) < 1 \<or> 1024 < sint (3 :: i32)))"
proof -
  have "gen_random_bytes counting 3 7 = (Inr [7, 8, 9], 10)"
    by (simp add: gen_random_bytes_def random_vec_def counting_def MAX_RANDOM_BYTES_def upt_rec)
  then show ?thesis using gen_random_bytes_length [OF counting_fills, of 3 7] by simp
qed

end
