(* ===== verification/Pgp_Options.thy ===== *)
theory Pgp_Options
  imports Rust_Std
begin

text \<open>
  Model of the option strings of \<open>src/src/pgp.rs\<close>: \<open>PgpOptions\<close>, \<open>parse_options\<close> and its
  helpers for encryption, \<open>DecryptOptions\<close> and \<open>parse_decrypt_options\<close> for decryption. The
  \<open>for\<close> loop of both parsers is \<open>option_loop\<close> over the loop's body; the algorithm enumerations
  are Sequoia's, with one constructor for the members the source does not name.
\<close>

section \<open>Data\<close>

datatype SymmetricAlgorithm = AES128 | AES192 | AES256 | Sym_Blowfish | TripleDES | CAST5 | Sym_Other u8

datatype CompressionAlgorithm = Uncompressed | Zip | Zlib | Compression_Other u8

datatype HashAlgorithm = MD5 | SHA1 | Hash_Other u8

record PgpOptions =
  cipher_algo :: SymmetricAlgorithm
  compression :: CompressionAlgorithm
  compression_level :: u8
  text_input :: bool
  unicode_mode :: bool
  convert_crlf :: bool
  s2k_mode :: u8
  s2k_count :: "u32 option"
  s2k_digest :: HashAlgorithm
  s2k_cipher :: "SymmetricAlgorithm option"
  use_session_key :: bool

definition default_options :: PgpOptions where
  "default_options = \<lparr> cipher_algo = AES128, compression = Uncompressed, compression_level = 6,
     text_input = False, unicode_mode = False, convert_crlf = False, s2k_mode = 3,
     s2k_count = None, s2k_digest = SHA1, s2k_cipher = None, use_session_key = False \<rparr>"

record DecryptOptions =
  dec_convert_crlf :: bool

section \<open>Operations\<close>

definition parse_boolean_option :: "string \<Rightarrow> string \<Rightarrow> bool result" where
  "parse_boolean_option name val =
    (let other = trim val in
     if other = ''0'' then Inr False
     else if other = ''1'' then Inr True
     else raise_error (name @ '' must be 0 or 1, got '' @ other))"

definition parse_cipher :: "string \<Rightarrow> SymmetricAlgorithm result" where
  "parse_cipher val =
    (let other = to_ascii_lowercase (trim val) in
     if other = ''bf'' \<or> other = ''blowfish'' then Inr Sym_Blowfish
     else if other = ''aes'' \<or> other = ''aes128'' then Inr AES128
     else if other = ''aes192'' then Inr AES192
     else if other = ''aes256'' then Inr AES256
     else if other = ''3des'' then Inr TripleDES
     else if other = ''cast5'' then Inr CAST5
     else raise_error (''unsupported OpenPGP cipher: '' @ other))"

text \<open>The arms of the \<open>match\<close> in \<open>parse_options\<close> that are more than one call.\<close>

definition parse_compress_algo :: "string \<Rightarrow> CompressionAlgorithm result" where
  "parse_compress_algo val =
    (let other = trim val in
     if other = ''0'' then Inr Uncompressed
     else if other = ''1'' then Inr Zip
     else if other = ''2'' then Inr Zlib
     else raise_error (''compress-algo must be 0, 1, or 2, got '' @ other))"

definition parse_compress_level :: "string \<Rightarrow> u8 result" where
  "parse_compress_level val =
    and_then (ok_or (parse_u8 (trim val)) (PgError ''compress-level must be an integer from 0 to 9''))
      (\<lambda>level. if level > 9 then raise_error ''compress-level must be an integer from 0 to 9'' else Inr level)"

definition parse_s2k_mode :: "string \<Rightarrow> u8 result" where
  "parse_s2k_mode val =
    and_then (ok_or (parse_u8 (trim val)) (PgError ''s2k-mode must be 0, 1, or 3''))
      (\<lambda>mode. if \<not> (mode = 0 \<or> mode = 1 \<or> mode = 3) then raise_error ''s2k-mode must be 0, 1, or 3'' else Inr mode)"

definition parse_s2k_digest :: "string \<Rightarrow> HashAlgorithm result" where
  "parse_s2k_digest val =
    (let other = to_ascii_lowercase (trim val) in
     if other = ''md5'' then Inr MD5
     else if other = ''sha1'' then Inr SHA1
     else raise_error (''unsupported S2K digest: '' @ other))"

definition parse_s2k_cipher :: "string \<Rightarrow> SymmetricAlgorithm result" where
  "parse_s2k_cipher val =
    (let other = to_ascii_lowercase (trim val) in
     if other = ''bf'' then Inr Sym_Blowfish
     else if other = ''aes'' \<or> other = ''aes128'' then Inr AES128
     else if other = ''aes192'' then Inr AES192
     else if other = ''aes256'' then Inr AES256
     else raise_error (''unsupported S2K cipher: '' @ other))"

definition parse_s2k_count :: "string \<Rightarrow> u32 result" where
  "parse_s2k_count val =
    and_then (ok_or (parse_u32 (trim val)) (PgError ''s2k-count must be an integer''))
      (\<lambda>count. if \<not> (1024 \<le> count \<and> count \<le> 65011712)
        then raise_error ''s2k-count must be between 1024 and 65011712'' else Inr count)"

text \<open>The items of an option string: split at commas, trimmed, the empty ones dropped.\<close>

definition option_items :: "string \<Rightarrow> string list" where
  "option_items options = filter (\<lambda>item. item \<noteq> []) (map trim (split_on CHR '','' options))"

fun option_loop :: "('o \<Rightarrow> string \<Rightarrow> 'o result) \<Rightarrow> 'o \<Rightarrow> string list \<Rightarrow> 'o result" where
  "option_loop body parsed [] = Inr parsed"
| "option_loop body parsed (option # rest) =
    and_then (body parsed option) (\<lambda>parsed. option_loop body parsed rest)"

text \<open>The body of the loop of \<open>parse_options\<close>.\<close>

definition encrypt_option :: "PgpOptions \<Rightarrow> string \<Rightarrow> PgpOptions result" where
  "encrypt_option parsed option = (case split_once CHR ''='' option of
      None \<Rightarrow> raise_error (''invalid PGP option: '' @ option)
    | Some (name, val) \<Rightarrow>
       (let other = to_ascii_lowercase (trim name) in
        if other = ''cipher-algo'' then
          and_then (parse_cipher val) (\<lambda>x. Inr (parsed\<lparr>cipher_algo := x\<rparr>))
        else if other = ''compress-algo'' then
          and_then (parse_compress_algo val) (\<lambda>x. Inr (parsed\<lparr>compression := x\<rparr>))
        else if other = ''compress-level'' then
          and_then (parse_compress_level val) (\<lambda>x. Inr (parsed\<lparr>compression_level := x\<rparr>))
        else if other = ''unicode-mode'' then
          and_then (parse_boolean_option name val) (\<lambda>x. Inr (parsed\<lparr>unicode_mode := x\<rparr>))
        else if other = ''convert-crlf'' then
          and_then (parse_boolean_option name val) (\<lambda>x. Inr (parsed\<lparr>convert_crlf := x\<rparr>))
        else if other = ''s2k-mode'' then
          and_then (parse_s2k_mode val) (\<lambda>x. Inr (parsed\<lparr>s2k_mode := x\<rparr>))
        else if other = ''s2k-digest-algo'' then
          and_then (parse_s2k_digest val) (\<lambda>x. Inr (parsed\<lparr>s2k_digest := x\<rparr>))
        else if other = ''s2k-cipher-algo'' then
          and_then (parse_s2k_cipher val) (\<lambda>x. Inr (parsed\<lparr>s2k_cipher := Some x\<rparr>))
        else if other = ''s2k-count'' then
          and_then (parse_s2k_count val) (\<lambda>x. Inr (parsed\<lparr>s2k_count := Some x\<rparr>))
        else if other = ''sess-key'' then
          and_then (parse_boolean_option name val) (\<lambda>x. Inr (parsed\<lparr>use_session_key := x\<rparr>))
        else if other = ''disable-mdc'' then
          and_then (parse_boolean_option name val) (\<lambda>x. if x
            then raise_error ''generating OpenPGP messages without integrity protection is not supported''
            else Inr parsed)
        else if other = ''ignore-cipher-failure'' then
          and_then (parse_boolean_option name val) (\<lambda>x. Inr parsed)
        else raise_error (''unknown PGP option: '' @ other)))"

definition parse_options :: "string \<Rightarrow> bool \<Rightarrow> PgpOptions result" where
  "parse_options options text =
    and_then (option_loop encrypt_option (default_options\<lparr>text_input := text\<rparr>) (option_items options))
      (\<lambda>parsed. if s2k_count parsed \<noteq> None \<and> s2k_mode parsed \<noteq> 3
        then raise_error ''s2k-count requires s2k-mode=3'' else Inr parsed)"

text \<open>The body of the loop of \<open>parse_decrypt_options\<close>.\<close>

definition decrypt_option :: "DecryptOptions \<Rightarrow> string \<Rightarrow> DecryptOptions result" where
  "decrypt_option parsed option = (case split_once CHR ''='' option of
      None \<Rightarrow> raise_error (''invalid PGP option: '' @ option)
    | Some (name, val) \<Rightarrow>
       (let other = to_ascii_lowercase (trim name) in
        if other = ''convert-crlf'' then
          and_then (parse_boolean_option name val) (\<lambda>x. Inr (parsed\<lparr>dec_convert_crlf := x\<rparr>))
        else if other = ''ignore-cipher-failure'' then
          and_then (parse_boolean_option name val) (\<lambda>x. Inr parsed)
        else if other \<in> set [''cipher-algo'', ''compress-algo'', ''compress-level'', ''disable-mdc'', ''sess-key'',
            ''s2k-mode'', ''s2k-count'', ''s2k-digest-algo'', ''s2k-cipher-algo'', ''unicode-mode'']
        then Inr parsed
        else raise_error (''unknown PGP option: '' @ other)))"

definition parse_decrypt_options :: "string \<Rightarrow> DecryptOptions result" where
  "parse_decrypt_options options =
    option_loop decrypt_option \<lparr>dec_convert_crlf = False\<rparr> (option_items options)"

section \<open>What an item means\<close>

datatype setting =
    Set_cipher SymmetricAlgorithm
  | Set_compression CompressionAlgorithm
  | Set_level u8
  | Set_unicode bool
  | Set_crlf bool
  | Set_mode u8
  | Set_digest HashAlgorithm
  | Set_s2k_cipher SymmetricAlgorithm
  | Set_count u32
  | Set_session_key bool
  | Keep_mdc
  | Ignore_failure bool

fun apply_setting :: "setting \<Rightarrow> PgpOptions \<Rightarrow> PgpOptions" where
  "apply_setting (Set_cipher x) p = p\<lparr>cipher_algo := x\<rparr>"
| "apply_setting (Set_compression x) p = p\<lparr>compression := x\<rparr>"
| "apply_setting (Set_level x) p = p\<lparr>compression_level := x\<rparr>"
| "apply_setting (Set_unicode x) p = p\<lparr>unicode_mode := x\<rparr>"
| "apply_setting (Set_crlf x) p = p\<lparr>convert_crlf := x\<rparr>"
| "apply_setting (Set_mode x) p = p\<lparr>s2k_mode := x\<rparr>"
| "apply_setting (Set_digest x) p = p\<lparr>s2k_digest := x\<rparr>"
| "apply_setting (Set_s2k_cipher x) p = p\<lparr>s2k_cipher := Some x\<rparr>"
| "apply_setting (Set_count x) p = p\<lparr>s2k_count := Some x\<rparr>"
| "apply_setting (Set_session_key x) p = p\<lparr>use_session_key := x\<rparr>"
| "apply_setting Keep_mdc p = p"
| "apply_setting (Ignore_failure x) p = p"

text \<open>The values the option syntax can express.\<close>

fun setting_ok :: "setting \<Rightarrow> bool" where
  "setting_ok (Set_cipher x) = (\<forall>n. x \<noteq> Sym_Other n)"
| "setting_ok (Set_compression x) = (\<forall>n. x \<noteq> Compression_Other n)"
| "setting_ok (Set_level x) = (x \<le> 9)"
| "setting_ok (Set_mode x) = (x = 0 \<or> x = 1 \<or> x = 3)"
| "setting_ok (Set_digest x) = (\<forall>n. x \<noteq> Hash_Other n)"
| "setting_ok (Set_s2k_cipher x) = (x = Sym_Blowfish \<or> x = AES128 \<or> x = AES192 \<or> x = AES256)"
| "setting_ok (Set_count x) = (1024 \<le> x \<and> x \<le> 65011712)"
| "setting_ok _ = True"

lemma parse_value_results:
  "parse_cipher v = Inr x \<Longrightarrow> x \<noteq> Sym_Other n"
  "parse_compress_algo v = Inr y \<Longrightarrow> y \<noteq> Compression_Other n"
  "parse_s2k_digest v = Inr z \<Longrightarrow> z \<noteq> Hash_Other n"
  "parse_s2k_cipher v = Inr x \<Longrightarrow> x = Sym_Blowfish \<or> x = AES128 \<or> x = AES192 \<or> x = AES256"
  "parse_compress_level v = Inr l \<Longrightarrow> l \<le> 9"
  "parse_s2k_mode v = Inr l \<Longrightarrow> l = 0 \<or> l = 1 \<or> l = 3"
  "parse_s2k_count v = Inr c \<Longrightarrow> 1024 \<le> c \<and> c \<le> 65011712"
  by (auto simp: parse_cipher_def parse_compress_algo_def parse_s2k_digest_def parse_s2k_cipher_def
      parse_compress_level_def parse_s2k_mode_def parse_s2k_count_def Let_def and_then_eq_Inr
      split: if_splits)

text \<open>Reading an item as a setting, without the record it will change.\<close>

definition item_setting :: "string \<Rightarrow> setting result" where
  "item_setting item = (case split_once CHR ''='' item of
      None \<Rightarrow> raise_error (''invalid PGP option: '' @ item)
    | Some (name, val) \<Rightarrow>
       (let other = to_ascii_lowercase (trim name) in
        if other = ''cipher-algo'' then and_then (parse_cipher val) (\<lambda>x. Inr (Set_cipher x))
        else if other = ''compress-algo'' then and_then (parse_compress_algo val) (\<lambda>x. Inr (Set_compression x))
        else if other = ''compress-level'' then and_then (parse_compress_level val) (\<lambda>x. Inr (Set_level x))
        else if other = ''unicode-mode'' then and_then (parse_boolean_option name val) (\<lambda>x. Inr (Set_unicode x))
        else if other = ''convert-crlf'' then and_then (parse_boolean_option name val) (\<lambda>x. Inr (Set_crlf x))
        else if other = ''s2k-mode'' then and_then (parse_s2k_mode val) (\<lambda>x. Inr (Set_mode x))
        else if other = ''s2k-digest-algo'' then and_then (parse_s2k_digest val) (\<lambda>x. Inr (Set_digest x))
        else if other = ''s2k-cipher-algo'' then and_then (parse_s2k_cipher val) (\<lambda>x. Inr (Set_s2k_cipher x))
        else if other = ''s2k-count'' then and_then (parse_s2k_count val) (\<lambda>x. Inr (Set_count x))
        else if other = ''sess-key'' then and_then (parse_boolean_option name val) (\<lambda>x. Inr (Set_session_key x))
        else if other = ''disable-mdc'' then and_then (parse_boolean_option name val) (\<lambda>x. if x
            then raise_error ''generating OpenPGP messages without integrity protection is not supported''
            else Inr Keep_mdc)
        else if other = ''ignore-cipher-failure'' then
          and_then (parse_boolean_option name val) (\<lambda>x. Inr (Ignore_failure x))
        else raise_error (''unknown PGP option: '' @ other)))"

lemma encrypt_option_setting:
  "encrypt_option p item = and_then (item_setting item) (\<lambda>s. Inr (apply_setting s p))"
  unfolding encrypt_option_def item_setting_def Let_def
  by (simp add: and_then_assoc and_then_if cong: if_cong split: option.split)

lemma item_setting_ok: "item_setting item = Inr s \<Longrightarrow> setting_ok s"
  unfolding item_setting_def Let_def
  by (auto simp: and_then_eq_Inr parse_value_results dest: parse_value_results split: option.splits if_split_asm)

section \<open>The loop\<close>

text \<open>
  The contract both parsers keep with the loop: an item is read on its own, and what it means
  is then applied to the options collected so far.
\<close>

locale option_body =
  fixes body :: "'o \<Rightarrow> string \<Rightarrow> 'o result"
    and reads :: "string \<Rightarrow> 's result"
    and acts :: "'s \<Rightarrow> 'o \<Rightarrow> 'o"
  assumes body_reads: "body p item = and_then (reads item) (\<lambda>s. Inr (acts s p))"
begin

lemma loop_eq:
  "option_loop body p items = and_then (map_result reads items) (\<lambda>ss. Inr (fold acts ss p))"
  by (induction items arbitrary: p) (simp_all add: body_reads and_then_assoc)

lemma loop_refuses: "reads item = Inl e \<Longrightarrow> item \<in> set items \<Longrightarrow> \<not> is_ok (option_loop body p items)"
proof (induction items arbitrary: p)
  case (Cons i items)
  then show ?case by (cases "reads i") (auto simp: body_reads)
qed simp

lemma loop_accepts_iff:
  "is_ok (option_loop body p items) \<longleftrightarrow> list_all (\<lambda>item. is_ok (reads item)) items"
proof (induction items arbitrary: p)
  case (Cons i items)
  then show ?case by (cases "reads i") (auto simp: body_reads)
qed simp

lemma loop_keeps:
  assumes "\<And>s p. (\<exists>item. reads item = Inr s) \<Longrightarrow> Q p \<Longrightarrow> Q (acts s p)"
  shows "Q p \<Longrightarrow> option_loop body p items = Inr p' \<Longrightarrow> Q p'"
  by (induction items arbitrary: p) (auto simp: body_reads and_then_eq_Inr intro: assms)

end

interpretation enc_opts: option_body encrypt_option item_setting apply_setting
  by unfold_locales (rule encrypt_option_setting)

text \<open>On decryption an item sets the CRLF conversion or has no effect.\<close>

definition decrypt_reads :: "string \<Rightarrow> bool option result" where
  "decrypt_reads item = (case split_once CHR ''='' item of
      None \<Rightarrow> raise_error (''invalid PGP option: '' @ item)
    | Some (name, val) \<Rightarrow>
       (let other = to_ascii_lowercase (trim name) in
        if other = ''convert-crlf'' then and_then (parse_boolean_option name val) (\<lambda>x. Inr (Some x))
        else if other = ''ignore-cipher-failure'' then and_then (parse_boolean_option name val) (\<lambda>x. Inr None)
        else if other \<in> set [''cipher-algo'', ''compress-algo'', ''compress-level'', ''disable-mdc'', ''sess-key'',
            ''s2k-mode'', ''s2k-count'', ''s2k-digest-algo'', ''s2k-cipher-algo'', ''unicode-mode'']
        then Inr None
        else raise_error (''unknown PGP option: '' @ other)))"

fun decrypt_acts :: "bool option \<Rightarrow> DecryptOptions \<Rightarrow> DecryptOptions" where
  "decrypt_acts None d = d"
| "decrypt_acts (Some x) d = d\<lparr>dec_convert_crlf := x\<rparr>"

interpretation dec_opts: option_body decrypt_option decrypt_reads decrypt_acts
  unfolding decrypt_option_def decrypt_reads_def Let_def
  by unfold_locales (simp add: and_then_assoc and_then_if cong: if_cong split: option.split)

section \<open>Well-formed options\<close>

definition options_ok :: "PgpOptions \<Rightarrow> bool" where
  "options_ok p \<longleftrightarrow> setting_ok (Set_cipher (cipher_algo p)) \<and> setting_ok (Set_compression (compression p)) \<and>
    setting_ok (Set_level (compression_level p)) \<and> setting_ok (Set_mode (s2k_mode p)) \<and>
    setting_ok (Set_digest (s2k_digest p)) \<and>
    (case s2k_cipher p of None \<Rightarrow> True | Some x \<Rightarrow> setting_ok (Set_s2k_cipher x)) \<and>
    (case s2k_count p of None \<Rightarrow> True | Some x \<Rightarrow> setting_ok (Set_count x))"

lemma default_options_ok: "options_ok (default_options\<lparr>text_input := t\<rparr>)"
  by (simp add: options_ok_def default_options_def)

lemma apply_setting_ok: "setting_ok s \<Longrightarrow> options_ok p \<Longrightarrow> options_ok (apply_setting s p)"
  by (cases s) (simp_all add: options_ok_def)

lemma apply_setting_text_input [simp]: "text_input (apply_setting s p) = text_input p"
  by (cases s) simp_all

lemma parse_options_eq_Inr:
  "parse_options options t = Inr p \<longleftrightarrow>
    option_loop encrypt_option (default_options\<lparr>text_input := t\<rparr>) (option_items options) = Inr p \<and>
    (s2k_count p \<noteq> None \<longrightarrow> s2k_mode p = 3)"
  by (auto simp: parse_options_def and_then_eq_Inr)

section \<open>Printing options\<close>

fun setting_name :: "setting \<Rightarrow> string" where
  "setting_name (Set_cipher x) = ''cipher-algo''"
| "setting_name (Set_compression x) = ''compress-algo''"
| "setting_name (Set_level x) = ''compress-level''"
| "setting_name (Set_unicode x) = ''unicode-mode''"
| "setting_name (Set_crlf x) = ''convert-crlf''"
| "setting_name (Set_mode x) = ''s2k-mode''"
| "setting_name (Set_digest x) = ''s2k-digest-algo''"
| "setting_name (Set_s2k_cipher x) = ''s2k-cipher-algo''"
| "setting_name (Set_count x) = ''s2k-count''"
| "setting_name (Set_session_key x) = ''sess-key''"
| "setting_name Keep_mdc = ''disable-mdc''"
| "setting_name (Ignore_failure x) = ''ignore-cipher-failure''"

definition cipher_name :: "SymmetricAlgorithm \<Rightarrow> string" where
  "cipher_name x = (case x of Sym_Blowfish \<Rightarrow> ''bf'' | AES128 \<Rightarrow> ''aes128'' | AES192 \<Rightarrow> ''aes192''
     | AES256 \<Rightarrow> ''aes256'' | TripleDES \<Rightarrow> ''3des'' | CAST5 \<Rightarrow> ''cast5'' | Sym_Other n \<Rightarrow> ''?'')"

definition bool_digit :: "bool \<Rightarrow> string" where
  "bool_digit b = (if b then ''1'' else ''0'')"

fun setting_value :: "setting \<Rightarrow> string" where
  "setting_value (Set_cipher x) = cipher_name x"
| "setting_value (Set_compression x) =
    (case x of Uncompressed \<Rightarrow> ''0'' | Zip \<Rightarrow> ''1'' | Zlib \<Rightarrow> ''2'' | Compression_Other n \<Rightarrow> ''?'')"
| "setting_value (Set_level x) = show_nat (unat x)"
| "setting_value (Set_unicode x) = bool_digit x"
| "setting_value (Set_crlf x) = bool_digit x"
| "setting_value (Set_mode x) = show_nat (unat x)"
| "setting_value (Set_digest x) = (case x of MD5 \<Rightarrow> ''md5'' | SHA1 \<Rightarrow> ''sha1'' | Hash_Other n \<Rightarrow> ''?'')"
| "setting_value (Set_s2k_cipher x) = cipher_name x"
| "setting_value (Set_count x) = show_nat (unat x)"
| "setting_value (Set_session_key x) = bool_digit x"
| "setting_value Keep_mdc = ''0''"
| "setting_value (Ignore_failure x) = bool_digit x"

definition show_setting :: "setting \<Rightarrow> string" where
  "show_setting s = setting_name s @ CHR ''='' # setting_value s"

definition settings_of :: "PgpOptions \<Rightarrow> setting list" where
  "settings_of p =
    [Set_cipher (cipher_algo p), Set_compression (compression p), Set_level (compression_level p),
     Set_unicode (unicode_mode p), Set_crlf (convert_crlf p), Set_mode (s2k_mode p),
     Set_digest (s2k_digest p), Set_session_key (use_session_key p)] @
    (case s2k_cipher p of None \<Rightarrow> [] | Some x \<Rightarrow> [Set_s2k_cipher x]) @
    (case s2k_count p of None \<Rightarrow> [] | Some x \<Rightarrow> [Set_count x])"

definition show_options :: "PgpOptions \<Rightarrow> string" where
  "show_options p = join_with CHR '','' (map show_setting (settings_of p))"

lemma setting_name_plain:
  "list_all plain_char (setting_name s) \<and> CHR ''='' \<notin> set (setting_name s) \<and>
   CHR '','' \<notin> set (setting_name s) \<and> setting_name s \<noteq> [] \<and>
   to_ascii_lowercase (setting_name s) = setting_name s"
  by (cases s) (simp_all add: plain_char_def ccode_def to_ascii_lowercase_def ascii_lower_def)

lemma show_nat_no_comma: "CHR '','' \<notin> set (show_nat n)"
  using show_nat_digits [of n] by (auto simp: list_all_iff is_digit_def ccode_def)

lemma setting_value_plain:
  "list_all plain_char (setting_value s) \<and> CHR '','' \<notin> set (setting_value s)"
  by (cases s)
    (auto simp: show_nat_plain show_nat_no_comma cipher_name_def bool_digit_def plain_char_def ccode_def
      split: SymmetricAlgorithm.splits CompressionAlgorithm.splits HashAlgorithm.splits)

lemma parse_u8_show_word: "parse_u8 (show_nat (unat (x :: u8))) = Some x"
proof -
  have "unat x < 256" using unsigned_less [of x] by simp
  then show ?thesis by (simp add: parse_u8_show_nat)
qed

lemma parse_u32_show_word: "parse_u32 (show_nat (unat (x :: u32))) = Some x"
proof -
  have "unat x < 2 ^ 32" using unsigned_less [of x] by simp
  then show ?thesis by (simp add: parse_u32_show_nat)
qed

lemma split_show_setting:
  "split_once CHR ''='' (show_setting s) = Some (setting_name s, setting_value s)"
  using setting_name_plain [of s] by (simp add: show_setting_def split_once_append)

lemma trim_setting_name: "to_ascii_lowercase (trim (setting_name s)) = setting_name s"
  using setting_name_plain [of s] by (simp add: trim_all_plain)

lemmas parse_value_defs = parse_cipher_def parse_compress_algo_def parse_compress_level_def
  parse_boolean_option_def parse_s2k_mode_def parse_s2k_digest_def parse_s2k_cipher_def
  parse_s2k_count_def

lemma item_setting_show_setting:
  assumes "setting_ok s"
  shows "item_setting (show_setting s) = Inr s"
  unfolding item_setting_def split_show_setting option.case prod.case trim_setting_name Let_def
  using assms
  by (cases s)
    (auto simp: parse_value_defs parse_u8_show_word parse_u32_show_word cipher_name_def bool_digit_def
      to_ascii_lowercase_def ascii_lower_def ccode_def plain_char_def trim_all_plain show_nat_plain
      not_less [symmetric]
      split: SymmetricAlgorithm.splits CompressionAlgorithm.splits HashAlgorithm.splits)

lemma show_setting_plain: "list_all plain_char (show_setting s) \<and> show_setting s \<noteq> [] \<and> CHR '','' \<notin> set (show_setting s)"
  using setting_name_plain [of s] setting_value_plain [of s]
  by (auto simp: show_setting_def plain_char_def ccode_def)

lemma option_items_join:
  assumes "ss \<noteq> []"
  shows "option_items (join_with CHR '','' (map show_setting ss)) = map show_setting ss"
proof -
  have "split_on CHR '','' (join_with CHR '','' (map show_setting ss)) = map show_setting ss"
    using assms show_setting_plain by (intro split_on_join_with) auto
  moreover have "map trim (map show_setting ss) = map show_setting ss"
    using show_setting_plain by (simp add: trim_all_plain)
  ultimately show ?thesis
    using show_setting_plain by (simp add: option_items_def filter_id_conv)
qed

lemma settings_of_ok: "options_ok p \<Longrightarrow> s \<in> set (settings_of p) \<Longrightarrow> setting_ok s"
  by (auto simp: settings_of_def options_ok_def split: option.splits)

lemma fold_settings_of:
  "fold apply_setting (settings_of p) (default_options\<lparr>text_input := text_input p\<rparr>) = p"
  by (cases p) (simp add: settings_of_def default_options_def split: option.splits)

lemma parse_settings:
  assumes "ss \<noteq> []" and "\<And>s. s \<in> set ss \<Longrightarrow> setting_ok s"
  shows "option_loop encrypt_option p (option_items (join_with CHR '','' (map show_setting ss))) =
    Inr (fold apply_setting ss p)"
proof -
  have "map_result item_setting (map show_setting ss) = Inr ss"
    using assms(2) by (simp add: map_result_eq_Inr list_all2_conv_all_nth item_setting_show_setting)
  then show ?thesis
    using assms(1) by (simp add: option_items_join enc_opts.loop_eq)
qed

fun crlf_of :: "setting \<Rightarrow> bool option" where
  "crlf_of (Set_crlf x) = Some x"
| "crlf_of _ = None"

lemma decrypt_reads_setting: "item_setting item = Inr s \<Longrightarrow> decrypt_reads item = Inr (crlf_of s)"
  unfolding item_setting_def decrypt_reads_def Let_def
  by (auto simp: and_then_eq_Inr split: option.splits if_split_asm)

lemma fold_crlf:
  "dec_convert_crlf d = convert_crlf p \<Longrightarrow>
    dec_convert_crlf (fold decrypt_acts (map crlf_of ss) d) = convert_crlf (fold apply_setting ss p)"
proof (induction ss arbitrary: d p)
  case (Cons s ss)
  have "dec_convert_crlf (decrypt_acts (crlf_of s) d) = convert_crlf (apply_setting s p)"
    using Cons.prems by (cases s) simp_all
  with Cons.IH show ?case by simp
qed simp

lemma parse_value_no_panic [no_panics]:
  "no_panic (parse_cipher v)" "no_panic (parse_compress_algo v)" "no_panic (parse_compress_level v)"
  "no_panic (parse_boolean_option n v)" "no_panic (parse_s2k_mode v)" "no_panic (parse_s2k_digest v)"
  "no_panic (parse_s2k_cipher v)" "no_panic (parse_s2k_count v)"
  unfolding parse_value_defs Let_def by ((intro no_panics; simp)+)

lemma item_setting_no_panic: "no_panic (item_setting item)"
proof (cases "split_once CHR ''='' item")
  case (Some nv)
  then show ?thesis
    by (cases nv) (simp only: item_setting_def Let_def option.case prod.case, intro no_panics, simp_all)
qed (simp add: item_setting_def)

lemma decrypt_reads_no_panic: "no_panic (decrypt_reads item)"
proof (cases "split_once CHR ''='' item")
  case (Some nv)
  then show ?thesis
    by (cases nv) (simp only: decrypt_reads_def Let_def option.case prod.case, intro no_panics, simp_all)
qed (simp add: decrypt_reads_def)

lemma parse_options_no_panic [no_panics]: "no_panic (parse_options options t)"
  unfolding parse_options_def enc_opts.loop_eq
  by (intro no_panics) (simp_all add: item_setting_no_panic)

lemma parse_decrypt_options_no_panic [no_panics]: "no_panic (parse_decrypt_options options)"
  unfolding parse_decrypt_options_def dec_opts.loop_eq
  by (intro no_panics) (simp_all add: decrypt_reads_no_panic)

text \<open>Every setting keeps the options well-formed, so the loop does.\<close>

lemma parse_options_ok:
  assumes "parse_options options t = Inr p"
  shows "options_ok p \<and> text_input p = t"
proof -
  let ?start = "default_options\<lparr>text_input := t\<rparr>"
  let ?Q = "\<lambda>p. options_ok p \<and> text_input p = t"
  have "?Q ?start" using default_options_ok by (simp add: default_options_def)
  then show ?thesis
    by (rule enc_opts.loop_keeps [rotated])
      (use assms in \<open>auto simp: parse_options_eq_Inr dest: item_setting_ok apply_setting_ok\<close>)
qed

lemma parse_decrypt_options_eq:
  assumes "parse_options options t = Inr p"
  shows "parse_decrypt_options options = Inr \<lparr>dec_convert_crlf = convert_crlf p\<rparr>"
proof -
  obtain ss where ss: "map_result item_setting (option_items options) = Inr ss"
    and p: "p = fold apply_setting ss (default_options\<lparr>text_input := t\<rparr>)"
    using assms by (auto simp: parse_options_eq_Inr enc_opts.loop_eq and_then_eq_Inr)
  have "map_result decrypt_reads (option_items options) = Inr (map crlf_of ss)"
    using ss by (simp add: map_result_eq_Inr list_all2_map2)
      (erule list_all2_mono, rule decrypt_reads_setting)
  moreover have "dec_convert_crlf (fold decrypt_acts (map crlf_of ss) \<lparr>dec_convert_crlf = False\<rparr>) = convert_crlf p"
    unfolding p by (rule fold_crlf) (simp add: default_options_def)
  ultimately show ?thesis
    by (simp add: parse_decrypt_options_def dec_opts.loop_eq)
qed

section \<open>Properties\<close>

text \<open>
  C4. Options that parse are well-formed: the S2K mode is 0, 1 or 3, the compression level at
  most 9, an S2K count lies between 1024 and 65011712 and comes with mode 3 only, every
  algorithm is one the extension supports, and whether the input is text is what the caller
  said. The code that consumes the options relies on it.
\<close>

theorem parse_options_well_formed:
  assumes "parse_options options t = Inr p"
  shows "options_ok p \<and> text_input p = t \<and> (s2k_mode p \<noteq> 3 \<longrightarrow> s2k_count p = None)"
  using parse_options_ok [OF assms] assms by (auto simp: parse_options_eq_Inr)

theorem parse_options_well_formed_witness:
  "parse_options ''s2k-mode=1, compress-level= 9'' True =
     Inr (default_options\<lparr>text_input := True, s2k_mode := 1, compression_level := 9\<rparr>) \<and>
   options_ok (default_options\<lparr>text_input := True, s2k_mode := 1, compression_level := 9\<rparr>)"
proof -
  have "parse_options ''s2k-mode=1, compress-level= 9'' True =
     Inr (default_options\<lparr>text_input := True, s2k_mode := 1, compression_level := 9\<rparr>)"
  proof -
    have "option_items ''s2k-mode=1, compress-level= 9'' = [''s2k-mode=1'', ''compress-level= 9'']"
      by (simp add: option_items_def name_eval)
    moreover have "item_setting ''s2k-mode=1'' = Inr (Set_mode 1)"
      by (simp add: item_setting_def parse_value_defs number_eval name_eval)
    moreover have "item_setting ''compress-level= 9'' = Inr (Set_level 9)"
      by (simp add: item_setting_def parse_value_defs number_eval name_eval)
    ultimately show ?thesis
      by (simp add: parse_options_eq_Inr encrypt_option_setting default_options_def)
  qed
  then show ?thesis using parse_options_well_formed by blast
qed

text \<open>
  C5. Printing and parsing options: every well-formed record of options is the result of
  parsing its printed form, so the option syntax can express all of them.
\<close>

theorem parse_show_options:
  assumes "options_ok p" and "s2k_count p \<noteq> None \<Longrightarrow> s2k_mode p = 3"
  shows "parse_options (show_options p) (text_input p) = Inr p"
proof -
  have "settings_of p \<noteq> []" by (simp add: settings_of_def)
  then show ?thesis
    using assms parse_settings [of "settings_of p"] settings_of_ok [OF assms(1)]
    by (simp add: parse_options_eq_Inr show_options_def fold_settings_of)
qed

theorem parse_show_options_witness:
  "parse_options (show_options (default_options\<lparr>s2k_count := Some 65536\<rparr>)) False =
     Inr (default_options\<lparr>s2k_count := Some 65536\<rparr>)"
  using parse_show_options [of "default_options\<lparr>s2k_count := Some 65536\<rparr>"]
  by (simp add: options_ok_def default_options_def)

text \<open>
  C6. What an option string means: its items are read from left to right, the first item that
  cannot be read is the error reported, and otherwise the settings are applied in order to
  the defaults, so that of two settings of one option the later wins. The only check across
  items is that a count needs S2K mode 3.
\<close>

theorem parse_options_refines:
  "parse_options options t =
    and_then (map_result item_setting (option_items options)) (\<lambda>ss.
      let p = fold apply_setting ss (default_options\<lparr>text_input := t\<rparr>)
      in if s2k_count p \<noteq> None \<and> s2k_mode p \<noteq> 3
         then raise_error ''s2k-count requires s2k-mode=3'' else Inr p)"
  by (simp add: parse_options_def enc_opts.loop_eq and_then_assoc Let_def)

text \<open>
  C19. An option string accepted for encryption is accepted for decryption, and both sides then
  agree on the CRLF conversion, the one option decryption acts on. So a caller can pass the
  same string to both.
\<close>

theorem decrypt_options_agree:
  assumes "parse_options options t = Inr p"
  shows "parse_decrypt_options options = Inr \<lparr>dec_convert_crlf = convert_crlf p\<rparr>"
  using assms by (rule parse_decrypt_options_eq)

theorem decrypt_options_agree_witness:
  "parse_decrypt_options ''cipher-algo=aes256,Convert-CRLF=1'' = Inr \<lparr>dec_convert_crlf = True\<rparr>"
proof -
  have "parse_options ''cipher-algo=aes256,Convert-CRLF=1'' True =
    Inr (default_options\<lparr>text_input := True, cipher_algo := AES256, convert_crlf := True\<rparr>)"
  proof -
    have "option_items ''cipher-algo=aes256,Convert-CRLF=1'' = [''cipher-algo=aes256'', ''Convert-CRLF=1'']"
      by (simp add: option_items_def name_eval)
    moreover have "item_setting ''cipher-algo=aes256'' = Inr (Set_cipher AES256)"
      by (simp add: item_setting_def parse_value_defs name_eval)
    moreover have "item_setting ''Convert-CRLF=1'' = Inr (Set_crlf True)"
      by (simp add: item_setting_def parse_value_defs name_eval)
    ultimately show ?thesis
      by (simp add: parse_options_eq_Inr encrypt_option_setting default_options_def)
  qed
  from decrypt_options_agree [OF this] show ?thesis by (simp add: default_options_def)
qed

text \<open>
  C20. Integrity protection cannot be switched off: an option string with \<open>disable-mdc=1\<close> among
  its items, in any case and with any white space around name and value, never parses.
\<close>

theorem disable_mdc_refused:
  assumes "item \<in> set (option_items options)" and "split_once CHR ''='' item = Some (name, val)"
    and "to_ascii_lowercase (trim name) = ''disable-mdc''" and "trim val = ''1''"
  shows "\<not> is_ok (parse_options options t)"
proof -
  have "item_setting item = raise_error
      ''generating OpenPGP messages without integrity protection is not supported''"
    using assms(2-4) by (simp add: item_setting_def parse_boolean_option_def)
  then have "\<not> is_ok (option_loop encrypt_option (default_options\<lparr>text_input := t\<rparr>) (option_items options))"
    using assms(1) by (rule enc_opts.loop_refuses)
  then show ?thesis by (auto simp: parse_options_def is_ok_iff and_then_eq_Inr)
qed

theorem disable_mdc_refused_witness:
  "\<not> is_ok (parse_options ''cipher-algo=aes256, Disable-MDC= 1'' True)"
proof (rule disable_mdc_refused)
  show "''Disable-MDC= 1'' \<in> set (option_items ''cipher-algo=aes256, Disable-MDC= 1'')"
    by (simp add: option_items_def name_eval)
  show "split_once CHR ''='' ''Disable-MDC= 1'' = Some (''Disable-MDC'', '' 1'')" by simp
  show "to_ascii_lowercase (trim ''Disable-MDC'') = ''disable-mdc''" by (simp add: name_eval)
  show "trim '' 1'' = ''1''" by (simp add: name_eval)
qed

end
