(* ===== verification/Pgp_Text.thy ===== *)
theory Pgp_Text
  imports Pgp_Options
begin

text \<open>
  Model of the message body of \<open>src/src/pgp.rs\<close>: the CRLF conversion, the literal-data formats,
  the text checks of decryption (\<open>decrypted_text\<close>) and the writer both encryption functions
  share (\<open>write_payload\<close>). Sequoia's message writers are the parameter \<open>message_writer\<close>.
\<close>

section \<open>Line endings\<close>

definition crlf_encode :: "bytes \<Rightarrow> bytes" where
  "crlf_encode data =
    foldl (\<lambda>out b. (if b = 10 then out @ [13] else out) @ [b]) [] data"

text \<open>
  The \<open>while\<close> loop of \<open>crlf_decode\<close> with its variables \<open>index\<close> and \<open>output\<close>. The first
  increment is under the guard that byte \<open>index + 1\<close> exists; that \<open>data[index]\<close>, which panics out
  of range, is therefore always in range is a lemma (\<open>crlf_decode_eq\<close>).
\<close>

function crlf_decode_loop :: "bytes \<Rightarrow> nat \<Rightarrow> bytes \<Rightarrow> bytes result" where
  "crlf_decode_loop data i out =
    (if i < length data then
       and_then (index_u8 data i) (\<lambda>b.
       let j = (if b = 13 \<and> get_u8 data (i + 1) = Some 10 then i + 1 else i) in
       and_then (index_u8 data j) (\<lambda>c.
       crlf_decode_loop data (j + 1) (out @ [c])))
     else Inr out)"
  by pat_completeness auto
termination
  by (relation "measure (\<lambda>(data, i, out). length data - i)") auto

declare crlf_decode_loop.simps [simp del]

definition crlf_decode :: "bytes \<Rightarrow> bytes result" where
  "crlf_decode data = crlf_decode_loop data 0 []"

section \<open>Literal data\<close>

definition LITERAL_UNKNOWN :: u8 where "LITERAL_UNKNOWN = 0"
definition LITERAL_BINARY :: u8 where "LITERAL_BINARY = 1"
definition LITERAL_TEXT :: u8 where "LITERAL_TEXT = 2"
definition LITERAL_UNICODE :: u8 where "LITERAL_UNICODE = 3"

text \<open>Sequoia's \<open>DataFormat\<close>, and the packets the sources tell apart.\<close>

datatype DataFormat = Format_Binary | Format_Text | Format_Unicode | Format_Other u8

datatype ('pkesk, 'skesk) Packet =
    Packet_PKESK 'pkesk
  | Packet_SKESK 'skesk
  | Packet_Literal DataFormat
  | Packet_Other

definition format_code :: "DataFormat \<Rightarrow> u8" where
  "format_code f = (case f of Format_Binary \<Rightarrow> LITERAL_BINARY | Format_Text \<Rightarrow> LITERAL_TEXT
     | Format_Unicode \<Rightarrow> LITERAL_UNICODE | Format_Other _ \<Rightarrow> LITERAL_UNKNOWN)"

text \<open>The atomic cell is the argument and result \<open>format\<close>.\<close>

definition inspect_literal_format :: "('pkesk, 'skesk) Packet \<Rightarrow> u8 \<Rightarrow> u8" where
  "inspect_literal_format pp format = (case pp of Packet_Literal f \<Rightarrow> format_code f | _ \<Rightarrow> format)"

definition pgp_error :: "string \<Rightarrow> string \<Rightarrow> pg_error" where
  "pgp_error ctx e = context_error ctx e"

definition decrypted_text :: "bytes \<Rightarrow> u8 \<Rightarrow> DecryptOptions \<Rightarrow> string result" where
  "decrypted_text data format options =
    (if \<not> (format = LITERAL_TEXT \<or> format = LITERAL_UNICODE)
     then raise_error ''decrypted OpenPGP data is not text''
     else and_then (if dec_convert_crlf options then crlf_decode data else Inr data) (\<lambda>data.
       if 0 \<in> set data then raise_error ''decrypted text contains a NUL byte''
       else unwrap_or_else (from_utf8 data) (pgp_error ''decrypted data is not valid UTF-8'')))"

section \<open>Writing a message\<close>

text \<open>
  A Sequoia \<open>Message\<close> of type \<open>'m\<close> is a stack of writers over the output vector:
  \<open>message_new\<close> is \<open>Message::new\<close> over an empty vector, \<open>encryptor_build\<close> is
  \<open>Encryptor::build\<close>, \<open>compression_level_new\<close> is \<open>CompressionLevel::new\<close>, \<open>compressor\<close> and \<open>literal_writer\<close> push a
  writer (builder and \<open>build\<close> in one call), and \<open>finalize\<close> flushes the stack. In the source
  the stack borrows the vector \<open>output\<close>; here the message carries it, and \<open>finalize\<close> gives it
  back.
\<close>

record ('m, 'enc, 'w) message_writer =
  message_new :: 'm
  encryptor_build :: "'enc \<Rightarrow> ('w, 'm) lib_io"
  compression_level_new :: "u8 \<Rightarrow> u8 lib_result"
  compressor :: "'m \<Rightarrow> CompressionAlgorithm \<Rightarrow> u8 \<Rightarrow> ('w, 'm) lib_io"
  literal_writer :: "'m \<Rightarrow> DataFormat \<Rightarrow> ('w, 'm) lib_io"
  write_all :: "'m \<Rightarrow> bytes \<Rightarrow> ('w, 'm) lib_io"
  finalize :: "'m \<Rightarrow> ('w, bytes) lib_io"

definition literal_format_of :: "PgpOptions \<Rightarrow> DataFormat" where
  "literal_format_of options = (case (text_input options, unicode_mode options) of
      (False, _) \<Rightarrow> Format_Binary | (True, False) \<Rightarrow> Format_Text | (True, True) \<Rightarrow> Format_Unicode)"

definition write_payload ::
  "('m, 'enc, 'w, 'z) message_writer_scheme \<Rightarrow> 'm \<Rightarrow> bytes \<Rightarrow> PgpOptions \<Rightarrow> ('w, bytes) lib_io" where
  "write_payload W message data options =
    io_then
      (if compression options \<noteq> Uncompressed \<and> compression_level options > 0
       then io_then (io_pure (compression_level_new W (compression_level options)))
              (\<lambda>level. compressor W message (compression options) level)
       else io_pure (Inr message))
      (\<lambda>message.
        let format = literal_format_of options;
            data = (if text_input options \<and> convert_crlf options then crlf_encode data else data)
        in io_then (literal_writer W message format) (\<lambda>literal.
           io_then (write_all W literal data) (\<lambda>literal.
           finalize W literal)))"

section \<open>CRLF conversion\<close>

text \<open>Both conversions as functions of the bytes alone.\<close>

definition crlf_encoded :: "bytes \<Rightarrow> bytes" where
  "crlf_encoded data = concat (map (\<lambda>b. if b = 10 then [13, 10] else [b]) data)"

fun crlf_decoded :: "bytes \<Rightarrow> bytes" where
  "crlf_decoded (a # b # xs) =
    (if a = 13 \<and> b = 10 then b # crlf_decoded xs else a # crlf_decoded (b # xs))"
| "crlf_decoded xs = xs"

lemma crlf_encode_eq: "crlf_encode data = crlf_encoded data"
proof -
  have "foldl (\<lambda>out b. (if b = 10 then out @ [13] else out) @ [b]) out data = out @ crlf_encoded data" for out
    by (induction data arbitrary: out) (auto simp: crlf_encoded_def)
  from this [of "[]"] show ?thesis by (simp add: crlf_encode_def)
qed

lemma crlf_decoded_drop:
  assumes "i < length data"
  shows "crlf_decoded (drop i data) =
    (if data ! i = 13 \<and> i + 1 < length data \<and> data ! (i + 1) = 10
     then data ! (i + 1) # crlf_decoded (drop (i + 2) data) else data ! i # crlf_decoded (drop (i + 1) data))"
proof (cases "i + 1 < length data")
  case True
  then have "drop i data = data ! i # data ! (i + 1) # drop (i + 2) data"
    using assms by (simp add: Cons_nth_drop_Suc)
  moreover have "drop (i + 1) data = data ! (i + 1) # drop (i + 2) data"
    using True by (simp add: Cons_nth_drop_Suc)
  ultimately show ?thesis using True by simp
next
  case False
  then have "drop i data = [data ! i]" and "drop (i + 1) data = []"
    using assms Cons_nth_drop_Suc [of i data] by auto
  then show ?thesis using False by simp
qed

lemma crlf_decode_loop_eq: "crlf_decode_loop data i out = Inr (out @ crlf_decoded (drop i data))"
proof (induction data i out rule: crlf_decode_loop.induct)
  case (1 data i out)
  show ?case
  proof (cases "i < length data")
    case True
    then show ?thesis
      using 1 by (subst crlf_decode_loop.simps) (auto simp: Let_def crlf_decoded_drop get_u8_Some)
  next
    case False
    then show ?thesis by (subst crlf_decode_loop.simps) simp
  qed
qed

text \<open>The loop never indexes out of range, and computes the function above.\<close>

lemma crlf_decode_eq: "crlf_decode data = Inr (crlf_decoded data)"
  by (simp add: crlf_decode_def crlf_decode_loop_eq)

lemma crlf_decoded_Cons: "a \<noteq> 13 \<or> xs = [] \<or> hd xs \<noteq> 10 \<Longrightarrow> crlf_decoded (a # xs) = a # crlf_decoded xs"
  by (cases xs) auto

lemma crlf_decoded_Nil [simp]: "crlf_decoded xs = [] \<longleftrightarrow> xs = []"
  by (induction xs rule: crlf_decoded.induct) auto

lemma crlf_encoded_head: "crlf_encoded data \<noteq> [] \<Longrightarrow> hd (crlf_encoded data) \<noteq> 10"
  by (cases data) (auto simp: crlf_encoded_def)

lemma crlf_decoded_encoded: "crlf_decoded (crlf_encoded data) = data"
proof (induction data)
  case Nil
  then show ?case by (simp add: crlf_encoded_def)
next
  case (Cons a data)
  have "crlf_decoded (c # crlf_encoded data) = c # data" for c
    using Cons crlf_encoded_head [of data] by (subst crlf_decoded_Cons) auto
  then show ?case using Cons by (simp add: crlf_encoded_def)
qed

lemma crlf_decoded_set: "b \<noteq> 13 \<Longrightarrow> b \<in> set (crlf_decoded xs) \<longleftrightarrow> b \<in> set xs"
  by (induction xs rule: crlf_decoded.induct) auto

lemma cont_byte_bounds: "cont_byte b \<Longrightarrow> b \<noteq> 13 \<and> b \<noteq> 10"
  by (auto simp: cont_byte_def)

lemma second_cont: "second_of_3 a b \<or> second_of_4 a b \<Longrightarrow> cont_byte b"
  by (auto simp: second_of_3_def second_of_4_def cont_byte_def word_le_nat_alt split: if_splits)

lemma crlf_decoded_head: "xs \<noteq> [] \<Longrightarrow> cont_byte (hd (crlf_decoded xs)) \<longleftrightarrow> cont_byte (hd xs)"
  by (cases xs rule: crlf_decoded.cases) (auto simp: cont_byte_def)

text \<open>A continuation byte at the head is kept, and nothing else becomes one.\<close>

lemma crlf_decoded_cont_cases:
  obtains (nil) "xs = []" "crlf_decoded xs = []"
    | (cont) b ys where "cont_byte b" "xs = b # ys" "crlf_decoded xs = b # crlf_decoded ys"
    | (other) b ys c zs where "\<not> cont_byte b" "\<not> cont_byte c" "xs = b # ys" "crlf_decoded xs = c # zs"
proof (cases xs)
  case Nil
  then show thesis using nil by simp
next
  case (Cons b ys)
  then obtain c zs where c: "crlf_decoded xs = c # zs" by (cases "crlf_decoded xs") auto
  show thesis
  proof (cases "cont_byte b")
    case True
    then show thesis using cont Cons cont_byte_bounds crlf_decoded_Cons by blast
  next
    case False
    then show thesis using other Cons c crlf_decoded_head [of xs] by simp
  qed
qed

lemma utf8_lead_cases:
  assumes "\<not> a < 0x80"
  obtains (two) "\<And>xs. utf8_ok (a # xs) \<longleftrightarrow> (case xs of b # ys \<Rightarrow> cont_byte b \<and> utf8_ok ys | _ \<Rightarrow> False)"
    | (three) "\<And>xs. utf8_ok (a # xs) \<longleftrightarrow>
        (case xs of b # c # ys \<Rightarrow> second_of_3 a b \<and> cont_byte c \<and> utf8_ok ys | _ \<Rightarrow> False)"
    | (four) "\<And>xs. utf8_ok (a # xs) \<longleftrightarrow>
        (case xs of b # c # d # ys \<Rightarrow> second_of_4 a b \<and> cont_byte c \<and> cont_byte d \<and> utf8_ok ys | _ \<Rightarrow> False)"
    | (bad) "\<And>xs. \<not> utf8_ok (a # xs)"
proof -
  consider (A) "0xC2 \<le> a \<and> a \<le> 0xDF" | (B) "\<not> (0xC2 \<le> a \<and> a \<le> 0xDF)" "0xE0 \<le> a \<and> a \<le> 0xEF"
    | (C) "\<not> (0xC2 \<le> a \<and> a \<le> 0xDF)" "\<not> (0xE0 \<le> a \<and> a \<le> 0xEF)" "0xF0 \<le> a \<and> a \<le> 0xF4"
    | (D) "\<not> (0xC2 \<le> a \<and> a \<le> 0xDF)" "\<not> (0xE0 \<le> a \<and> a \<le> 0xEF)" "\<not> (0xF0 \<le> a \<and> a \<le> 0xF4)"
    by blast
  then show thesis
  proof cases
    case A
    then show thesis using two unfolding utf8_ok.simps if_not_P [OF assms] if_P [OF A] by simp
  next
    case B
    then show thesis
      using three unfolding utf8_ok.simps if_not_P [OF assms] if_not_P [OF B(1)] if_P [OF B(2)] by simp
  next
    case C
    then show thesis
      using four unfolding utf8_ok.simps if_not_P [OF assms] if_not_P [OF C(1)] if_not_P [OF C(2)] if_P [OF C(3)]
      by simp
  next
    case D
    then show thesis
      using bad unfolding utf8_ok.simps if_not_P [OF assms] if_not_P [OF D(1)] if_not_P [OF D(2)] if_not_P [OF D(3)]
      by simp
  qed
qed

lemma crlf_decoded_utf8_multi:
  assumes IH: "\<And>ys. length ys < length (a # xs) \<Longrightarrow> utf8_ok (crlf_decoded ys) \<longleftrightarrow> utf8_ok ys"
    and "\<not> a < 0x80"
  shows "utf8_ok (a # crlf_decoded xs) \<longleftrightarrow> utf8_ok (a # xs)"
using assms(2)
proof (cases a rule: utf8_lead_cases)
  case two
  then show ?thesis
    using IH by (cases rule: crlf_decoded_cont_cases [of xs]) simp_all
next
  case three
  show ?thesis
  proof (cases rule: crlf_decoded_cont_cases [of xs])
    case (cont b ys)
    then show ?thesis
      using IH three by (cases rule: crlf_decoded_cont_cases [of ys]) simp_all
  qed (use three second_cont in \<open>auto split: list.splits\<close>)
next
  case four
  show ?thesis
  proof (cases rule: crlf_decoded_cont_cases [of xs])
    case (cont b ys)
    note first = cont
    show ?thesis
    proof (cases rule: crlf_decoded_cont_cases [of ys])
      case (cont c zs)
      then show ?thesis
        using IH four first by (cases rule: crlf_decoded_cont_cases [of zs]) simp_all
    qed (use four first in \<open>auto split: list.splits\<close>)
  qed (use four second_cont in \<open>auto split: list.splits\<close>)
next
  case bad
  then show ?thesis by simp
qed

lemma utf8_ok_crlf_decoded: "utf8_ok (crlf_decoded xs) \<longleftrightarrow> utf8_ok xs"
proof (induction xs rule: length_induct)
  case (1 xs)
  show ?case
  proof (cases xs)
    case Nil
    then show ?thesis by simp
  next
    case (Cons a ys)
    show ?thesis
    proof (cases "a < 0x80")
      case True
      then have "utf8_ok (a # zs) \<longleftrightarrow> utf8_ok zs" for zs by (simp add: utf8_ok.simps)
      moreover have "utf8_ok (10 # zs) \<longleftrightarrow> utf8_ok zs" for zs by (simp add: utf8_ok.simps)
      ultimately show ?thesis using 1 Cons by (cases ys) auto
    next
      case False
      then have "a \<noteq> 13" by auto
      then show ?thesis
        using 1 Cons False crlf_decoded_utf8_multi [of a ys] by (simp add: crlf_decoded_Cons)
    qed
  qed
qed

section \<open>What is written and what is read\<close>

text \<open>The bytes of the literal packet for the data a caller passed.\<close>

definition literal_body :: "PgpOptions \<Rightarrow> bytes \<Rightarrow> bytes" where
  "literal_body p data = (if text_input p \<and> convert_crlf p then crlf_encode data else data)"

definition literal_compression :: "PgpOptions \<Rightarrow> (CompressionAlgorithm \<times> u8) option" where
  "literal_compression p = (if compression p \<noteq> Uncompressed \<and> compression_level p > 0
     then Some (compression p, compression_level p) else None)"

text \<open>Pushing an optional compressor and a literal packet, writing its body, finishing.\<close>

definition literal_message ::
  "('m, 'enc, 'w, 'z) message_writer_scheme \<Rightarrow> 'm \<Rightarrow> (CompressionAlgorithm \<times> u8) option \<Rightarrow> DataFormat \<Rightarrow>
    bytes \<Rightarrow> ('w, bytes) lib_io" where
  "literal_message W m compr fmt body =
    io_then (case compr of None \<Rightarrow> io_pure (Inr m)
       | Some (algo, level) \<Rightarrow>
           io_then (io_pure (compression_level_new W level)) (\<lambda>l. compressor W m algo l))
      (\<lambda>m. io_then (literal_writer W m fmt) (\<lambda>l. io_then (write_all W l body) (\<lambda>l. finalize W l)))"

lemma write_payload_eq:
  "write_payload W m data p =
    literal_message W m (literal_compression p) (literal_format_of p) (literal_body p data)"
  by (simp add: write_payload_def literal_message_def literal_compression_def literal_body_def Let_def)

lemma decrypted_text_eq_Inr:
  "decrypted_text data f d = Inr s \<longleftrightarrow>
    (f = LITERAL_TEXT \<or> f = LITERAL_UNICODE) \<and> 0 \<notin> set data \<and> utf8_ok data \<and>
    (if dec_convert_crlf d then crlf_decode data else Inr data) = Inr (as_bytes s)"
  by (auto simp: decrypted_text_def and_then_eq_Inr unwrap_or_else_eq_Inr from_utf8_eq_Inr crlf_decode_eq
      crlf_decoded_set utf8_ok_crlf_decoded)

lemma crlf_encoded_set: "b \<noteq> 13 \<Longrightarrow> b \<in> set (crlf_encoded xs) \<longleftrightarrow> b \<in> set xs"
  by (auto simp: crlf_encoded_def split: if_splits)

lemma utf8_ok_crlf_encoded: "utf8_ok (crlf_encoded xs) \<longleftrightarrow> utf8_ok xs"
  using utf8_ok_crlf_decoded [of "crlf_encoded xs"] by (simp add: crlf_decoded_encoded)

text \<open>Text survives: what \<open>write_payload\<close> puts into a text message, \<open>decrypted_text\<close> gives back.\<close>

lemma text_survives:
  assumes "text_input p" and "utf8_ok (as_bytes s)" and "0 \<notin> set (as_bytes s)"
  shows "decrypted_text (literal_body p (as_bytes s)) (format_code (literal_format_of p))
    \<lparr>dec_convert_crlf = convert_crlf p\<rparr> = Inr s"
  using assms
  by (simp add: decrypted_text_eq_Inr literal_body_def literal_format_of_def format_code_def
      crlf_encode_eq crlf_decode_eq crlf_decoded_encoded crlf_encoded_set utf8_ok_crlf_encoded split: bool.split)

text \<open>Binary data is never given out as text.\<close>

lemma binary_is_no_text:
  "\<not> text_input p \<Longrightarrow> decrypted_text data (format_code (literal_format_of p)) d =
    raise_error ''decrypted OpenPGP data is not text''"
  by (simp add: decrypted_text_def literal_format_of_def format_code_def LITERAL_BINARY_def
      LITERAL_TEXT_def LITERAL_UNICODE_def)

lemma no_panic_pgp_error [simp]: "no_panic (Inl (pgp_error ctx e))"
  by (simp add: pgp_error_def)

lemma decrypted_text_no_panic [no_panics]: "no_panic (decrypted_text data f d)"
  unfolding decrypted_text_def crlf_decode_eq by (intro no_panics) simp_all

section \<open>Properties\<close>

text \<open>
  C7. The CRLF conversion is lossless: decoding does not panic and gives back any data that was
  encoded, whatever mixture of carriage returns and line feeds it has.
\<close>

theorem crlf_round_trip: "crlf_decode (crlf_encode data) = Inr data"
  by (simp add: crlf_encode_eq crlf_decode_eq crlf_decoded_encoded)

text \<open>
  C18. Exactly which messages are given out as text: the literal packet is marked as text or
  Unicode, and its bytes are valid UTF-8 without NUL. The result is these bytes, CRLF turned
  into LF if asked for; the conversion neither repairs nor breaks an encoding, so checking
  before or after it makes no difference. Every other message has the one error that says why.
\<close>

theorem decrypted_text_outcome:
  "case decrypted_text data f d of
      Inr s \<Rightarrow> (f = LITERAL_TEXT \<or> f = LITERAL_UNICODE) \<and> 0 \<notin> set data \<and> utf8_ok data \<and>
        (if dec_convert_crlf d then crlf_decode data else Inr data) = Inr (as_bytes s)
    | Inl e \<Rightarrow>
        if \<not> (f = LITERAL_TEXT \<or> f = LITERAL_UNICODE) then e = PgError ''decrypted OpenPGP data is not text''
        else if 0 \<in> set data then e = PgError ''decrypted text contains a NUL byte''
        else \<not> utf8_ok data \<and> (\<exists>t. e = PgError (''decrypted data is not valid UTF-8: '' @ t))"
proof (cases "decrypted_text data f d")
  case (Inl e)
  then show ?thesis
    by (auto simp: decrypted_text_def and_then_eq_Inl crlf_decode_eq crlf_decoded_set unwrap_or_else_def
        utf8_ok_crlf_decoded pgp_error_def context_error_def dest!: from_utf8_eq_Inl
        split: if_splits sum.splits)
next
  case (Inr s)
  then show ?thesis using decrypted_text_eq_Inr [of data f d s] by simp
qed

end
