(* ===== verification/Pgp_Session.thy ===== *)
theory Pgp_Session
  imports Pgp_Text
begin

text \<open>
  The parts of \<open>src/src/pgp.rs\<close> that passwords and public keys share on decryption: the helper
  object Sequoia's decryptor calls back, the shape of both helpers' search for a session key,
  and what the decryptor promises about a message that was written by its own writers.
\<close>

section \<open>The decryptor and its helper\<close>

text \<open>
  The traits \<open>VerificationHelper\<close> and \<open>DecryptionHelper\<close>. A packet, a key handle and a message
  structure are the library's. The callback \<open>decrypt\<close> hands a session key to the decryptor,
  which changes its state \<open>'cb\<close> and answers whether the key opens the message. The shared
  \<open>AtomicU8\<close> is the state of type \<^typ>\<open>u8\<close> that \<open>inspect\<close> updates.
\<close>

type_synonym ('sess, 'cb) decrypt_callback = "SymmetricAlgorithm option \<Rightarrow> 'sess \<Rightarrow> 'cb \<Rightarrow> bool \<times> 'cb"

record ('pkesk, 'skesk, 'sess, 'cert, 'handle, 'structure, 'cb) helper =
  inspect :: "('pkesk, 'skesk) Packet \<Rightarrow> (u8, unit) lib_io"
  get_certs :: "'handle list \<Rightarrow> 'cert list lib_result"
  check :: "'structure \<Rightarrow> unit lib_result"
  helper_decrypt :: "'pkesk list \<Rightarrow> 'skesk list \<Rightarrow> SymmetricAlgorithm option \<Rightarrow>
    ('sess, 'cb) decrypt_callback \<Rightarrow> ('cb, 'cert option) lib_io"

text \<open>
  \<open>DecryptorBuilder::from_bytes\<close>, its \<open>with_policy\<close> under the null policy, \<open>read_to_end\<close> on the
  decryptor, and the text of the error \<open>Error::InvalidOperation\<close>. The decryptor owns the
  helper; \<open>with_policy\<close> and \<open>read_to_end\<close> can both call \<open>inspect\<close>.
\<close>

record ('pkesk, 'skesk, 'sess, 'cert, 'handle, 'structure, 'cb, 'b, 'd) decryptor_lib =
  decryptor_from_bytes :: "bytes \<Rightarrow> 'b lib_result"
  with_policy :: "'b \<Rightarrow> ('pkesk, 'skesk, 'sess, 'cert, 'handle, 'structure, 'cb) helper \<Rightarrow> (u8, 'd) lib_io"
  read_to_end :: "'d \<Rightarrow> (u8, bytes) lib_io"
  invalid_operation :: "string \<Rightarrow> string"

text \<open>The bodies that are the same in \<open>PasswordHelper\<close> and \<open>KeyHelper\<close>.\<close>

definition helper_inspect :: "('pkesk, 'skesk) Packet \<Rightarrow> (u8, unit) lib_io" where
  "helper_inspect pp format = (Inr (), inspect_literal_format pp format)"

definition helper_get_certs :: "'handle list \<Rightarrow> 'cert list lib_result" where
  "helper_get_certs ids = Inr []"

definition helper_check :: "'structure \<Rightarrow> unit lib_result" where
  "helper_check structure = Inr ()"

text \<open>
  The part of \<open>sym_decrypt\<close> and \<open>pub_decrypt\<close> after the helper is made: both start with the
  format unknown and differ in the helper and in the text \<open>failed\<close> of two errors.
\<close>

definition run_decryptor ::
  "('pkesk, 'skesk, 'sess, 'cert, 'handle, 'structure, 'cb, 'b, 'd, 'z) decryptor_lib_scheme \<Rightarrow> string \<Rightarrow>
    ('pkesk, 'skesk, 'sess, 'cert, 'handle, 'structure, 'cb) helper \<Rightarrow> bytes \<Rightarrow> (bytes \<times> u8) result" where
  "run_decryptor D failed helper data =
    (case io_then (io_pure (unwrap_or_else (decryptor_from_bytes D data) (pgp_error ''invalid OpenPGP message'')))
       (\<lambda>builder. io_then (io_unwrap_or_else (with_policy D builder helper) (pgp_error failed))
       (\<lambda>decryptor. io_unwrap_or_else (read_to_end D decryptor) (pgp_error failed))) LITERAL_UNKNOWN
     of (Inl e, _) \<Rightarrow> Inl e | (Inr output, literal_format) \<Rightarrow> Inr (output, literal_format))"

section \<open>What the decryptor promises\<close>

fun is_literal :: "('pkesk, 'skesk) Packet \<Rightarrow> bool" where
  "is_literal (Packet_Literal f) = True"
| "is_literal _ = False"

text \<open>
  What the decryptor may know of the cipher when it asks for a session key: nothing, or the
  cipher the message names. A helper serves a message when none of its callbacks fails and it
  finds a session key as soon as the decryptor accepts the one the message was encrypted with:
  it stops right after a call of \<open>decrypt\<close> that answered true. It may offer other keys before.
\<close>

definition message_hint :: "SymmetricAlgorithm \<Rightarrow> SymmetricAlgorithm option \<Rightarrow> bool" where
  "message_hint algo hint \<longleftrightarrow> hint = None \<or> hint = Some algo"

definition serves ::
  "('pkesk, 'skesk, 'sess, 'cert, 'handle, 'structure, 'cb) helper \<Rightarrow> 'pkesk list \<Rightarrow> 'skesk list \<Rightarrow>
    SymmetricAlgorithm \<Rightarrow> 'sess \<Rightarrow> bool" where
  "serves h pkesks skesks algo key \<longleftrightarrow>
    (\<forall>pp c. is_ok (fst (inspect h pp c))) \<and> (\<forall>ids. is_ok (get_certs h ids)) \<and> (\<forall>st. is_ok (check h st)) \<and>
    (\<forall>hint cb s. message_hint algo hint \<longrightarrow> (\<forall>u. fst (cb (Some algo) key u)) \<longrightarrow>
      (\<exists>cert a k u s'. cb a k u = (True, s') \<and> helper_decrypt h pkesks skesks hint cb s = (Inr cert, s')))"

text \<open>
  A byte vector is a message with the given session key packets, cipher, session key, literal
  format and literal body when a helper that serves it gets the body, and the packets it
  inspects on the way have one literal packet, with that format.
\<close>

definition reads_as ::
  "('pkesk, 'skesk, 'sess, 'cert, 'handle, 'structure, 'cb, 'b, 'd, 'z) decryptor_lib_scheme \<Rightarrow> bytes \<Rightarrow>
    'pkesk list \<Rightarrow> 'skesk list \<Rightarrow> SymmetricAlgorithm \<Rightarrow> 'sess \<Rightarrow> DataFormat \<Rightarrow> bytes \<Rightarrow> bool" where
  "reads_as D data pkesks skesks algo key fmt body \<longleftrightarrow>
    (\<exists>b. decryptor_from_bytes D data = Inr b \<and>
      (\<forall>h c. serves h pkesks skesks algo key \<longrightarrow>
        (\<exists>d c' packets. with_policy D b h c = (Inr d, c') \<and> filter is_literal packets = [Packet_Literal fmt] \<and>
          read_to_end D d c' = (Inr body, fold (\<lambda>pp c. snd (inspect h pp c)) packets c))))"

text \<open>For a helper with the shared bodies only its \<open>decrypt\<close> is left to show.\<close>

lemma servesI:
  fixes h :: "('pkesk, 'skesk, 'sess, 'cert, 'handle, 'structure, 'cb) helper"
  assumes "inspect h = helper_inspect" and "get_certs h = helper_get_certs" and "check h = helper_check"
    and "\<And>hint cb s. message_hint algo hint \<Longrightarrow> (\<And>u. fst (cb (Some algo) key u)) \<Longrightarrow>
      \<exists>cert a k u s'. cb a k u = (True, s') \<and> helper_decrypt h pkesks skesks hint cb s = (Inr cert, s')"
  shows "serves h pkesks skesks algo key"
  unfolding serves_def
proof (intro conjI allI impI)
  fix hint and cb :: "('sess, 'cb) decrypt_callback" and s
  assume "message_hint algo hint" and "\<forall>u. fst (cb (Some algo) key u)"
  then show "\<exists>cert a k u s'. cb a k u = (True, s') \<and> helper_decrypt h pkesks skesks hint cb s = (Inr cert, s')"
    by (intro assms(4)) simp_all
qed (simp_all add: assms(1-3) helper_inspect_def helper_get_certs_def helper_check_def)

lemma serves_decrypt:
  "serves h pkesks skesks algo key \<Longrightarrow> message_hint algo hint \<Longrightarrow> (\<And>u. fst (cb (Some algo) key u)) \<Longrightarrow>
    \<exists>cert s'. helper_decrypt h pkesks skesks hint cb s = (Inr cert, s')"
  unfolding serves_def by blast

lemma inspect_other: "\<not> is_literal pp \<Longrightarrow> inspect_literal_format pp c = c"
  by (cases pp) (simp_all add: inspect_literal_format_def)

lemma fold_inspect_filter:
  "fold inspect_literal_format packets c = fold inspect_literal_format (filter is_literal packets) c"
  by (induction packets arbitrary: c) (simp_all add: inspect_other)

lemma inspect_packets:
  "filter is_literal packets = [Packet_Literal fmt] \<Longrightarrow>
    fold (\<lambda>pp c. snd (helper_inspect pp c)) packets c = format_code fmt"
  using fold_inspect_filter [of packets c] by (simp add: helper_inspect_def) (simp add: inspect_literal_format_def)

lemma run_decryptor_reads:
  assumes "reads_as D data pkesks skesks algo key fmt body" and "serves h pkesks skesks algo key"
    and "inspect h = helper_inspect"
  shows "run_decryptor D failed h data = Inr (body, format_code fmt)"
proof -
  obtain b where b: "decryptor_from_bytes D data = Inr b"
    and all: "\<And>c. \<exists>d c' packets. with_policy D b h c = (Inr d, c') \<and>
      filter is_literal packets = [Packet_Literal fmt] \<and>
      read_to_end D d c' = (Inr body, fold (\<lambda>pp c. snd (inspect h pp c)) packets c)"
    using assms(1,2) unfolding reads_as_def by blast
  obtain d c' packets where "with_policy D b h LITERAL_UNKNOWN = (Inr d, c')"
    and "filter is_literal packets = [Packet_Literal fmt]"
    and "read_to_end D d c' = (Inr body, fold (\<lambda>pp c. snd (inspect h pp c)) packets LITERAL_UNKNOWN)"
    using all [of LITERAL_UNKNOWN] by blast
  then show ?thesis
    using b assms(3) by (simp add: run_decryptor_def io_run inspect_packets)
qed

text \<open>
  A message that needs a session key: when the helper's \<open>decrypt\<close> fails, with one error whatever the
  callback answers, opening the message fails with that error.
\<close>

definition needs_key ::
  "('pkesk, 'skesk, 'sess, 'cert, 'handle, 'structure, 'cb, 'b, 'd, 'z) decryptor_lib_scheme \<Rightarrow> bytes \<Rightarrow>
    'pkesk list \<Rightarrow> 'skesk list \<Rightarrow> bool" where
  "needs_key D data pkesks skesks \<longleftrightarrow>
    (\<exists>b. decryptor_from_bytes D data = Inr b \<and>
      (\<forall>h e c. (\<forall>hint cb s. fst (helper_decrypt h pkesks skesks hint cb s) = Inl e) \<longrightarrow>
        fst (with_policy D b h c) = Inl e))"

lemma run_decryptor_fails:
  assumes "needs_key D data pkesks skesks" and "\<And>hint cb s. fst (helper_decrypt h pkesks skesks hint cb s) = Inl e"
  shows "run_decryptor D failed h data = Inl (pgp_error failed e)"
proof -
  obtain b where b: "decryptor_from_bytes D data = Inr b" and "fst (with_policy D b h LITERAL_UNKNOWN) = Inl e"
    using assms unfolding needs_key_def by blast
  then obtain c where "with_policy D b h LITERAL_UNKNOWN = (Inl e, c)" by (metis prod.collapse)
  with b show ?thesis by (simp add: run_decryptor_def io_run)
qed

lemma run_decryptor_no_panic [no_panics]: "no_panic (run_decryptor D failed h data)"
proof -
  have "no_panic (fst (io_then (io_pure (unwrap_or_else (decryptor_from_bytes D data) (pgp_error ''invalid OpenPGP message'')))
       (\<lambda>builder. io_then (io_unwrap_or_else (with_policy D builder h) (pgp_error failed))
       (\<lambda>decryptor. io_unwrap_or_else (read_to_end D decryptor) (pgp_error failed))) LITERAL_UNKNOWN))"
    by (intro no_panics) simp_all
  then show ?thesis by (auto simp: run_decryptor_def no_panic_iff split: prod.splits sum.splits)
qed

section \<open>Searching for the session key\<close>

text \<open>
  The contract of both helpers' \<open>decrypt\<close>: there is a list of candidates, each may offer a
  session key, and the search stops at the first key the callback accepts.
\<close>

locale key_search =
  fixes search :: "'c list \<Rightarrow> ('sess, 'cb) decrypt_callback \<Rightarrow> ('cb, 'r) lib_io"
    and offer :: "'c \<Rightarrow> (SymmetricAlgorithm option \<times> 'sess) option"
    and found :: 'r
    and failure :: string
  assumes search_Nil: "search [] cb s = (Inl failure, s)"
    and search_Cons: "search (c # cs) cb s = (case offer c of
        None \<Rightarrow> search cs cb s
      | Some (a, k) \<Rightarrow> (case cb a k s of (True, s') \<Rightarrow> (Inr found, s') | (False, s') \<Rightarrow> search cs cb s'))"
begin

lemma search_offers:
  "search cs cb s =
    (case foldl (\<lambda>(ok, s) (a, k). if ok then (ok, s) else cb a k s) (False, s) (List.map_filter offer cs) of
       (True, s') \<Rightarrow> (Inr found, s') | (False, s') \<Rightarrow> (Inl failure, s'))"
proof -
  have stop: "foldl (\<lambda>(ok, s) (a, k). if ok then (ok, s) else cb a k s) (True, s) xs = (True, s)" for s xs
    by (induction xs) auto
  show ?thesis
    by (induction cs arbitrary: s)
      (auto simp: search_Nil search_Cons List.map_filter_def stop split: option.splits prod.splits bool.splits)
qed

text \<open>
  When the callback's answer does not depend on its state: the keys are offered in order, up
  to and including the first that is accepted.
\<close>

lemma search_trace:
  assumes "\<And>a k s. cb a k s = (acc (a, k), logs (a, k) s)"
  shows "search cs cb s =
    (let ks = List.map_filter offer cs;
         tried = takeWhile (\<lambda>x. \<not> acc x) ks
     in if list_ex acc ks then (Inr found, fold logs (tried @ [ks ! length tried]) s)
        else (Inl failure, fold logs ks s))"
proof (induction cs arbitrary: s)
  case Nil
  then show ?case by (simp add: search_Nil List.map_filter_def)
next
  case (Cons c cs)
  then show ?case
    by (cases "offer c") (auto simp: search_Cons assms List.map_filter_def Let_def split: prod.splits bool.splits)
qed

text \<open>When some candidate offers a key that is accepted, the search ends with an accepted key.\<close>

lemma search_accepts:
  assumes "c \<in> set cs" and "offer c = Some (a, k)" and "\<And>u. fst (cb a k u)"
  shows "\<exists>a' k' u s'. cb a' k' u = (True, s') \<and> search cs cb s = (Inr found, s')"
  using assms(1)
proof (induction cs arbitrary: s)
  case (Cons d cs)
  show ?case
  proof (cases "offer d")
    case None
    then show ?thesis using Cons assms(2) by (auto simp: search_Cons)
  next
    case (Some ak)
    obtain b s' where "cb (fst ak) (snd ak) s = (b, s')" by fastforce
    then show ?thesis
      using Cons Some assms(2) assms(3) [of s] by (cases ak; cases b) (auto simp: search_Cons)
  qed
qed simp

lemma search_no_offer: "List.map_filter offer cs = [] \<Longrightarrow> search cs cb s = (Inl failure, s)"
  by (simp add: search_offers)

end

lemma fold_snoc: "fold (\<lambda>x tr. tr @ [x]) xs ys = ys @ xs"
  by (induction xs arbitrary: ys) auto

section \<open>An instance\<close>

text \<open>
  A small instance of the writers and the decryptor, for concrete runs: the cipher is XOR with a
  session key of one byte. The writers keep the vector and that byte.
\<close>

definition algo_code :: "SymmetricAlgorithm \<Rightarrow> u8 lib_result" where
  "algo_code a = (case a of AES128 \<Rightarrow> Inr 7 | AES192 \<Rightarrow> Inr 8 | AES256 \<Rightarrow> Inr 9 | Sym_Blowfish \<Rightarrow> Inr 4
     | TripleDES \<Rightarrow> Inr 2 | CAST5 \<Rightarrow> Inr 3 | Sym_Other n \<Rightarrow> Inl ''unsupported'')"

definition code_algo :: "u8 \<Rightarrow> SymmetricAlgorithm" where
  "code_algo n = (if n = 7 then AES128 else if n = 8 then AES192 else if n = 9 then AES256
     else if n = 4 then Sym_Blowfish else if n = 2 then TripleDES else if n = 3 then CAST5 else Sym_Other n)"

lemma code_algo_code: "algo_code a = Inr n \<Longrightarrow> code_algo n = a"
  by (auto simp: algo_code_def code_algo_def split: SymmetricAlgorithm.splits)

definition toy_format :: "u8 \<Rightarrow> DataFormat" where
  "toy_format n = (if n = 1 then Format_Binary else if n = 2 then Format_Text else if n = 3 then Format_Unicode
     else Format_Other n)"

definition toy_writer_literal :: "bytes \<times> u8 \<Rightarrow> DataFormat \<Rightarrow> ('w, bytes \<times> u8) lib_io" where
  "toy_writer_literal = (\<lambda>(m, k) f. io_pure (if format_code f = 0 then Inl ''format'' else Inr (m @ [format_code f], k)))"

definition toy_writer :: "(bytes \<times> u8, bytes \<times> u8, nat) message_writer" where
  "toy_writer = \<lparr> message_new = ([], 0), encryptor_build = (\<lambda>e. io_pure (Inr e)),
     compression_level_new = (\<lambda>l. if l \<le> 9 then Inr l else Inl ''level''), compressor = (\<lambda>m a l. io_pure (Inr m)),
     literal_writer = toy_writer_literal,
     write_all = (\<lambda>(m, k) d. io_pure (Inr (m @ map (\<lambda>b. xor b k) d, k))),
     finalize = (\<lambda>(m, k). io_pure (Inr m)) \<rparr>"

text \<open>A parsed message: its session key packets, cipher, session key, format and body.\<close>

type_synonym ('pkesk, 'skesk) toy_message =
  "'pkesk list \<times> 'skesk list \<times> SymmetricAlgorithm \<times> u8 \<times> DataFormat \<times> bytes"

definition toy_with_policy ::
  "('pkesk, 'skesk) toy_message \<Rightarrow> ('pkesk, 'skesk, u8, 'cert, unit, unit, unit) helper \<Rightarrow> (u8, bytes) lib_io" where
  "toy_with_policy = (\<lambda>(pkesks, skesks, algo, k, fmt, body) h.
    io_then (io_pure (fst (helper_decrypt h pkesks skesks None (\<lambda>a key s. (a = Some algo \<and> key = k, s)) ())))
      (\<lambda>_. io_then (inspect h (Packet_Literal fmt)) (\<lambda>_. io_pure (Inr body))))"

definition toy_decryptor ::
  "(bytes \<Rightarrow> ('pkesk, 'skesk) toy_message lib_result) \<Rightarrow>
    ('pkesk, 'skesk, u8, 'cert, unit, unit, unit, ('pkesk, 'skesk) toy_message, bytes) decryptor_lib" where
  "toy_decryptor parse = \<lparr> decryptor_from_bytes = parse, with_policy = toy_with_policy,
     read_to_end = (\<lambda>d. io_pure (Inr d)), invalid_operation = (\<lambda>e. ''Invalid operation: '' @ e) \<rparr>"

lemma toy_format_code: "format_code f \<noteq> 0 \<Longrightarrow> toy_format (format_code f) = f"
  by (cases f) (simp_all add: format_code_def toy_format_def LITERAL_BINARY_def LITERAL_TEXT_def
      LITERAL_UNICODE_def LITERAL_UNKNOWN_def)

lemma toy_reads_as:
  fixes parse :: "bytes \<Rightarrow> ('pkesk, 'skesk) toy_message lib_result"
  assumes "parse out = Inr (pkesks, skesks, algo, key, fmt, body)"
  shows "reads_as (toy_decryptor parse :: ('pkesk, 'skesk, u8, 'cert, unit, unit, unit, ('pkesk, 'skesk) toy_message, bytes) decryptor_lib)
    out pkesks skesks algo key fmt body"
proof -
  have "\<exists>d c' packets. toy_with_policy (pkesks, skesks, algo, key, fmt, body) h c = (Inr d, c') \<and>
      filter is_literal packets = [Packet_Literal fmt] \<and>
      io_pure (Inr d) c' = (Inr body, fold (\<lambda>pp c. snd (inspect h pp c)) packets c)"
    if h: "serves h pkesks skesks algo key" for h :: "('pkesk, 'skesk, u8, 'cert, unit, unit, unit) helper" and c
  proof -
    let ?cb = "\<lambda>a k s. (a = Some algo \<and> k = key, s)"
    obtain cert where cert: "helper_decrypt h pkesks skesks None ?cb () = (Inr cert, ())"
      using serves_decrypt [OF h, of None ?cb "()"] by (auto simp: message_hint_def)
    have "is_ok (fst (inspect h (Packet_Literal fmt) c))" using h by (simp add: serves_def)
    then obtain c' where c': "inspect h (Packet_Literal fmt) c = (Inr (), c')"
      by (cases "inspect h (Packet_Literal fmt) c") (auto simp: is_ok_iff)
    have "toy_with_policy (pkesks, skesks, algo, key, fmt, body) h c = (Inr body, c')"
      using cert c' by (simp add: toy_with_policy_def io_run)
    then show ?thesis
      using c' by (intro exI [of _ body] exI [of _ c'] exI [of _ "[Packet_Literal fmt]"]) (simp add: io_pure_def)
  qed
  then show ?thesis
    using assms unfolding reads_as_def toy_decryptor_def by simp blast
qed

lemma toy_needs_key:
  fixes parse :: "bytes \<Rightarrow> ('pkesk, 'skesk) toy_message lib_result"
  assumes "parse out = Inr (pkesks, skesks, rest)"
  shows "needs_key (toy_decryptor parse :: ('pkesk, 'skesk, u8, 'cert, unit, unit, unit, ('pkesk, 'skesk) toy_message, bytes) decryptor_lib)
    out pkesks skesks"
  unfolding needs_key_def
  by (rule exI [of _ "(pkesks, skesks, rest)"])
    (cases rest, simp add: assms toy_decryptor_def toy_with_policy_def io_run)

lemmas toy_run = toy_writer_def toy_writer_literal_def algo_code_def io_run default_options_def
  write_payload_eq literal_message_def literal_compression_def literal_format_of_def literal_body_def
  crlf_encode_def format_code_def LITERAL_TEXT_def LITERAL_BINARY_def LITERAL_UNICODE_def
  as_bytes_def byte_of_char_def ccode_def

end
