(* ===== verification/Pgp_Sym.thy ===== *)
theory Pgp_Sym
  imports Pgp_Session
begin

text \<open>
  Model of password-based encryption in \<open>src/src/pgp.rs\<close>: \<open>default_s2k_count\<close>, \<open>make_s2k\<close>,
  \<open>sym_encrypt\<close>, \<open>PasswordHelper\<close>, \<open>sym_decrypt\<close> and the four \<open>pgp_sym_*\<close> functions. Sequoia's
  cryptography is the parameter \<open>sym_crypto\<close>; what the code relies on is \<open>sym_conform\<close>.
\<close>

section \<open>Parameters\<close>

text \<open>The S2K specifiers the sources build.\<close>

datatype S2K =
    S2K_Simple HashAlgorithm
  | S2K_Salted HashAlgorithm bytes
  | S2K_Iterated HashAlgorithm bytes u32

text \<open>
  \<open>crypto_random\<close> is \<open>openpgp::crypto::random\<close>, which fills a buffer; the \<open>skesk_*\<close> functions
  are those of \<open>SKESK4\<close> and \<open>SKESK\<close>. A \<open>Password\<close> is the text it was made from.
\<close>

record ('m, 'enc, 'w, 'sess, 'skesk) sym_crypto = "('m, 'enc, 'w) message_writer" +
  crypto_random :: "bytes \<Rightarrow> ('w, bytes) lib_io"
  new_iterated :: "HashAlgorithm \<Rightarrow> u32 \<Rightarrow> ('w, S2K) lib_io"
  key_size :: "SymmetricAlgorithm \<Rightarrow> nat lib_result"
  session_key_new :: "nat \<Rightarrow> ('w, 'sess) lib_io"
  derive_key :: "S2K \<Rightarrow> string \<Rightarrow> nat \<Rightarrow> 'sess lib_result"
  skesk_with_password ::
    "SymmetricAlgorithm \<Rightarrow> SymmetricAlgorithm \<Rightarrow> S2K \<Rightarrow> 'sess \<Rightarrow> string \<Rightarrow> ('w, 'skesk) lib_io"
  skesk_new :: "SymmetricAlgorithm \<Rightarrow> S2K \<Rightarrow> bytes option \<Rightarrow> 'skesk lib_result"
  serialize_skesk :: "'skesk \<Rightarrow> 'm \<Rightarrow> ('w, 'm) lib_io"
  with_session_key :: "'m \<Rightarrow> SymmetricAlgorithm \<Rightarrow> 'sess \<Rightarrow> 'enc lib_result"
  skesk_decrypt :: "'skesk \<Rightarrow> string \<Rightarrow> (SymmetricAlgorithm option \<times> 'sess) lib_result"

section \<open>String-to-key specifiers\<close>

definition from_le_bytes :: "bytes \<Rightarrow> u32" where
  "from_le_bytes bs = of_nat (foldr (\<lambda>b n. unat b + 256 * n) bs 0)"

definition S2K_MIN :: u32 where "S2K_MIN = 65536"
definition S2K_MAX :: u32 where "S2K_MAX = 253952"

definition default_s2k_count :: "('m, 'enc, 'w, 'sess, 'skesk, 'z) sym_crypto_scheme \<Rightarrow> ('w, u32) lib_io" where
  "default_s2k_count L =
    io_then (crypto_random L (replicate 4 0)) (\<lambda>random.
      io_pure (Inr (S2K_MIN + from_le_bytes random mod (S2K_MAX - S2K_MIN + 1))))"

text \<open>
  \<open>make_s2k\<close> fails with a library error, or panics at \<open>unreachable!\<close>; so it has the type of a
  SQL function whose errors are library errors, with the panic on the outside.
\<close>

definition make_s2k ::
  "('m, 'enc, 'w, 'sess, 'skesk, 'z) sym_crypto_scheme \<Rightarrow> PgpOptions \<Rightarrow> ('w, S2K) lib_io result" where
  "make_s2k L options =
    (if s2k_mode options = 0 then Inr (io_pure (Inr (S2K_Simple (s2k_digest options))))
     else if s2k_mode options = 1 then
       Inr (io_then (crypto_random L (replicate 8 0)) (\<lambda>salt. io_pure (Inr (S2K_Salted (s2k_digest options) salt))))
     else if s2k_mode options = 3 then
       Inr (io_then (case s2k_count options of None \<Rightarrow> default_s2k_count L | Some count \<Rightarrow> io_pure (Inr count))
         (\<lambda>count. new_iterated L (s2k_digest options) count))
     else panic ''validated S2K mode'')"

section \<open>Encryption\<close>

definition sym_session_key ::
  "('m, 'enc, 'w, 'sess, 'skesk, 'z) sym_crypto_scheme \<Rightarrow> PgpOptions \<Rightarrow> S2K \<Rightarrow> string \<Rightarrow> ('w, 'sess) io" where
  "sym_session_key L options s2k password =
    (if use_session_key options then
       io_then (io_pure (unwrap_or_else (key_size L (cipher_algo options)) (pgp_error ''unsupported OpenPGP cipher'')))
         (\<lambda>size. io_unwrap_or_else (session_key_new L size) (pgp_error ''could not generate OpenPGP session key''))
     else
       io_then (io_pure (unwrap_or_else (key_size L (cipher_algo options)) (pgp_error ''unsupported OpenPGP cipher'')))
         (\<lambda>size. io_pure (unwrap_or_else (derive_key L s2k password size) (pgp_error ''OpenPGP S2K derivation failed''))))"

definition sym_skesk ::
  "('m, 'enc, 'w, 'sess, 'skesk, 'z) sym_crypto_scheme \<Rightarrow> PgpOptions \<Rightarrow> SymmetricAlgorithm \<Rightarrow> S2K \<Rightarrow> 'sess \<Rightarrow>
    string \<Rightarrow> ('w, 'skesk) io" where
  "sym_skesk L options kek s2k session_key password =
    (if use_session_key options then
       io_unwrap_or_else (skesk_with_password L (cipher_algo options) kek s2k session_key password)
         (pgp_error ''could not create OpenPGP session key packet'')
     else io_pure (unwrap_or_else (skesk_new L kek s2k None) (pgp_error ''could not create OpenPGP S2K packet'')))"

definition sym_encrypt ::
  "('m, 'enc, 'w, 'sess, 'skesk, 'z) sym_crypto_scheme \<Rightarrow> bytes \<Rightarrow> string \<Rightarrow> string \<Rightarrow> bool \<Rightarrow> ('w, bytes) io" where
  "sym_encrypt L data password options text =
    io_then (io_pure (parse_options options text)) (\<lambda>options.
    io_then (io_pure (make_s2k L options)) (\<lambda>make.
    io_then (io_unwrap_or_else make (pgp_error ''could not initialize OpenPGP S2K'')) (\<lambda>s2k.
    let kek = (case s2k_cipher options of Some c \<Rightarrow> c | None \<Rightarrow> cipher_algo options) in
    if \<not> use_session_key options \<and> kek \<noteq> cipher_algo options
    then io_pure (raise_error ''s2k-cipher-algo requires sess-key=1 when it differs from cipher-algo'')
    else
    io_then (sym_session_key L options s2k password) (\<lambda>session_key.
    io_then (sym_skesk L options kek s2k session_key password) (\<lambda>skesk.
    io_then (io_unwrap_or_else (serialize_skesk L skesk (message_new L))
        (pgp_error ''could not serialize OpenPGP S2K packet'')) (\<lambda>message.
    io_then (io_unwrap_or_else
        (io_then (io_pure (with_session_key L message (cipher_algo options) session_key)) (encryptor_build L))
        (pgp_error ''could not initialize OpenPGP encryption'')) (\<lambda>message.
    io_unwrap_or_else (write_payload L message data options) (pgp_error ''OpenPGP encryption failed''))))))))"

section \<open>Decryption\<close>

record PasswordHelper =
  ph_password :: string

fun password_helper_decrypt ::
  "('m, 'enc, 'w, 'sess, 'skesk, 'z) sym_crypto_scheme \<Rightarrow> (string \<Rightarrow> string) \<Rightarrow> PasswordHelper \<Rightarrow> 'skesk list \<Rightarrow>
    ('sess, 'cb) decrypt_callback \<Rightarrow> ('cb, 'cert option) lib_io" where
  "password_helper_decrypt L err self [] decrypt s =
    (Inl (err ''incorrect password or no symmetric session key''), s)"
| "password_helper_decrypt L err self (skesk # skesks) decrypt s =
    (case skesk_decrypt L skesk (ph_password self) of
       Inl _ \<Rightarrow> password_helper_decrypt L err self skesks decrypt s
     | Inr (algorithm, key) \<Rightarrow>
        (case decrypt algorithm key s of
           (True, s') \<Rightarrow> (Inr None, s')
         | (False, s') \<Rightarrow> password_helper_decrypt L err self skesks decrypt s'))"

definition password_helper ::
  "('m, 'enc, 'w, 'sess, 'skesk, 'z) sym_crypto_scheme \<Rightarrow> (string \<Rightarrow> string) \<Rightarrow> PasswordHelper \<Rightarrow>
    ('pkesk, 'skesk, 'sess, 'cert, 'handle, 'structure, 'cb) helper" where
  "password_helper L err self = \<lparr> inspect = helper_inspect, get_certs = helper_get_certs, check = helper_check,
     helper_decrypt = (\<lambda>pkesks skesks sym_algo decrypt. password_helper_decrypt L err self skesks decrypt) \<rparr>"

definition sym_decrypt ::
  "('m, 'enc, 'w, 'sess, 'skesk, 'z) sym_crypto_scheme \<Rightarrow>
    ('pkesk, 'skesk, 'sess, 'cert, 'handle, 'structure, 'cb, 'b, 'd, 'y) decryptor_lib_scheme \<Rightarrow>
    bytes \<Rightarrow> string \<Rightarrow> (bytes \<times> u8) result" where
  "sym_decrypt L D data password =
    run_decryptor D ''OpenPGP decryption failed''
      (password_helper L (invalid_operation D) \<lparr>ph_password = password\<rparr>) data"

section \<open>SQL functions\<close>

definition pgp_sym_encrypt where
  "pgp_sym_encrypt L data password options = sym_encrypt L (as_bytes data) password options True"

definition pgp_sym_encrypt_bytea where
  "pgp_sym_encrypt_bytea L data password options = sym_encrypt L data password options False"

definition pgp_sym_decrypt where
  "pgp_sym_decrypt L D data password options =
    and_then (parse_decrypt_options options) (\<lambda>options.
    and_then (sym_decrypt L D data password) (\<lambda>(data, format).
    decrypted_text data format options))"

definition pgp_sym_decrypt_bytea where
  "pgp_sym_decrypt_bytea L D data password options =
    and_then (parse_decrypt_options options) (\<lambda>_.
    and_then (sym_decrypt L D data password) (\<lambda>(data, format). Inr data))"

section \<open>What Sequoia promises\<close>

text \<open>
  A session key packet made with a password gives cipher and session key back for that
  password; one made without a session key gives its cipher and the key derived for its size; and a
  message written after a session key packet reads as that message.
\<close>

definition skesk_conform :: "('m, 'enc, 'w, 'sess, 'skesk, 'z) sym_crypto_scheme \<Rightarrow> bool" where
  "skesk_conform L \<longleftrightarrow>
    (\<forall>algo kek s2k key pw w skesk w'. skesk_with_password L algo kek s2k key pw w = (Inr skesk, w') \<longrightarrow>
      skesk_decrypt L skesk pw = Inr (Some algo, key)) \<and>
    (\<forall>algo s2k pw size key skesk. skesk_new L algo s2k None = Inr skesk \<longrightarrow> key_size L algo = Inr size \<longrightarrow>
      derive_key L s2k pw size = Inr key \<longrightarrow> skesk_decrypt L skesk pw = Inr (Some algo, key))"

definition sym_message_conform ::
  "('m, 'enc, 'w, 'sess, 'skesk, 'z) sym_crypto_scheme \<Rightarrow>
    ('pkesk, 'skesk, 'sess, 'cert, 'handle, 'structure, 'cb, 'b, 'd, 'y) decryptor_lib_scheme \<Rightarrow> bool" where
  "sym_message_conform L D \<longleftrightarrow>
    (\<forall>skesk algo key compr fmt body w w1 w2 w3 m1 enc m2 out.
      serialize_skesk L skesk (message_new L) w = (Inr m1, w1) \<longrightarrow>
      with_session_key L m1 algo key = Inr enc \<longrightarrow>
      encryptor_build L enc w1 = (Inr m2, w2) \<longrightarrow>
      literal_message L m2 compr fmt body w2 = (Inr out, w3) \<longrightarrow>
      reads_as D out [] [skesk] algo key fmt body)"


section \<open>Lemmas\<close>

interpretation password_search: key_search "password_helper_decrypt L err self"
  "\<lambda>skesk. case skesk_decrypt L skesk (ph_password self) of Inl _ \<Rightarrow> None | Inr x \<Rightarrow> Some x" None
  "err ''incorrect password or no symmetric session key''"
  by unfold_locales (auto split: sum.splits)

lemma password_helper_serves:
  fixes key :: 'sess
  assumes "skesk_decrypt L skesk pw = Inr (Some algo, key)"
  shows "serves (password_helper L err \<lparr>ph_password = pw\<rparr> ::
    ('pkesk, 'skesk, 'sess, 'cert, 'handle, 'structure, 'cb) helper) [] [skesk] algo key"
proof (rule servesI)
  fix hint and cb :: "('sess, 'cb) decrypt_callback" and s
  assume "\<And>u. fst (cb (Some algo) key u)"
  then have "\<exists>a k u s'. cb a k u = (True, s') \<and>
      password_helper_decrypt L err \<lparr>ph_password = pw\<rparr> [skesk] cb s = (Inr None, s')"
    by (intro password_search.search_accepts [of skesk _ _ _ "Some algo" key]) (simp_all add: assms)
  then show "\<exists>cert a k u s'. cb a k u = (True, s') \<and>
      helper_decrypt (password_helper L err \<lparr>ph_password = pw\<rparr> ::
        ('pkesk, 'skesk, 'sess, 'cert, 'handle, 'structure, 'cb) helper) [] [skesk] hint cb s = (Inr cert, s')"
    by - (rule exI [of _ None], simp add: password_helper_def del: password_helper_decrypt.simps)
qed (simp_all add: password_helper_def)

text \<open>The packet \<open>sym_encrypt\<close> writes opens with the password, to the key it encrypted with.\<close>

lemma sym_skesk_opens:
  assumes "skesk_conform L"
    and "sym_session_key L p s2k pw w = (Inr key, w1)" and "sym_skesk L p kek s2k key pw w2 = (Inr skesk, w3)"
    and "use_session_key p \<or> kek = cipher_algo p"
  shows "skesk_decrypt L skesk pw = Inr (Some (cipher_algo p), key)"
  using assms
  by (auto simp: skesk_conform_def sym_session_key_def sym_skesk_def io_then_eq_Inr io_unwrap_eq_Inr
      io_pure_eq unwrap_or_else_eq_Inr split: if_splits, blast)

lemma sym_encrypt_reads:
  assumes "skesk_conform L" and "sym_message_conform L D"
    and "sym_encrypt L data pw options t w = (Inr out, w')"
  obtains p where "parse_options options t = Inr p"
    and "sym_decrypt L D out pw = Inr (literal_body p data, format_code (literal_format_of p))"
proof -
  obtain p where p: "parse_options options t = Inr p"
    using assms(3) by (auto simp: sym_encrypt_def io_then_eq_Inr io_pure_eq)
  define kek where "kek = (case s2k_cipher p of Some c \<Rightarrow> c | None \<Rightarrow> cipher_algo p)"
  have kek: "use_session_key p \<or> kek = cipher_algo p"
    by (rule ccontr) (use assms(3) p in \<open>auto simp: sym_encrypt_def Let_def io_then_eq_Inr io_pure_eq kek_def\<close>)
  obtain s2k key skesk m1 enc m2 w1 w2 w3 w4 w5 w6
    where key: "sym_session_key L p s2k pw w1 = (Inr key, w2)"
    and skesk: "sym_skesk L p kek s2k key pw w2 = (Inr skesk, w3)"
    and msg: "serialize_skesk L skesk (message_new L) w3 = (Inr m1, w4)"
      "with_session_key L m1 (cipher_algo p) key = Inr enc"
      "encryptor_build L enc w4 = (Inr m2, w5)"
      "write_payload L m2 data p w5 = (Inr out, w6)"
    using assms(3) p
    by (auto simp: sym_encrypt_def Let_def io_then_eq_Inr io_unwrap_eq_Inr io_pure_eq kek_def [symmetric] split: if_split_asm)
  have "skesk_decrypt L skesk pw = Inr (Some (cipher_algo p), key)"
    using assms(1) key skesk kek by (rule sym_skesk_opens)
  then have "serves (password_helper L (invalid_operation D) \<lparr>ph_password = pw\<rparr>) [] [skesk] (cipher_algo p) key"
    by (rule password_helper_serves)
  moreover have "reads_as D out [] [skesk] (cipher_algo p) key (literal_format_of p) (literal_body p data)"
    using assms(2) msg unfolding sym_message_conform_def write_payload_eq by blast
  ultimately have "sym_decrypt L D out pw = Inr (literal_body p data, format_code (literal_format_of p))"
    unfolding sym_decrypt_def by (intro run_decryptor_reads) (simp_all add: password_helper_def)
  with p show thesis by (rule that)
qed


lemma sym_encrypt_no_panic: "no_panic (fst (sym_encrypt L data pw options t w))"
proof -
  have mode: "no_panic (make_s2k L p)" if "parse_options options t = Inr p" for p
    using that parse_options_ok [OF that] by (auto simp: make_s2k_def options_ok_def)
  show ?thesis
    unfolding sym_encrypt_def sym_session_key_def sym_skesk_def Let_def
    by (intro no_panics) (auto simp: io_pure_eq intro: mode intro!: no_panics)
qed


lemma default_count_range:
  "unat (S2K_MIN + x mod (S2K_MAX - S2K_MIN + 1)) = 65536 + unat x mod 188417"
proof -
  have m: "unat (x mod 188417) = unat x mod 188417" by (simp add: unat_mod)
  have "unat x mod 188417 < 188417" by simp
  then have "unat (65536 + x mod 188417 :: u32) = 65536 + unat (x mod 188417)"
    by (subst unat_add_lem [THEN iffD1]) (simp_all add: m)
  then show ?thesis by (simp add: S2K_MIN_def S2K_MAX_def m)
qed

section \<open>An instance\<close>

text \<open>
  The instance of \<open>Pgp_Session\<close> with passwords: a session key is the sum of the password's bytes
  or a drawn byte. A message is the session key packet in three bytes, the cipher, the key, the
  format and the encrypted body.
\<close>

definition toy_hash :: "string \<Rightarrow> u8" where
  "toy_hash pw = sum_list (as_bytes pw)"

type_synonym toy_skesk = "SymmetricAlgorithm \<times> u8 option"

definition toy_serialize :: "toy_skesk \<Rightarrow> bytes \<Rightarrow> ('w, bytes) lib_io" where
  "toy_serialize = (\<lambda>(a, e) m. io_pure (and_then (algo_code a) (\<lambda>n.
     Inr (m @ (case e of None \<Rightarrow> [n, 0, 0] | Some x \<Rightarrow> [n, 1, x])))))"

definition toy_crypto :: "(bytes \<times> u8, bytes \<times> u8, nat, u8, toy_skesk) sym_crypto" where
  "toy_crypto = \<lparr> message_new = message_new toy_writer, encryptor_build = encryptor_build toy_writer,
     compression_level_new = compression_level_new toy_writer, compressor = compressor toy_writer,
     literal_writer = literal_writer toy_writer, write_all = write_all toy_writer, finalize = finalize toy_writer,
     crypto_random = (\<lambda>buf w. (Inr (map (\<lambda>i. of_nat (w + i)) [0 ..< length buf]), w + length buf)),
     new_iterated = (\<lambda>h c. io_pure (Inr (S2K_Iterated h [] c))),
     key_size = (\<lambda>a. Inr 16),
     session_key_new = (\<lambda>n w. (Inr (of_nat w), w + 1)),
     derive_key = (\<lambda>s2k pw n. Inr (toy_hash pw)),
     skesk_with_password = (\<lambda>a kek s2k k pw. io_pure (Inr (a, Some (xor k (toy_hash pw))))),
     skesk_new = (\<lambda>a s2k esk. Inr (a, None)),
     serialize_skesk = (\<lambda>skesk (m, k). io_then (toy_serialize skesk m) (\<lambda>m. io_pure (Inr (m, k)))),
     with_session_key = (\<lambda>(m, k) a key. and_then (algo_code a) (\<lambda>n. Inr (m @ [n, key], key))),
     skesk_decrypt = (\<lambda>(a, e) pw. Inr (Some a, case e of None \<Rightarrow> toy_hash pw | Some x \<Rightarrow> xor x (toy_hash pw))) \<rparr>"

fun toy_parse :: "bytes \<Rightarrow> (unit, toy_skesk) toy_message lib_result" where
  "toy_parse (a # f # e # n # k # fmt # body) =
    Inr ([], [(code_algo a, if f = 0 then None else Some e)], code_algo n, k, toy_format fmt, map (\<lambda>b. xor b k) body)"
| "toy_parse _ = Inl ''malformed''"

lemma toy_skesk_conform: "skesk_conform toy_crypto"
  by (auto simp: skesk_conform_def toy_crypto_def io_pure_def xor.assoc)


lemma toy_message_conform: "sym_message_conform toy_crypto (toy_decryptor toy_parse)"
proof -
  have "toy_parse out = Inr ([], [skesk], algo, key, fmt, body)"
    if "serialize_skesk toy_crypto skesk (message_new toy_crypto) w = (Inr m1, w1)"
      and "with_session_key toy_crypto m1 algo key = Inr enc"
      and "encryptor_build toy_crypto enc w1 = (Inr m2, w2)"
      and "literal_message toy_crypto m2 compr fmt body w2 = (Inr out, w3)"
    for skesk algo key compr fmt body w w1 w2 w3 m1 enc m2 out
    using that
    by (cases skesk; cases m2)
      (auto simp: toy_crypto_def toy_serialize_def literal_message_def toy_writer_literal_def toy_writer_def io_then_eq_Inr io_pure_eq
        and_then_eq_Inr code_algo_code toy_format_code comp_def xor.assoc
        split: option.splits if_splits prod.splits)
  then show ?thesis unfolding sym_message_conform_def by (blast intro: toy_reads_as)
qed

lemma parse_example:
  "parse_options ''convert-crlf=1, sess-key=1'' t =
    Inr (default_options\<lparr>text_input := t, convert_crlf := True, use_session_key := True\<rparr>)"
proof -
  have "option_items ''convert-crlf=1, sess-key=1'' = [''convert-crlf=1'', ''sess-key=1'']"
    by (simp add: option_items_def name_eval)
  moreover have "item_setting ''convert-crlf=1'' = Inr (Set_crlf True)"
    by (simp add: item_setting_def parse_value_defs name_eval)
  moreover have "item_setting ''sess-key=1'' = Inr (Set_session_key True)"
    by (simp add: item_setting_def parse_value_defs name_eval)
  ultimately show ?thesis
    by (simp add: parse_options_eq_Inr encrypt_option_setting default_options_def)
qed

lemmas toy_sym_run = toy_run toy_crypto_def toy_serialize_def toy_hash_def make_s2k_def default_s2k_count_def
  sym_session_key_def sym_skesk_def

section \<open>Properties\<close>

text \<open>
  C1. Encrypting text with a password and decrypting it with the same password and the same
  option string gives the text back, for every option string that encrypts, with or without
  a separate session key, compression, CRLF conversion or Unicode mode. It rests on the
  guard that refuses a different S2K cipher when there is no session key.
\<close>

theorem pgp_sym_round_trip:
  assumes "skesk_conform L" and "sym_message_conform L D"
    and "utf8_ok (as_bytes s)" and "0 \<notin> set (as_bytes s)"
    and "pgp_sym_encrypt L s password options w = (Inr out, w')"
  shows "pgp_sym_decrypt L D out password options = Inr s"
proof -
  obtain p where p: "parse_options options True = Inr p"
    and out: "sym_decrypt L D out password =
      Inr (literal_body p (as_bytes s), format_code (literal_format_of p))"
    using sym_encrypt_reads [OF assms(1,2)] assms(5) unfolding pgp_sym_encrypt_def by metis
  have "text_input p" using parse_options_ok [OF p] by simp
  then show ?thesis
    using out text_survives assms(3,4) parse_decrypt_options_eq [OF p]
    by (simp add: pgp_sym_decrypt_def)
qed

theorem pgp_sym_round_trip_witness:
  "pgp_sym_encrypt toy_crypto [CHR ''a'', CHR 0x0A] ''pw'' ''convert-crlf=1, sess-key=1'' 5 =
     (Inr [7, 1, 238, 7, 9, 2, 104, 4, 3], 10) \<and>
   pgp_sym_decrypt toy_crypto (toy_decryptor toy_parse) [7, 1, 238, 7, 9, 2, 104, 4, 3] ''pw'' ''convert-crlf=1, sess-key=1'' =
     Inr [CHR ''a'', CHR 0x0A]"
proof -
  have run: "pgp_sym_encrypt toy_crypto [CHR ''a'', CHR 0x0A] ''pw'' ''convert-crlf=1, sess-key=1'' 5 =
     (Inr [7, 1, 238, 7, 9, 2, 104, 4, 3], 10)"
    by (simp add: pgp_sym_encrypt_def sym_encrypt_def parse_example toy_sym_run)
  moreover have "utf8_ok (as_bytes [CHR ''a'', CHR 0x0A])" and "0 \<notin> set (as_bytes [CHR ''a'', CHR 0x0A])"
    by (simp_all add: as_bytes_def byte_of_char_def ccode_def utf8_ok.simps)
  ultimately show ?thesis
    using pgp_sym_round_trip [OF toy_skesk_conform toy_message_conform] by blast
qed

text \<open>
  C8. Binary data survives as well, byte for byte under every option string, and a binary
  message is refused by the function that returns text.
\<close>

theorem pgp_sym_bytea_round_trip:
  assumes "skesk_conform L" and "sym_message_conform L D"
    and "pgp_sym_encrypt_bytea L data password options w = (Inr out, w')"
  shows "pgp_sym_decrypt_bytea L D out password options = Inr data \<and>
    pgp_sym_decrypt L D out password options = raise_error ''decrypted OpenPGP data is not text''"
proof -
  obtain p where p: "parse_options options False = Inr p"
    and out: "sym_decrypt L D out password = Inr (literal_body p data, format_code (literal_format_of p))"
    using sym_encrypt_reads [OF assms(1,2)] assms(3) unfolding pgp_sym_encrypt_bytea_def by metis
  have "\<not> text_input p" using parse_options_ok [OF p] by simp
  then show ?thesis
    using out parse_decrypt_options_eq [OF p]
    by (simp add: pgp_sym_decrypt_def pgp_sym_decrypt_bytea_def binary_is_no_text literal_body_def)
qed

theorem pgp_sym_bytea_round_trip_witness:
  "pgp_sym_encrypt_bytea toy_crypto [0, 10, 255] ''pw'' ''convert-crlf=1, sess-key=1'' 5 =
     (Inr [7, 1, 238, 7, 9, 1, 9, 3, 246], 10) \<and>
   pgp_sym_decrypt_bytea toy_crypto (toy_decryptor toy_parse) [7, 1, 238, 7, 9, 1, 9, 3, 246] ''pw''
     ''convert-crlf=1, sess-key=1'' = Inr [0, 10, 255]"
proof -
  have "pgp_sym_encrypt_bytea toy_crypto [0, 10, 255] ''pw'' ''convert-crlf=1, sess-key=1'' 5 =
     (Inr [7, 1, 238, 7, 9, 1, 9, 3, 246], 10)"
    by (simp add: pgp_sym_encrypt_bytea_def sym_encrypt_def parse_example toy_sym_run)
  then show ?thesis
    using pgp_sym_bytea_round_trip [OF toy_skesk_conform toy_message_conform] by blast
qed

text \<open>
  C23. The S2K count drawn when the options give none lies between 65536 and 253952, whatever
  bytes were drawn: the 32-bit sum does not wrap. So it is a count the option syntax would
  accept. The only error is that of the random number generator.
\<close>

theorem default_s2k_count_range:
  "(case default_s2k_count L w of
      (Inr c, w') \<Rightarrow> 65536 \<le> unat c \<and> unat c \<le> 253952 \<and> setting_ok (Set_count c)
    | (Inl e, w') \<Rightarrow> crypto_random L (replicate 4 0) w = (Inl e, w'))"
proof (cases "crypto_random L (replicate 4 0) w")
  case (Pair r w')
  have "unat (S2K_MIN + x mod (S2K_MAX - S2K_MIN + 1)) \<le> 253952" for x :: u32
    using mod_less_divisor [of 188417 "unat x"] by (simp add: default_count_range del: mod_less_divisor)
  then show ?thesis
    using Pair
    by (cases r) (auto simp: default_s2k_count_def io_run default_count_range word_le_nat_alt)
qed

text \<open>
  C16. The password helper offers session keys in the order of the packets that open under the
  password, stops at the first key the decryptor accepts, and reports a wrong password exactly
  when none is accepted.
\<close>

theorem password_helper_order:
  fixes acc :: "SymmetricAlgorithm option \<times> 'sess \<Rightarrow> bool"
    and skesks :: "'skesk list" and L :: "('m, 'enc, 'w, 'sess, 'skesk) sym_crypto"
  shows "password_helper_decrypt L err self skesks (\<lambda>a k tr. (acc (a, k), tr @ [(a, k)])) [] =
    (let ks = List.map_filter (\<lambda>skesk. case skesk_decrypt L skesk (ph_password self) of
            Inl _ \<Rightarrow> None | Inr x \<Rightarrow> Some x) skesks;
         tried = takeWhile (\<lambda>x. \<not> acc x) ks
     in if list_ex acc ks then (Inr None, tried @ [ks ! length tried])
        else (Inl (err ''incorrect password or no symmetric session key''), ks))"
  by (subst password_search.search_trace [where acc = acc and logs = "\<lambda>x tr. tr @ [x]"])
    (simp_all add: fold_snoc Let_def)

text \<open>
  C38. None of the four functions panics: the S2K modes that \<open>make_s2k\<close> calls unreachable are.
\<close>

theorem pgp_sym_no_panic:
  "no_panic (fst (pgp_sym_encrypt L s password options w)) \<and>
   no_panic (fst (pgp_sym_encrypt_bytea L data password options w)) \<and>
   no_panic (pgp_sym_decrypt L D data password options) \<and>
   no_panic (pgp_sym_decrypt_bytea L D data password options)"
  by (auto simp: pgp_sym_encrypt_def pgp_sym_encrypt_bytea_def pgp_sym_decrypt_def pgp_sym_decrypt_bytea_def
      sym_decrypt_def sym_encrypt_no_panic intro!: no_panics)



end
