(* ===== verification/Pgp_Pub.thy ===== *)
theory Pgp_Pub
  imports Pgp_Session
begin

text \<open>
  Model of public-key encryption in \<open>src/src/pgp.rs\<close>: \<open>pub_encrypt\<close>, \<open>KeyHelper\<close>,
  \<open>pub_decrypt\<close>, the four \<open>pgp_pub_*\<close> functions and \<open>pgp_key_id\<close>. Sequoia's certificates and
  public-key packets are the parameter \<open>pub_crypto\<close>.
\<close>

section \<open>Parameters\<close>

text \<open>
  \<open>cert_keys\<close> is \<open>cert.keys()\<close>; the predicates are the filters of the iterator under the null
  policy: a valid binding, a supported algorithm, alive, revoked, flagged for transport
  encryption. \<open>secret_keys\<close> is \<open>cert.keys().secret()\<close>. \<open>packet_pile\<close> is
  \<open>PacketPile::from_reader\<close> with its \<open>descendants()\<close>; the hexadecimal key identifiers are those
  of a key and of the recipient of a PKESK, if it names one.
\<close>

record ('m, 'enc, 'w, 'sess, 'pkesk, 'skesk, 'cert, 'key, 'pair) pub_crypto = "('m, 'enc, 'w) message_writer" +
  cert_from_bytes :: "bytes \<Rightarrow> 'cert lib_result"
  is_tsk :: "'cert \<Rightarrow> bool"
  cert_keys :: "'cert \<Rightarrow> 'key list"
  key_valid :: "'key \<Rightarrow> bool"
  key_supported :: "'key \<Rightarrow> bool"
  key_alive :: "'key \<Rightarrow> bool"
  key_revoked :: "'key \<Rightarrow> bool"
  key_for_transport_encryption :: "'key \<Rightarrow> bool"
  for_recipients :: "'m \<Rightarrow> 'key list \<Rightarrow> 'enc"
  symmetric_algo :: "'enc \<Rightarrow> SymmetricAlgorithm \<Rightarrow> 'enc"
  secret_keys :: "'cert \<Rightarrow> 'key list"
  is_encrypted :: "'key \<Rightarrow> bool"
  decrypt_secret :: "'key \<Rightarrow> string \<Rightarrow> 'key lib_result"
  into_keypair :: "'key \<Rightarrow> 'pair lib_result"
  pkesk_decrypt :: "'pkesk \<Rightarrow> 'pair \<Rightarrow> SymmetricAlgorithm option \<Rightarrow> (SymmetricAlgorithm option \<times> 'sess) option"
  keyid_hex :: "'key \<Rightarrow> string"
  recipient_hex :: "'pkesk \<Rightarrow> string option"
  packet_pile :: "bytes \<Rightarrow> ('pkesk, 'skesk) Packet list lib_result"

section \<open>Encryption\<close>

definition transport_keys ::
  "('m, 'enc, 'w, 'sess, 'pkesk, 'skesk, 'cert, 'key, 'pair, 'z) pub_crypto_scheme \<Rightarrow> 'cert \<Rightarrow> 'key list" where
  "transport_keys L cert =
    filter (key_for_transport_encryption L)
      (filter (\<lambda>k. \<not> key_revoked L k)
        (filter (key_alive L) (filter (key_supported L) (filter (key_valid L) (cert_keys L cert)))))"

definition pub_encrypt ::
  "('m, 'enc, 'w, 'sess, 'pkesk, 'skesk, 'cert, 'key, 'pair, 'z) pub_crypto_scheme \<Rightarrow> bytes \<Rightarrow> bytes \<Rightarrow> string \<Rightarrow>
    bool \<Rightarrow> ('w, bytes) io" where
  "pub_encrypt L data public_key options text =
    io_then (io_pure (parse_options options text)) (\<lambda>options.
    io_then (io_pure (unwrap_or_else (cert_from_bytes L public_key) (pgp_error ''invalid OpenPGP public key''))) (\<lambda>cert.
    if is_tsk L cert
    then io_pure (raise_error ''a secret OpenPGP key cannot be used for public-key encryption'')
    else
    let recipients = transport_keys L cert in
    io_then (io_unwrap_or_else
        (encryptor_build L (symmetric_algo L (for_recipients L (message_new L) recipients) (cipher_algo options)))
        (pgp_error ''no usable OpenPGP encryption key'')) (\<lambda>message.
    io_unwrap_or_else (write_payload L message data options) (pgp_error ''OpenPGP public-key encryption failed''))))"

section \<open>Decryption\<close>

record ('pair, 'cert) KeyHelper =
  kh_pairs :: "'pair list"
  kh_cert :: 'cert

text \<open>The two nested loops of \<open>KeyHelper::decrypt\<close>: the inner one over the key pairs.\<close>

fun try_pairs ::
  "('m, 'enc, 'w, 'sess, 'pkesk, 'skesk, 'cert, 'key, 'pair, 'z) pub_crypto_scheme \<Rightarrow> 'pkesk \<Rightarrow> 'pair list \<Rightarrow>
    SymmetricAlgorithm option \<Rightarrow> ('sess, 'cb) decrypt_callback \<Rightarrow> 'cb \<Rightarrow> bool \<times> 'cb" where
  "try_pairs L pkesk [] sym_algo decrypt s = (False, s)"
| "try_pairs L pkesk (pair # pairs) sym_algo decrypt s =
    (case pkesk_decrypt L pkesk pair sym_algo of
       None \<Rightarrow> try_pairs L pkesk pairs sym_algo decrypt s
     | Some (algorithm, key) \<Rightarrow>
        (case decrypt algorithm key s of
           (True, s') \<Rightarrow> (True, s')
         | (False, s') \<Rightarrow> try_pairs L pkesk pairs sym_algo decrypt s'))"

fun key_helper_decrypt ::
  "('m, 'enc, 'w, 'sess, 'pkesk, 'skesk, 'cert, 'key, 'pair, 'z) pub_crypto_scheme \<Rightarrow> (string \<Rightarrow> string) \<Rightarrow>
    ('pair, 'cert) KeyHelper \<Rightarrow> SymmetricAlgorithm option \<Rightarrow> 'pkesk list \<Rightarrow> ('sess, 'cb) decrypt_callback \<Rightarrow>
    ('cb, 'cert option) lib_io" where
  "key_helper_decrypt L err self sym_algo [] decrypt s =
    (Inl (err ''message was not encrypted for the supplied key''), s)"
| "key_helper_decrypt L err self sym_algo (pkesk # pkesks) decrypt s =
    (case try_pairs L pkesk (kh_pairs self) sym_algo decrypt s of
       (True, s') \<Rightarrow> (Inr (Some (kh_cert self)), s')
     | (False, s') \<Rightarrow> key_helper_decrypt L err self sym_algo pkesks decrypt s')"

definition key_helper ::
  "('m, 'enc, 'w, 'sess, 'pkesk, 'skesk, 'cert, 'key, 'pair, 'z) pub_crypto_scheme \<Rightarrow> (string \<Rightarrow> string) \<Rightarrow>
    ('pair, 'cert) KeyHelper \<Rightarrow> ('pkesk, 'skesk, 'sess, 'cert, 'handle, 'structure, 'cb) helper" where
  "key_helper L err self = \<lparr> inspect = helper_inspect, get_certs = helper_get_certs, check = helper_check,
     helper_decrypt = (\<lambda>pkesks skesks sym_algo decrypt. key_helper_decrypt L err self sym_algo pkesks decrypt) \<rparr>"

text \<open>
  The loop of \<open>pub_decrypt\<close> over the secret keys: an encrypted key that the password does not
  unlock is an error, a key that makes no key pair is skipped.
\<close>

fun unlock_keys ::
  "('m, 'enc, 'w, 'sess, 'pkesk, 'skesk, 'cert, 'key, 'pair, 'z) pub_crypto_scheme \<Rightarrow> string \<Rightarrow> 'key list \<Rightarrow>
    'pair list \<Rightarrow> 'pair list result" where
  "unlock_keys L password [] pairs = Inr pairs"
| "unlock_keys L password (ka # kas) pairs =
    and_then (if is_encrypted L ka
        then unwrap_or_else (decrypt_secret L ka password) (pgp_error ''could not unlock OpenPGP secret key'')
        else Inr ka)
      (\<lambda>key. unlock_keys L password kas
        (case into_keypair L key of Inr pair \<Rightarrow> pairs @ [pair] | Inl _ \<Rightarrow> pairs))"

definition pub_decrypt ::
  "('m, 'enc, 'w, 'sess, 'pkesk, 'skesk, 'cert, 'key, 'pair, 'z) pub_crypto_scheme \<Rightarrow>
    ('pkesk, 'skesk, 'sess, 'cert, 'handle, 'structure, 'cb, 'b, 'd, 'y) decryptor_lib_scheme \<Rightarrow>
    bytes \<Rightarrow> bytes \<Rightarrow> string \<Rightarrow> (bytes \<times> u8) result" where
  "pub_decrypt L D data secret_key password =
    and_then (unwrap_or_else (cert_from_bytes L secret_key) (pgp_error ''invalid OpenPGP secret key'')) (\<lambda>cert.
    and_then (unlock_keys L password (secret_keys L cert) []) (\<lambda>pairs.
    if pairs = [] then raise_error ''OpenPGP secret key contains no usable key material''
    else run_decryptor D ''OpenPGP public-key decryption failed''
      (key_helper L (invalid_operation D) \<lparr>kh_pairs = pairs, kh_cert = cert\<rparr>) data))"

section \<open>SQL functions\<close>

definition pgp_pub_encrypt where
  "pgp_pub_encrypt L data public_key options = pub_encrypt L (as_bytes data) public_key options True"

definition pgp_pub_encrypt_bytea where
  "pgp_pub_encrypt_bytea L data public_key options = pub_encrypt L data public_key options False"

definition pgp_pub_decrypt where
  "pgp_pub_decrypt L D data secret_key password options =
    and_then (parse_decrypt_options options) (\<lambda>options.
    and_then (pub_decrypt L D data secret_key password) (\<lambda>(data, format).
    decrypted_text data format options))"

definition pgp_pub_decrypt_bytea where
  "pgp_pub_decrypt_bytea L D data secret_key password options =
    and_then (parse_decrypt_options options) (\<lambda>_.
    and_then (pub_decrypt L D data secret_key password) (\<lambda>(data, format). Inr data))"

text \<open>The loop of \<open>pgp_key_id\<close> over the packets of a message.\<close>

fun session_packet_id ::
  "('m, 'enc, 'w, 'sess, 'pkesk, 'skesk, 'cert, 'key, 'pair, 'z) pub_crypto_scheme \<Rightarrow>
    ('pkesk, 'skesk) Packet list \<Rightarrow> string result" where
  "session_packet_id L [] = raise_error ''OpenPGP data contains no encrypted session key''"
| "session_packet_id L (packet # rest) = (case packet of
      Packet_PKESK pkesk \<Rightarrow> Inr (case recipient_hex L pkesk of None \<Rightarrow> ''ANYKEY'' | Some hex \<Rightarrow> hex)
    | Packet_SKESK _ \<Rightarrow> Inr ''SYMKEY''
    | _ \<Rightarrow> session_packet_id L rest)"

definition pgp_key_id ::
  "('m, 'enc, 'w, 'sess, 'pkesk, 'skesk, 'cert, 'key, 'pair, 'z) pub_crypto_scheme \<Rightarrow> bytes \<Rightarrow> string result" where
  "pgp_key_id L data = (case cert_from_bytes L data of
      Inr cert \<Rightarrow> (case transport_keys L cert of
          key # _ \<Rightarrow> Inr (keyid_hex L key)
        | [] \<Rightarrow> raise_error ''OpenPGP key contains no usable encryption key'')
    | Inl _ \<Rightarrow>
        and_then (unwrap_or_else (packet_pile L data) (pgp_error ''invalid OpenPGP data'')) (session_packet_id L))"

section \<open>What Sequoia promises\<close>

text \<open>
  A message written for some recipients has one PKESK for each, in order; a key pair opens the
  PKESK of the recipient it matches, to the cipher and the session key of the message, when the
  decryptor has named no other cipher; and the message reads as what was written. What a key pair
  does with the PKESK of another recipient is left open: a wrong session key is for the decryptor
  to reject.
\<close>

definition opens_to ::
  "('m, 'enc, 'w, 'sess, 'pkesk, 'skesk, 'cert, 'key, 'pair, 'z) pub_crypto_scheme \<Rightarrow> ('key \<Rightarrow> 'pair \<Rightarrow> bool) \<Rightarrow>
    SymmetricAlgorithm \<Rightarrow> 'sess \<Rightarrow> 'pkesk \<Rightarrow> 'key \<Rightarrow> bool" where
  "opens_to L matches algo key pkesk r \<longleftrightarrow>
    (\<forall>pair hint. matches r pair \<and> message_hint algo hint \<longrightarrow> pkesk_decrypt L pkesk pair hint = Some (Some algo, key))"

definition pub_message_conform ::
  "('m, 'enc, 'w, 'sess, 'pkesk, 'skesk, 'cert, 'key, 'pair, 'z) pub_crypto_scheme \<Rightarrow>
    ('pkesk, 'skesk, 'sess, 'cert, 'handle, 'structure, 'cb, 'b, 'd, 'y) decryptor_lib_scheme \<Rightarrow>
    ('key \<Rightarrow> 'pair \<Rightarrow> bool) \<Rightarrow> bool" where
  "pub_message_conform L D matches \<longleftrightarrow>
    (\<forall>rs algo compr fmt body w w1 w2 m out.
      encryptor_build L (symmetric_algo L (for_recipients L (message_new L) rs) algo) w = (Inr m, w1) \<longrightarrow>
      literal_message L m compr fmt body w1 = (Inr out, w2) \<longrightarrow>
      (\<exists>key pkesks. reads_as D out pkesks [] algo key fmt body \<and> list_all2 (opens_to L matches algo key) pkesks rs))"

section \<open>Lemmas\<close>

text \<open>Both loops together search the pairs of a PKESK and a key pair, row by row.\<close>

definition pkesk_offer ::
  "('m, 'enc, 'w, 'sess, 'pkesk, 'skesk, 'cert, 'key, 'pair, 'z) pub_crypto_scheme \<Rightarrow> SymmetricAlgorithm option \<Rightarrow>
    'pkesk \<times> 'pair \<Rightarrow> (SymmetricAlgorithm option \<times> 'sess) option" where
  "pkesk_offer L hint = (\<lambda>(pkesk, pair). pkesk_decrypt L pkesk pair hint)"

fun search_pairs ::
  "('c \<Rightarrow> (SymmetricAlgorithm option \<times> 'sess) option) \<Rightarrow> 'r \<Rightarrow> string \<Rightarrow> 'c list \<Rightarrow> ('sess, 'cb) decrypt_callback \<Rightarrow>
    ('cb, 'r) lib_io" where
  "search_pairs offer found failure [] cb s = (Inl failure, s)"
| "search_pairs offer found failure (c # cs) cb s = (case offer c of
      None \<Rightarrow> search_pairs offer found failure cs cb s
    | Some (a, k) \<Rightarrow> (case cb a k s of (True, s') \<Rightarrow> (Inr found, s')
        | (False, s') \<Rightarrow> search_pairs offer found failure cs cb s'))"

interpretation pair_search: key_search "search_pairs offer found failure" offer found failure
  by unfold_locales simp_all

lemma try_pairs_search:
  "search_pairs (pkesk_offer L hint) found failure (map (Pair pkesk) pairs @ rest) cb s =
    (case try_pairs L pkesk pairs hint cb s of (True, s') \<Rightarrow> (Inr found, s')
     | (False, s') \<Rightarrow> search_pairs (pkesk_offer L hint) found failure rest cb s')"
  by (induction pairs arbitrary: s) (auto simp: pkesk_offer_def split: option.splits prod.splits bool.splits)

lemma key_helper_search:
  "key_helper_decrypt L err self hint pkesks cb s =
    search_pairs (pkesk_offer L hint) (Some (kh_cert self))
      (err ''message was not encrypted for the supplied key'') (List.product pkesks (kh_pairs self)) cb s"
  by (induction pkesks arbitrary: s) (auto simp: try_pairs_search split: prod.splits bool.splits)

lemma key_helper_serves:
  fixes key :: 'sess
  assumes "list_all2 (opens_to L matches algo key) pkesks rs"
    and "\<exists>r \<in> set rs. \<exists>pair \<in> set pairs. matches r pair"
  shows "serves (key_helper L err \<lparr>kh_pairs = pairs, kh_cert = cert\<rparr> ::
    ('pkesk, 'skesk, 'sess, 'cert, 'handle, 'structure, 'cb) helper) pkesks [] algo key"
proof (rule servesI)
  fix hint and cb :: "('sess, 'cb) decrypt_callback" and s
  assume hint: "message_hint algo hint" and "\<And>u. fst (cb (Some algo) key u)"
  obtain r pair where "r \<in> set rs" and pair: "pair \<in> set pairs" "matches r pair" using assms(2) by blast
  then obtain pkesk where "pkesk \<in> set pkesks" and "opens_to L matches algo key pkesk r"
    using assms(1) unfolding list_all2_conv_all_nth in_set_conv_nth by metis
  with pair hint have "(pkesk, pair) \<in> set (List.product pkesks pairs)"
    and "pkesk_offer L hint (pkesk, pair) = Some (Some algo, key)"
    by (auto simp: pkesk_offer_def opens_to_def)
  with \<open>\<And>u. fst (cb (Some algo) key u)\<close>
  have "\<exists>a k u s'. cb a k u = (True, s') \<and>
      key_helper_decrypt L err \<lparr>kh_pairs = pairs, kh_cert = cert\<rparr> hint pkesks cb s = (Inr (Some cert), s')"
    unfolding key_helper_search KeyHelper.select_convs
    by - (rule pair_search.search_accepts [where c = "(pkesk, pair)" and a = "Some algo" and k = key], simp_all)
  then show "\<exists>c a k u s'. cb a k u = (True, s') \<and>
      helper_decrypt (key_helper L err \<lparr>kh_pairs = pairs, kh_cert = cert\<rparr> ::
        ('pkesk, 'skesk, 'sess, 'cert, 'handle, 'structure, 'cb) helper) pkesks [] hint cb s = (Inr c, s')"
    by - (rule exI [of _ "Some cert"], simp add: key_helper_def del: key_helper_decrypt.simps)
qed (simp_all add: key_helper_def)

lemma pub_encrypt_reads:
  assumes "pub_message_conform L D matches"
    and "cert_from_bytes L public_key = Inr cert" and "cert_from_bytes L secret_key = Inr tsk"
    and "unlock_keys L password (secret_keys L tsk) [] = Inr pairs"
    and "\<exists>r \<in> set (transport_keys L cert). \<exists>pair \<in> set pairs. matches r pair"
    and "pub_encrypt L data public_key options t w = (Inr out, w')"
  obtains p where "parse_options options t = Inr p"
    and "pub_decrypt L D out secret_key password = Inr (literal_body p data, format_code (literal_format_of p))"
proof -
  obtain p m w1 w2 where p: "parse_options options t = Inr p"
    and m: "encryptor_build L (symmetric_algo L (for_recipients L (message_new L) (transport_keys L cert)) (cipher_algo p)) w
      = (Inr m, w1)"
    and out: "write_payload L m data p w1 = (Inr out, w2)"
    using assms(2,6)
    by (clarsimp simp: pub_encrypt_def Let_def io_then_eq_Inr io_unwrap_eq_Inr io_pure_eq split: if_split_asm)
  obtain key pkesks where reads: "reads_as D out pkesks [] (cipher_algo p) key (literal_format_of p) (literal_body p data)"
    and all: "list_all2 (opens_to L matches (cipher_algo p) key) pkesks (transport_keys L cert)"
    using assms(1) m out unfolding pub_message_conform_def write_payload_eq by meson
  have "run_decryptor D failed (key_helper L err \<lparr>kh_pairs = pairs, kh_cert = tsk\<rparr>) out =
      Inr (literal_body p data, format_code (literal_format_of p))" for failed err
    by (rule run_decryptor_reads [OF reads key_helper_serves [OF all assms(5)]]) (simp add: key_helper_def)
  then have "pub_decrypt L D out secret_key password = Inr (literal_body p data, format_code (literal_format_of p))"
    using assms(3-5) by (auto simp: pub_decrypt_def)
  with p show thesis by (rule that)
qed

text \<open>
  A key can be a recipient when it has a valid binding, a supported algorithm, is alive, not
  revoked and flagged for transport encryption. The five filters of the iterator keep these.
\<close>

definition usable_recipient ::
  "('m, 'enc, 'w, 'sess, 'pkesk, 'skesk, 'cert, 'key, 'pair, 'z) pub_crypto_scheme \<Rightarrow> 'key \<Rightarrow> bool" where
  "usable_recipient L k \<longleftrightarrow> key_valid L k \<and> key_supported L k \<and> key_alive L k \<and> \<not> key_revoked L k \<and>
    key_for_transport_encryption L k"

lemma transport_keys_eq: "transport_keys L cert = filter (usable_recipient L) (cert_keys L cert)"
  unfolding transport_keys_def filter_filter by (rule filter_cong) (auto simp: usable_recipient_def)

lemma transport_keys_Cons:
  "(\<exists>ks. transport_keys L cert = k # ks) \<longleftrightarrow>
    (\<exists>pre post. cert_keys L cert = pre @ k # post \<and> list_all (\<lambda>j. \<not> usable_recipient L j) pre \<and> usable_recipient L k)"
  by (auto simp: transport_keys_eq filter_eq_Cons_iff list_all_iff)

lemma transport_keys_Nil:
  "transport_keys L cert = [] \<longleftrightarrow> list_all (\<lambda>k. \<not> usable_recipient L k) (cert_keys L cert)"
  by (simp add: transport_keys_eq filter_empty_conv list_all_iff)

fun is_session_packet :: "('pkesk, 'skesk) Packet \<Rightarrow> bool" where
  "is_session_packet (Packet_PKESK _) = True"
| "is_session_packet (Packet_SKESK _) = True"
| "is_session_packet _ = False"

lemma session_packet_id_skip:
  "list_all (\<lambda>q. \<not> is_session_packet q) pre \<Longrightarrow> session_packet_id L (pre @ packets) = session_packet_id L packets"
  by (induction pre) (auto split: Packet.splits)

lemma session_packet_cases:
  obtains (none) "list_all (\<lambda>q. \<not> is_session_packet q) packets"
    | (first) pre p post where "packets = pre @ p # post" "list_all (\<lambda>q. \<not> is_session_packet q) pre" "is_session_packet p"
  using split_list_first_prop [of packets is_session_packet] by (auto simp: list_all_iff)

lemma session_packet_id_eq_Inr:
  "session_packet_id L packets = Inr i \<longleftrightarrow>
    (\<exists>pre p post. packets = pre @ p # post \<and> list_all (\<lambda>q. \<not> is_session_packet q) pre \<and>
      ((\<exists>k. p = Packet_PKESK k \<and> recipient_hex L k = Some i) \<or>
       (\<exists>k. p = Packet_PKESK k \<and> recipient_hex L k = None \<and> i = ''ANYKEY'') \<or>
       (\<exists>k. p = Packet_SKESK k \<and> i = ''SYMKEY'')))" (is "?l \<longleftrightarrow> ?r")
proof
  assume ?l
  show ?r
  proof (cases rule: session_packet_cases [of packets])
    case none
    with \<open>?l\<close> show ?thesis using session_packet_id_skip [of packets L "[]"] by simp
  next
    case (first pre p post)
    with \<open>?l\<close> have "session_packet_id L (p # post) = Inr i" by (simp add: session_packet_id_skip)
    with first show ?thesis by (cases p) (fastforce split: option.splits)+
  qed
qed (auto simp: session_packet_id_skip)

lemma session_packet_id_eq_Inl:
  "session_packet_id L packets = Inl e \<longleftrightarrow> list_all (\<lambda>q. \<not> is_session_packet q) packets \<and>
    e = PgError ''OpenPGP data contains no encrypted session key''"
proof (cases rule: session_packet_cases [of packets])
  case none
  then show ?thesis using session_packet_id_skip [of packets L "[]"] by auto
next
  case (first pre p post)
  then show ?thesis by (cases p) (simp_all add: session_packet_id_skip)
qed

text \<open>Unlocking a secret key, and the key pairs of the unlocked ones.\<close>

definition unlocked ::
  "('m, 'enc, 'w, 'sess, 'pkesk, 'skesk, 'cert, 'key, 'pair, 'z) pub_crypto_scheme \<Rightarrow> string \<Rightarrow> 'key \<Rightarrow> 'key lib_result" where
  "unlocked L password ka = (if is_encrypted L ka then decrypt_secret L ka password else Inr ka)"

definition pairs_of ::
  "('m, 'enc, 'w, 'sess, 'pkesk, 'skesk, 'cert, 'key, 'pair, 'z) pub_crypto_scheme \<Rightarrow> 'key list \<Rightarrow> 'pair list" where
  "pairs_of L keys = List.map_filter (\<lambda>k. case into_keypair L k of Inr pair \<Rightarrow> Some pair | Inl _ \<Rightarrow> None) keys"

lemma unlock_keys_eq:
  "unlock_keys L password kas pairs =
    unwrap_or_else (and_then (map_result (unlocked L password) kas) (\<lambda>keys. Inr (pairs @ pairs_of L keys)))
      (pgp_error ''could not unlock OpenPGP secret key'')"
proof (induction kas arbitrary: pairs)
  case Nil
  then show ?case by (simp add: pairs_of_def List.map_filter_def)
next
  case (Cons ka kas)
  show ?case
  proof (cases "unlocked L password ka")
    case (Inl e)
    then show ?thesis by (auto simp: unlocked_def split: if_splits)
  next
    case (Inr k)
    then have "unlock_keys L password (ka # kas) pairs =
        unlock_keys L password kas (case into_keypair L k of Inr pair \<Rightarrow> pairs @ [pair] | Inl _ \<Rightarrow> pairs)"
      by (auto simp: unlocked_def split: if_splits)
    then show ?thesis
      using Inr by (cases "map_result (unlocked L password) kas")
        (simp_all add: Cons.IH pairs_of_def List.map_filter_def split: sum.split)
  qed
qed

section \<open>An instance\<close>

text \<open>
  The instance of \<open>Pgp_Session\<close> with key pairs: a certificate is a kind (0 public, 1 secret,
  2 secret and locked with the password \<open>pw\<close>) and its keys, one byte each. A message is the
  number of recipients, their keys, the cipher, the session key, the format and the body.
\<close>

type_synonym toy_pkesk = "u8 \<times> SymmetricAlgorithm \<times> u8"
type_synonym toy_cert = "u8 \<times> bytes"

fun toy_cert_parse :: "bytes \<Rightarrow> toy_cert lib_result" where
  "toy_cert_parse (kind # keys) = (if kind \<le> 2 then Inr (kind, keys) else Inl ''no certificate'')"
| "toy_cert_parse [] = Inl ''no certificate''"

definition toy_pub_parse :: "bytes \<Rightarrow> (toy_pkesk, unit) toy_message lib_result" where
  "toy_pub_parse data = (case data of
      n # rest \<Rightarrow> (case drop (unat n) rest of
          a # k # fmt # body \<Rightarrow> Inr (map (\<lambda>r. (r, code_algo a, k)) (take (unat n) rest), [], code_algo a, k,
            toy_format fmt, map (\<lambda>b. xor b k) body)
        | _ \<Rightarrow> Inl ''malformed'')
    | [] \<Rightarrow> Inl ''malformed'')"

definition toy_pub_build :: "bytes \<times> SymmetricAlgorithm \<Rightarrow> (nat, bytes \<times> u8) lib_io" where
  "toy_pub_build = (\<lambda>(rs, algo) w. if rs = [] \<or> 256 \<le> length rs then (Inl ''recipients'', w)
     else (and_then (algo_code algo) (\<lambda>a. Inr (of_nat (length rs) # rs @ [a, of_nat w], of_nat w)), w + 1))"

definition toy_pub :: "(bytes \<times> u8, bytes \<times> SymmetricAlgorithm, nat, u8, toy_pkesk, unit, toy_cert, u8 \<times> bool, u8) pub_crypto" where
  "toy_pub = \<lparr> message_new = message_new toy_writer, encryptor_build = toy_pub_build,
     compression_level_new = compression_level_new toy_writer, compressor = compressor toy_writer,
     literal_writer = literal_writer toy_writer, write_all = write_all toy_writer, finalize = finalize toy_writer,
     cert_from_bytes = toy_cert_parse, is_tsk = (\<lambda>(kind, keys). kind \<noteq> 0),
     cert_keys = (\<lambda>(kind, keys). map (\<lambda>k. (k, kind = 2)) keys),
     key_valid = (\<lambda>k. True), key_supported = (\<lambda>k. True), key_alive = (\<lambda>k. True), key_revoked = (\<lambda>k. False),
     key_for_transport_encryption = (\<lambda>(k, locked). even (unat k)),
     for_recipients = (\<lambda>m rs. (map fst rs, AES256)), symmetric_algo = (\<lambda>(rs, _) algo. (rs, algo)),
     secret_keys = (\<lambda>(kind, keys). if kind = 0 then [] else map (\<lambda>k. (k, kind = 2)) keys),
     is_encrypted = snd, decrypt_secret = (\<lambda>(k, locked) pw. if pw = ''pw'' then Inr (k, False) else Inl ''password''),
     into_keypair = (\<lambda>(k, locked). Inr k),
     pkesk_decrypt = (\<lambda>(r, algo, k) pair hint. if r = pair then Some (Some algo, k) else None),
     keyid_hex = (\<lambda>(k, locked). show_nat (unat k)), recipient_hex = (\<lambda>(r, _). Some (show_nat (unat r))),
     packet_pile = (\<lambda>data. and_then (toy_pub_parse data) (\<lambda>(pkesks, _). Inr (map Packet_PKESK pkesks))) \<rparr>"

lemma toy_pub_parse_built:
  assumes "toy_pub_build (rs, algo) w = (Inr m, w1)" and "literal_message toy_pub m compr fmt body w1 = (Inr out, w2)"
  shows "toy_pub_parse out = Inr (map (\<lambda>r. (r, algo, of_nat w)) rs, [], algo, of_nat w, fmt, body)"
proof -
  obtain a where "rs \<noteq> []" and len: "length rs < 256" and a: "algo_code algo = Inr a"
    and m: "m = (of_nat (length rs) # rs @ [a, of_nat w], of_nat w)"
    using assms(1) by (auto simp: toy_pub_build_def and_then_eq_Inr not_le split: if_splits)
  have "unat (of_nat (length rs) :: u8) = length rs" using len by (rule unat_of_nat_u8)
  then show ?thesis
    using assms(2) a m
    by (auto simp: literal_message_def toy_pub_def toy_writer_def toy_writer_literal_def io_then_eq_Inr io_pure_eq
        toy_pub_parse_def code_algo_code toy_format_code comp_def xor.assoc split: option.splits if_splits prod.splits)
qed

lemma toy_pub_conform:
  "pub_message_conform toy_pub
    (toy_decryptor toy_pub_parse :: (toy_pkesk, unit, u8, toy_cert, unit, unit, unit, (toy_pkesk, unit) toy_message, bytes) decryptor_lib)
    (\<lambda>(k, locked) pair. k = pair)"
  unfolding pub_message_conform_def
proof (intro allI impI)
  fix rs algo compr fmt body w w1 w2 m out
  assume "encryptor_build toy_pub (symmetric_algo toy_pub (for_recipients toy_pub (message_new toy_pub) rs) algo) w = (Inr m, w1)"
    and "literal_message toy_pub m compr fmt body w1 = (Inr out, w2)"
  then have "toy_pub_parse out = Inr (map (\<lambda>r. (r, algo, of_nat w)) (map fst rs), [], algo, of_nat w, fmt, body)"
    using toy_pub_parse_built [of "map fst rs" algo w m w1 compr fmt body out w2] by (simp add: toy_pub_def)
  from toy_reads_as [of toy_pub_parse, OF this]
  show "\<exists>key pkesks. reads_as (toy_decryptor toy_pub_parse :: (toy_pkesk, unit, u8, toy_cert, unit, unit, unit, (toy_pkesk, unit) toy_message, bytes) decryptor_lib) out pkesks [] algo key fmt body \<and>
     list_all2 (opens_to toy_pub (\<lambda>(k, locked) pair. k = pair) algo key) pkesks rs"
    by (intro exI conjI) (auto simp: list_all2_conv_all_nth toy_pub_def opens_to_def split: prod.splits)
qed

lemma toy_pub_keys:
  "cert_from_bytes toy_pub [0, 7, 8] = Inr (0, [7, 8])" "cert_from_bytes toy_pub [2, 7, 8] = Inr (2, [7, 8])"
  "unlock_keys toy_pub ''pw'' (secret_keys toy_pub (2, [7, 8])) [] = Inr [7, 8]"
  "\<exists>r \<in> set (transport_keys toy_pub (0, [7, 8])). \<exists>pair \<in> set [7, 8]. (case r of (k, locked) \<Rightarrow> \<lambda>pair. k = pair) pair"
  by (simp_all add: toy_pub_def transport_keys_def)

section \<open>Properties\<close>

text \<open>
  C2. Text encrypted for a public key decrypts, with the same option string, under a secret key
  one of whose unlocked key pairs matches one of the recipients; which of several PKESKs and
  key pairs that is makes no difference.
\<close>

theorem pgp_pub_round_trip:
  assumes "pub_message_conform L D matches"
    and "cert_from_bytes L public_key = Inr cert" and "cert_from_bytes L secret_key = Inr tsk"
    and "unlock_keys L password (secret_keys L tsk) [] = Inr pairs"
    and "\<exists>r \<in> set (transport_keys L cert). \<exists>pair \<in> set pairs. matches r pair"
    and "utf8_ok (as_bytes s)" and "0 \<notin> set (as_bytes s)"
    and "pgp_pub_encrypt L s public_key options w = (Inr out, w')"
  shows "pgp_pub_decrypt L D out secret_key password options = Inr s"
proof -
  obtain p where p: "parse_options options True = Inr p"
    and out: "pub_decrypt L D out secret_key password =
      Inr (literal_body p (as_bytes s), format_code (literal_format_of p))"
    using pub_encrypt_reads [OF assms(1-5)] assms(8) unfolding pgp_pub_encrypt_def by metis
  have "text_input p" using parse_options_ok [OF p] by simp
  then show ?thesis
    using out text_survives assms(6,7) parse_decrypt_options_eq [OF p]
    by (simp add: pgp_pub_decrypt_def)
qed

theorem pgp_pub_round_trip_witness:
  "pgp_pub_encrypt toy_pub ''hi'' [0, 7, 8] [] 5 = (Inr [1, 8, 7, 5, 2, 109, 108], 6) \<and>
   pgp_pub_decrypt toy_pub (toy_decryptor toy_pub_parse) [1, 8, 7, 5, 2, 109, 108] [2, 7, 8] ''pw'' [] = Inr ''hi''"
proof -
  have options: "parse_options [] True = Inr (default_options\<lparr>text_input := True\<rparr>)"
    by (simp add: parse_options_eq_Inr option_items_def trim_all_plain default_options_def)
  have run: "pgp_pub_encrypt toy_pub ''hi'' [0, 7, 8] [] 5 = (Inr [1, 8, 7, 5, 2, 109, 108], 6)"
    by (simp add: pgp_pub_encrypt_def pub_encrypt_def options transport_keys_def toy_pub_def toy_pub_build_def toy_run)
  moreover have "utf8_ok (as_bytes ''hi'')" and "0 \<notin> set (as_bytes ''hi'')"
    by (simp_all add: as_bytes_def byte_of_char_def ccode_def utf8_ok.simps)
  ultimately show ?thesis
    using pgp_pub_round_trip [OF toy_pub_conform toy_pub_keys] by blast
qed

text \<open>
  C17. The key helper tries every PKESK with every key pair, the PKESKs in the order of the
  message and for each the key pairs in the order of the certificate; it stops at the first
  session key the decryptor accepts and gives out the certificate.
\<close>

theorem key_helper_order:
  fixes acc :: "SymmetricAlgorithm option \<times> 'sess \<Rightarrow> bool"
    and L :: "('m, 'enc, 'w, 'sess, 'pkesk, 'skesk, 'cert, 'key, 'pair) pub_crypto"
  shows "key_helper_decrypt L err self hint pkesks (\<lambda>a k tr. (acc (a, k), tr @ [(a, k)])) [] =
    (let ks = List.map_filter (\<lambda>(pkesk, pair). pkesk_decrypt L pkesk pair hint)
            (List.product pkesks (kh_pairs self));
         tried = takeWhile (\<lambda>x. \<not> acc x) ks
     in if list_ex acc ks then (Inr (Some (kh_cert self)), tried @ [ks ! length tried])
        else (Inl (err ''message was not encrypted for the supplied key''), ks))"
  unfolding key_helper_search
  by (subst pair_search.search_trace [where acc = acc and logs = "\<lambda>x tr. tr @ [x]"])
    (simp_all add: fold_snoc Let_def pkesk_offer_def)

text \<open>
  C21. A secret key is never used to encrypt: whatever the data and options, \<open>pgp_pub_encrypt\<close>
  and \<open>pgp_pub_encrypt_bytea\<close> fail on it before anything is drawn or written.
\<close>

theorem pub_encrypt_refuses_secret_keys:
  assumes "cert_from_bytes L public_key = Inr cert" and "is_tsk L cert"
  shows "(\<exists>e. pgp_pub_encrypt L s public_key options w = (Inl e, w)) \<and>
    (\<exists>e. pgp_pub_encrypt_bytea L data public_key options w = (Inl e, w)) \<and>
    (is_ok (parse_options options True) \<longrightarrow> pgp_pub_encrypt L s public_key options w =
      (raise_error ''a secret OpenPGP key cannot be used for public-key encryption'', w))"
proof -
  have "pub_encrypt L d public_key options t w = (case parse_options options t of
      Inl e \<Rightarrow> (Inl e, w)
    | Inr p \<Rightarrow> (raise_error ''a secret OpenPGP key cannot be used for public-key encryption'', w))" for d t
    using assms by (simp add: pub_encrypt_def io_run split: sum.splits)
  then show ?thesis
    by (auto simp: pgp_pub_encrypt_def pgp_pub_encrypt_bytea_def split: sum.splits)
qed

theorem pub_encrypt_refuses_secret_keys_witness:
  "pgp_pub_encrypt toy_pub ''hi'' [1, 7, 8] [] 5 =
    (raise_error ''a secret OpenPGP key cannot be used for public-key encryption'', 5)"
proof -
  have "is_ok (parse_options [] True)"
    by (simp add: parse_options_eq_Inr option_items_def trim_all_plain default_options_def is_ok_iff)
  then show ?thesis
    using pub_encrypt_refuses_secret_keys [of toy_pub "[1, 7, 8]" "(1, [7, 8])" "''hi''" "[]" 5 "[]"]
    by (simp add: toy_pub_def)
qed

text \<open>
  C22. The key identifier. Data that parses as a certificate has the identifier of its first key
  that has a valid binding, a supported algorithm, is alive, not revoked and flagged for transport
  encryption; keys before it that fail any of the five are passed over. Other data has that of its
  first session key packet, nested packets included: the recipient of a PKESK, \<open>ANYKEY\<close> if it
  names none, \<open>SYMKEY\<close> for an SKESK; packets of other kinds before it are passed over. There are
  three errors: a certificate without such a key, data that does not parse, no session key packet.
\<close>

theorem pgp_key_id_first:
  "(pgp_key_id L data = Inr i \<longleftrightarrow>
      (\<exists>cert pre k post. cert_from_bytes L data = Inr cert \<and> cert_keys L cert = pre @ k # post \<and>
        key_valid L k \<and> key_supported L k \<and> key_alive L k \<and> \<not> key_revoked L k \<and> key_for_transport_encryption L k \<and>
        list_all (\<lambda>j. \<not> usable_recipient L j) pre \<and> i = keyid_hex L k) \<or>
      (\<exists>t pre p post. cert_from_bytes L data = Inl t \<and> packet_pile L data = Inr (pre @ p # post) \<and>
        list_all (\<lambda>q. \<not> is_session_packet q) pre \<and>
        ((\<exists>k. p = Packet_PKESK k \<and> recipient_hex L k = Some i) \<or>
         (\<exists>k. p = Packet_PKESK k \<and> recipient_hex L k = None \<and> i = ''ANYKEY'') \<or>
         (\<exists>k. p = Packet_SKESK k \<and> i = ''SYMKEY'')))) \<and>
   (pgp_key_id L data = Inl e \<longleftrightarrow>
      (\<exists>cert. cert_from_bytes L data = Inr cert \<and> list_all (\<lambda>k. \<not> usable_recipient L k) (cert_keys L cert) \<and>
        e = PgError ''OpenPGP key contains no usable encryption key'') \<or>
      (\<exists>t u. cert_from_bytes L data = Inl t \<and> packet_pile L data = Inl u \<and> e = PgError (''invalid OpenPGP data: '' @ u)) \<or>
      (\<exists>t packets. cert_from_bytes L data = Inl t \<and> packet_pile L data = Inr packets \<and>
        list_all (\<lambda>q. \<not> is_session_packet q) packets \<and> e = PgError ''OpenPGP data contains no encrypted session key''))"
proof (cases "cert_from_bytes L data")
  case (Inr cert)
  have "pgp_key_id L data = Inr i \<longleftrightarrow> (\<exists>k. (\<exists>ks. transport_keys L cert = k # ks) \<and> i = keyid_hex L k)"
    using Inr by (auto simp: pgp_key_id_def split: list.split)
  moreover have "pgp_key_id L data = Inl e \<longleftrightarrow>
      transport_keys L cert = [] \<and> e = PgError ''OpenPGP key contains no usable encryption key''"
    using Inr by (auto simp: pgp_key_id_def split: list.split)
  ultimately show ?thesis
    unfolding transport_keys_Cons transport_keys_Nil using Inr by (auto simp: usable_recipient_def [of L i for i])
next
  case (Inl t)
  then show ?thesis
    by (cases "packet_pile L data")
      (auto simp: pgp_key_id_def pgp_error_def context_error_def session_packet_id_eq_Inr session_packet_id_eq_Inl)
qed

text \<open>
  C31. Binary data encrypted for a public key comes back byte for byte under every option string,
  and the function that returns text refuses the message.
\<close>

theorem pgp_pub_bytea_round_trip:
  assumes "pub_message_conform L D matches"
    and "cert_from_bytes L public_key = Inr cert" and "cert_from_bytes L secret_key = Inr tsk"
    and "unlock_keys L password (secret_keys L tsk) [] = Inr pairs"
    and "\<exists>r \<in> set (transport_keys L cert). \<exists>pair \<in> set pairs. matches r pair"
    and "pgp_pub_encrypt_bytea L data public_key options w = (Inr out, w')"
  shows "pgp_pub_decrypt_bytea L D out secret_key password options = Inr data \<and>
    pgp_pub_decrypt L D out secret_key password options = raise_error ''decrypted OpenPGP data is not text''"
proof -
  obtain p where p: "parse_options options False = Inr p"
    and out: "pub_decrypt L D out secret_key password = Inr (literal_body p data, format_code (literal_format_of p))"
    using pub_encrypt_reads [OF assms(1-5)] assms(6) unfolding pgp_pub_encrypt_bytea_def by metis
  have "\<not> text_input p" using parse_options_ok [OF p] by simp
  then show ?thesis
    using out parse_decrypt_options_eq [OF p]
    by (simp add: pgp_pub_decrypt_def pgp_pub_decrypt_bytea_def binary_is_no_text literal_body_def)
qed

theorem pgp_pub_bytea_round_trip_witness:
  "pgp_pub_encrypt_bytea toy_pub [0, 10, 255] [0, 7, 8] [] 5 = (Inr [1, 8, 7, 5, 1, 5, 15, 250], 6) \<and>
   pgp_pub_decrypt_bytea toy_pub (toy_decryptor toy_pub_parse) [1, 8, 7, 5, 1, 5, 15, 250] [2, 7, 8] ''pw'' [] =
     Inr [0, 10, 255]"
proof -
  have options: "parse_options [] False = Inr default_options"
    by (simp add: parse_options_eq_Inr option_items_def trim_all_plain default_options_def)
  have "pgp_pub_encrypt_bytea toy_pub [0, 10, 255] [0, 7, 8] [] 5 = (Inr [1, 8, 7, 5, 1, 5, 15, 250], 6)"
    by (simp add: pgp_pub_encrypt_bytea_def pub_encrypt_def options transport_keys_def toy_pub_def toy_pub_build_def toy_run)
  then show ?thesis
    using pgp_pub_bytea_round_trip [OF toy_pub_conform toy_pub_keys] by blast
qed

text \<open>
  C33. Which key pairs \<open>pub_decrypt\<close> works with: if every locked secret key opens with the password,
  those of the secret keys that make a key pair, in the order of the certificate, the others being
  skipped. Otherwise the first key the password does not open is reported, with the reason.
\<close>

theorem unlock_keys_outcome:
  "case unlock_keys L password kas [] of
      Inr pairs \<Rightarrow> (\<exists>keys. list_all2 (\<lambda>ka key.
          if is_encrypted L ka then decrypt_secret L ka password = Inr key else key = ka) kas keys \<and>
        pairs = concat (map (\<lambda>key. case into_keypair L key of Inr pair \<Rightarrow> [pair] | Inl _ \<Rightarrow> []) keys))
    | Inl e \<Rightarrow> (\<exists>pre ka post t. kas = pre @ ka # post \<and> list_all (\<lambda>j. is_ok (unlocked L password j)) pre \<and>
        is_encrypted L ka \<and> decrypt_secret L ka password = Inl t \<and>
        e = PgError (''could not unlock OpenPGP secret key: '' @ t))"
proof (cases "map_result (unlocked L password) kas")
  case (Inl t)
  then obtain pre ka post where "kas = pre @ ka # post" and "list_all (\<lambda>j. is_ok (unlocked L password j)) pre"
    and "unlocked L password ka = Inl t"
    by (auto simp: map_result_eq_Inl)
  then show ?thesis
    using Inl by (auto simp: unlock_keys_eq unlocked_def [of L password ka] pgp_error_def context_error_def split: if_splits)
next
  case (Inr keys)
  have "list_all2 (\<lambda>ka key. if is_encrypted L ka then decrypt_secret L ka password = Inr key else key = ka) kas keys"
    using Inr unfolding map_result_eq_Inr by (rule list_all2_mono) (auto simp: unlocked_def split: if_splits)
  moreover have "pairs_of L keys = concat (map (\<lambda>key. case into_keypair L key of Inr pair \<Rightarrow> [pair] | Inl _ \<Rightarrow> []) keys)"
    by (induction keys) (auto simp: pairs_of_def List.map_filter_def split: sum.splits)
  ultimately show ?thesis by (simp add: unlock_keys_eq Inr split del: if_split) (rule exI [of _ keys], simp split del: if_split)
qed



end
