(* ===== verification/Password.thy ===== *)
theory Password
  imports Rust_Std
begin

text \<open>
  Model of \<open>src/src/password.rs\<close>: \<open>crypt\<close>, \<open>salt_prefix\<close>, \<open>rounds_or_default\<close>,
  \<open>generate_salt\<close> and \<open>gen_salt\<close>. The crate \<open>pwhash\<close> is the parameter \<open>pwhash\<close>; a hash is made
  with a random salt, so its functions draw from the random state.
\<close>

section \<open>Parameters\<close>

datatype BcryptVariant = V2a | V2b | V2y

record BcryptSetup =
  bcrypt_salt :: "string option"
  bcrypt_cost :: "u32 option"
  bcrypt_variant :: "BcryptVariant option"

record HashSetup =
  setup_salt :: "string option"
  setup_rounds :: "u32 option"

text \<open>The fields carry the module of \<open>pwhash\<close> they come from.\<close>

record 'w pwhash =
  unix_crypt_with :: "bytes \<Rightarrow> string \<Rightarrow> string lib_result"
  bcrypt_hash_with :: "BcryptSetup \<Rightarrow> bytes \<Rightarrow> ('w, string) lib_io"
  unix_crypt_hash :: "bytes \<Rightarrow> ('w, string) lib_io"
  bsdi_crypt_hash_with :: "HashSetup \<Rightarrow> bytes \<Rightarrow> ('w, string) lib_io"
  md5_crypt_hash :: "bytes \<Rightarrow> ('w, string) lib_io"
  sha256_crypt_hash_with :: "HashSetup \<Rightarrow> bytes \<Rightarrow> ('w, string) lib_io"
  sha512_crypt_hash_with :: "HashSetup \<Rightarrow> bytes \<Rightarrow> ('w, string) lib_io"
  sha256_crypt_DEFAULT_ROUNDS :: u32
  sha512_crypt_DEFAULT_ROUNDS :: u32

section \<open>Operations\<close>

definition password_error :: "string \<Rightarrow> string \<Rightarrow> pg_error" where
  "password_error ctx e = context_error ctx e"

definition crypt :: "'w pwhash \<Rightarrow> string \<Rightarrow> string \<Rightarrow> string result" where
  "crypt P password salt =
    unwrap_or_else (unix_crypt_with P (as_bytes password) salt) (password_error ''invalid salt'')"

text \<open>
  The iterator \<open>separators\<close> is the list of positions of the dollar sign; its elements 2 and 3 are
  what the third and fourth \<open>next()\<close> give. The default \<open>hash.len() - 1\<close> is evaluated in any
  case, and for an empty hash it panics.
\<close>

definition salt_prefix :: "string \<Rightarrow> string \<Rightarrow> string result" where
  "salt_prefix hash algorithm =
    (if algorithm = ''bf'' then and_then (str_to hash 29) (\<lambda>s. Inr (replace_str ''$2b$'' ''$2a$'' s))
     else if algorithm = ''des'' then str_to hash 2
     else if algorithm = ''xdes'' then str_to hash 9
     else if algorithm = ''md5'' then
       and_then (str_from hash 3) (\<lambda>rest.
         let end_index = (case find_char CHR ''$'' rest of None \<Rightarrow> length hash | Some index \<Rightarrow> index + 4)
         in str_to hash end_index)
     else if algorithm = ''sha256crypt'' \<or> algorithm = ''sha512crypt'' then
       let separators = match_indices CHR ''$'' hash in
       if hash = [] then panic ''attempt to subtract with overflow''
       else
         let third = (if 2 < length separators then separators ! 2 else length hash - 1);
             end_index = (if str_get hash 3 10 = Some ''rounds=''
               then (if 3 < length separators then separators ! 3 else third) else third)
         in str_to hash (end_index + 1)
     else panic ''internal error: entered unreachable code'')"

definition rounds_or_default :: "i32 \<Rightarrow> u32 \<Rightarrow> u32 result" where
  "rounds_or_default rounds default_rounds =
    (if sint rounds = 0 then Inr default_rounds
     else if 0 < sint rounds then Inr rounds
     else raise_error ''iteration count must be positive'')"

definition generate_salt :: "'w pwhash \<Rightarrow> string \<Rightarrow> i32 \<Rightarrow> ('w, string) io" where
  "generate_salt P algorithm rounds =
    (if algorithm = ''bf'' then
       let cost = (if rounds = 0 then 6 else rounds) in
       if \<not> (4 \<le> sint cost \<and> sint cost \<le> 31)
       then io_pure (raise_error ''bcrypt iteration count must be between 4 and 31'')
       else io_then (io_unwrap_or_else
           (bcrypt_hash_with P \<lparr>bcrypt_salt = None, bcrypt_cost = Some cost, bcrypt_variant = Some V2a\<rparr> [])
           (password_error ''could not generate bcrypt salt''))
         (\<lambda>hash. io_pure (salt_prefix hash algorithm))
     else if algorithm = ''des'' then
       if \<not> (rounds = 0 \<or> rounds = 25)
       then io_pure (raise_error ''DES iteration count must be 25 when specified'')
       else io_then (io_unwrap_or_else (unix_crypt_hash P []) (password_error ''could not generate DES salt''))
         (\<lambda>hash. io_pure (salt_prefix hash algorithm))
     else if algorithm = ''xdes'' then
       io_then (io_pure (rounds_or_default rounds 725)) (\<lambda>actual.
       if actual > 16777215 \<or> actual mod 2 = 0
       then io_pure (raise_error ''extended DES iteration count must be odd and at most 16777215'')
       else io_then (io_unwrap_or_else
           (bsdi_crypt_hash_with P \<lparr>setup_salt = None, setup_rounds = Some actual\<rparr> [])
           (password_error ''could not generate extended DES salt''))
         (\<lambda>hash. io_pure (salt_prefix hash algorithm)))
     else if algorithm = ''md5'' then
       if \<not> (rounds = 0 \<or> rounds = 1000)
       then io_pure (raise_error ''md5crypt iteration count must be 1000 when specified'')
       else io_then (io_unwrap_or_else (md5_crypt_hash P []) (password_error ''could not generate md5crypt salt''))
         (\<lambda>hash. io_pure (salt_prefix hash algorithm))
     else if algorithm = ''sha256crypt'' then
       io_then (io_pure (rounds_or_default rounds (sha256_crypt_DEFAULT_ROUNDS P))) (\<lambda>actual.
       if \<not> (1000 \<le> actual \<and> actual \<le> 999999999)
       then io_pure (raise_error ''sha256crypt iteration count must be between 1000 and 999999999'')
       else io_then (io_unwrap_or_else
           (sha256_crypt_hash_with P \<lparr>setup_salt = None, setup_rounds = Some actual\<rparr> [])
           (password_error ''could not generate sha256crypt salt''))
         (\<lambda>hash. io_pure (salt_prefix hash algorithm)))
     else if algorithm = ''sha512crypt'' then
       io_then (io_pure (rounds_or_default rounds (sha512_crypt_DEFAULT_ROUNDS P))) (\<lambda>actual.
       if \<not> (1000 \<le> actual \<and> actual \<le> 999999999)
       then io_pure (raise_error ''sha512crypt iteration count must be between 1000 and 999999999'')
       else io_then (io_unwrap_or_else
           (sha512_crypt_hash_with P \<lparr>setup_salt = None, setup_rounds = Some actual\<rparr> [])
           (password_error ''could not generate sha512crypt salt''))
         (\<lambda>hash. io_pure (salt_prefix hash algorithm)))
     else io_pure (raise_error (''unknown salt algorithm: '' @ algorithm)))"

definition gen_salt :: "'w pwhash \<Rightarrow> string \<Rightarrow> i32 \<Rightarrow> ('w, string) io" where
  "gen_salt P algorithm rounds = generate_salt P (to_ascii_lowercase algorithm) rounds"

section \<open>Hash formats\<close>

text \<open>
  The part of a hash in front of the digest, for each scheme as the crypt family documents it: the
  bcrypt variant, its cost in two digits and 22 characters of salt; two characters for DES; the
  count and the salt in four characters each for extended DES; the salt for MD5; an optional
  round count and the salt for SHA-256 (tag 5) and SHA-512 (tag 6).
\<close>

datatype salted =
    Salted_Bf char string string
  | Salted_Des string
  | Salted_Xdes string string
  | Salted_Md5 string
  | Salted_Sha256 "nat option" string
  | Salted_Sha512 "nat option" string

definition sha_setting :: "string \<Rightarrow> nat option \<Rightarrow> string \<Rightarrow> string" where
  "sha_setting tag rounds salt =
    tag @ (case rounds of None \<Rightarrow> [] | Some n \<Rightarrow> ''rounds='' @ show_nat n @ ''$'') @ salt @ ''$''"

fun setting_text :: "salted \<Rightarrow> string" where
  "setting_text (Salted_Bf v cost salt) = ''$2'' @ [v] @ ''$'' @ cost @ ''$'' @ salt"
| "setting_text (Salted_Des salt) = salt"
| "setting_text (Salted_Xdes count salt) = ''_'' @ count @ salt"
| "setting_text (Salted_Md5 salt) = ''$1$'' @ salt @ ''$''"
| "setting_text (Salted_Sha256 rounds salt) = sha_setting ''$5$'' rounds salt"
| "setting_text (Salted_Sha512 rounds salt) = sha_setting ''$6$'' rounds salt"

fun salt_algorithm :: "salted \<Rightarrow> string" where
  "salt_algorithm (Salted_Bf v cost salt) = ''bf''"
| "salt_algorithm (Salted_Des salt) = ''des''"
| "salt_algorithm (Salted_Xdes count salt) = ''xdes''"
| "salt_algorithm (Salted_Md5 salt) = ''md5''"
| "salt_algorithm (Salted_Sha256 rounds salt) = ''sha256crypt''"
| "salt_algorithm (Salted_Sha512 rounds salt) = ''sha512crypt''"

definition salt_text :: "string \<Rightarrow> bool" where
  "salt_text s \<longleftrightarrow> is_ascii s \<and> CHR ''$'' \<notin> set s"

fun salted_ok :: "salted \<Rightarrow> bool" where
  "salted_ok (Salted_Bf v cost salt) \<longleftrightarrow>
    ccode v < 128 \<and> v \<noteq> CHR ''$'' \<and> length cost = 2 \<and> list_all is_digit cost \<and> length salt = 22 \<and> salt_text salt"
| "salted_ok (Salted_Des salt) \<longleftrightarrow> length salt = 2 \<and> is_ascii salt"
| "salted_ok (Salted_Xdes count salt) \<longleftrightarrow> length count = 4 \<and> length salt = 4 \<and> is_ascii (count @ salt)"
| "salted_ok (Salted_Md5 salt) \<longleftrightarrow> salt_text salt"
| "salted_ok (Salted_Sha256 rounds salt) \<longleftrightarrow> salt_text salt"
| "salted_ok (Salted_Sha512 rounds salt) \<longleftrightarrow> salt_text salt"

text \<open>PostgreSQL's own bcrypt knows the variant \<open>2a\<close>, so \<open>2b\<close> is renamed; the rest is kept.\<close>

fun canonical :: "salted \<Rightarrow> salted" where
  "canonical (Salted_Bf v cost salt) = Salted_Bf (if v = CHR ''b'' then CHR ''a'' else v) cost salt"
| "canonical h = h"

definition hash_shape :: "string \<Rightarrow> string \<Rightarrow> bool" where
  "hash_shape algorithm hash \<longleftrightarrow>
    (\<exists>h digest. salted_ok h \<and> salt_algorithm h = algorithm \<and> salt_text digest \<and> hash = setting_text h @ digest)"

text \<open>What \<open>pwhash\<close> promises: a hash with a salt it draws itself has the format of its scheme, and defaults are in range.\<close>

definition pwhash_conform :: "'w pwhash \<Rightarrow> bool" where
  "pwhash_conform P \<longleftrightarrow>
    (\<forall>setup w s w'. bcrypt_salt setup = None \<longrightarrow> bcrypt_hash_with P setup [] w = (Inr s, w') \<longrightarrow> hash_shape ''bf'' s) \<and>
    (\<forall>w s w'. unix_crypt_hash P [] w = (Inr s, w') \<longrightarrow> hash_shape ''des'' s) \<and>
    (\<forall>setup w s w'. setup_salt setup = None \<longrightarrow> bsdi_crypt_hash_with P setup [] w = (Inr s, w') \<longrightarrow> hash_shape ''xdes'' s) \<and>
    (\<forall>w s w'. md5_crypt_hash P [] w = (Inr s, w') \<longrightarrow> hash_shape ''md5'' s) \<and>
    (\<forall>setup w s w'. setup_salt setup = None \<longrightarrow> sha256_crypt_hash_with P setup [] w = (Inr s, w') \<longrightarrow> hash_shape ''sha256crypt'' s) \<and>
    (\<forall>setup w s w'. setup_salt setup = None \<longrightarrow> sha512_crypt_hash_with P setup [] w = (Inr s, w') \<longrightarrow> hash_shape ''sha512crypt'' s) \<and>
    1000 \<le> sha256_crypt_DEFAULT_ROUNDS P \<and> sha256_crypt_DEFAULT_ROUNDS P \<le> 999999999 \<and>
    1000 \<le> sha512_crypt_DEFAULT_ROUNDS P \<and> sha512_crypt_DEFAULT_ROUNDS P \<le> 999999999"

section \<open>The salt of a hash\<close>

lemma ascii_boundary: "is_ascii s \<Longrightarrow> i \<le> length s \<Longrightarrow> is_char_boundary s i"
  by (auto simp: is_char_boundary_def is_ascii_def list_all_length not_le)

lemma is_ascii_append [simp]: "is_ascii (s @ t) \<longleftrightarrow> is_ascii s \<and> is_ascii t"
  by (simp add: is_ascii_def)

lemma str_to_append: "is_ascii (s @ t) \<Longrightarrow> length s = n \<Longrightarrow> str_to (s @ t) n = Inr s"
  using ascii_boundary [of "s @ t" n] by (auto simp: str_to_def)

lemma match_indices_append:
  "match_indices c (s @ t) = match_indices c s @ map ((+) (length s)) (match_indices c t)"
proof -
  have "[0 ..< length s + length t] = [0 ..< length s] @ map ((+) (length s)) [0 ..< length t]"
    by (rule nth_equalityI) (auto simp: nth_append)
  then show ?thesis
    by (auto simp: match_indices_def filter_map comp_def nth_append intro!: filter_cong)
qed

lemma match_indices_none: "c \<notin> set s \<Longrightarrow> match_indices c s = []"
  by (auto simp: match_indices_def filter_empty_conv)

lemma match_indices_single [simp]: "match_indices c [c] = [0]"
  by (simp add: match_indices_def)

lemma digits_no_dollar: "list_all is_digit s \<Longrightarrow> is_ascii s \<and> CHR ''$'' \<notin> set s \<and> CHR ''b'' \<notin> set s"
  by (auto simp: list_all_iff is_digit_def is_ascii_def ccode_def)

lemma replace_str_no_match:
  assumes "\<And>u v. s = u @ v \<Longrightarrow> \<not> prefix p v \<or> v = []"
  shows "replace_str p r s = s"
  using assms
proof (induction s)
  case (Cons x xs)
  have "\<not> prefix p (x # xs)" using Cons.prems [of "[]" "x # xs"] by simp
  moreover have "replace_str p r xs = xs"
    using Cons.IH Cons.prems [of "x # _"] by (metis append_Cons)
  ultimately show ?case by simp
qed simp

lemma bcrypt_prefix_replaced:
  assumes "v \<noteq> CHR ''$''" and "list_all is_digit cost" and "length cost = 2" and "CHR ''$'' \<notin> set salt"
  shows "replace_str ''$2b$'' ''$2a$'' (''$2'' @ [v] @ ''$'' @ cost @ ''$'' @ salt) =
    ''$2'' @ [if v = CHR ''b'' then CHR ''a'' else v] @ ''$'' @ cost @ ''$'' @ salt"
proof -
  obtain x y where cost: "cost = [x, y]" using assms(3) by (auto simp: length_Suc_conv numeral_2_eq_2)
  have xy: "x \<noteq> CHR ''$''" "y \<noteq> CHR ''$''" "y \<noteq> CHR ''b''"
    using assms(2) cost by (auto simp: is_digit_def ccode_def)
  have salt: "replace_str ''$2b$'' ''$2a$'' salt = salt"
    using assms(4) by (intro replace_str_no_match) (auto simp: prefix_def)
  have no: "\<not> prefix ''2b$'' salt" using assms(4) by (auto simp: prefix_def)
  show ?thesis using assms(1) xy salt no unfolding cost by (cases "v = CHR ''b''") simp_all
qed

lemma sha_prefix:
  assumes "salt_text salt" and "salt_text digest" and "c \<noteq> CHR ''$''" and "ccode c < 128"
    and hash: "hash = sha_setting [CHR ''$'', c, CHR ''$''] rounds salt @ digest"
    and "algorithm = ''sha256crypt'' \<or> algorithm = ''sha512crypt''"
  shows "salt_prefix hash algorithm = Inr (sha_setting [CHR ''$'', c, CHR ''$''] rounds salt)"
proof -
  let ?pre = "sha_setting [CHR ''$'', c, CHR ''$''] rounds salt"
  have ascii: "is_ascii (?pre @ digest)"
    using assms(1,2,4) digits_no_dollar show_nat_digits
    by (auto simp: salt_text_def sha_setting_def is_ascii_def ccode_def split: option.splits)
  have last: "str_to hash (length ?pre) = Inr ?pre"
    unfolding hash using ascii by (rule str_to_append) simp
  have "hash \<noteq> []" by (simp add: hash sha_setting_def)
  show ?thesis
  proof (cases rounds)
    case None
    have eq: "hash = ''$'' @ [c] @ ''$'' @ salt @ ''$'' @ digest"
      by (simp add: hash sha_setting_def None)
    have "match_indices CHR ''$'' hash = [0, 2, length ?pre - 1]"
      unfolding eq match_indices_append
      using assms(1-3) by (simp add: match_indices_none salt_text_def sha_setting_def None)
    then show ?thesis using assms(6) last \<open>hash \<noteq> []\<close> None
      by (auto simp: salt_prefix_def sha_setting_def Let_def)
  next
    case (Some n)
    have eq: "hash = ''$'' @ [c] @ ''$'' @ ''rounds='' @ show_nat n @ ''$'' @ salt @ ''$'' @ digest"
      by (simp add: hash sha_setting_def Some)
    have "match_indices CHR ''$'' hash = [0, 2, 10 + length (show_nat n), length ?pre - 1]"
      unfolding eq match_indices_append
      using assms(1-3) digits_no_dollar [of "show_nat n"] show_nat_digits [of n]
      by (simp add: match_indices_none salt_text_def sha_setting_def Some)
    moreover have "str_get hash 3 10 = Some ''rounds=''"
      using ascii ascii_boundary [of hash 3] ascii_boundary [of hash 10] by (simp add: str_get_def eq hash sha_setting_def Some)
    ultimately show ?thesis using assms(6) last \<open>hash \<noteq> []\<close> Some
      by (auto simp: salt_prefix_def sha_setting_def Let_def)
  qed
qed

lemma md5_prefix:
  assumes "salt_text salt" and "salt_text digest"
  shows "salt_prefix (''$1$'' @ salt @ ''$'' @ digest) ''md5'' = Inr (''$1$'' @ salt @ ''$'')"
proof -
  let ?hash = "''$1$'' @ salt @ ''$'' @ digest"
  have ascii: "is_ascii ?hash" using assms by (simp add: salt_text_def is_ascii_def ccode_def)
  have "str_from ?hash 3 = Inr (salt @ CHR ''$'' # digest)"
    using ascii_boundary [OF ascii, of 3] by (simp add: str_from_def)
  moreover have "find_char CHR ''$'' (salt @ CHR ''$'' # digest) = Some (length salt)"
    using assms(1) by (simp add: salt_text_def find_char_append)
  moreover have "str_to ?hash (length salt + 4) = Inr (''$1$'' @ salt @ ''$'')"
    using str_to_append [of "''$1$'' @ salt @ ''$''" digest "length salt + 4"] ascii by simp
  ultimately show ?thesis by (simp add: salt_prefix_def)
qed

lemma setting_text_ascii: "salted_ok h \<Longrightarrow> is_ascii (setting_text h)"
  using show_nat_digits digits_no_dollar
  by (cases h) (auto simp: salt_text_def sha_setting_def is_ascii_def ccode_def split: option.splits)

lemma salt_prefix_setting:
  assumes "salted_ok h" and "salt_text digest"
  shows "salt_prefix (setting_text h @ digest) (salt_algorithm h) = Inr (setting_text (canonical h))"
proof -
  have ascii: "is_ascii (setting_text h @ digest)"
    using assms setting_text_ascii by (simp add: salt_text_def)
  show ?thesis
  proof (cases h)
    case (Salted_Bf v cost salt)
    then have "str_to (setting_text h @ digest) 29 = Inr (setting_text h)"
      using assms(1) by (intro str_to_append [OF ascii]) simp
    then show ?thesis
      using assms(1) Salted_Bf bcrypt_prefix_replaced [of v cost salt]
      by (simp add: salt_prefix_def salt_text_def)
  next
    case (Salted_Des salt)
    then show ?thesis
      using assms(1) str_to_append [OF ascii, of 2] by (simp add: salt_prefix_def)
  next
    case (Salted_Xdes count salt)
    then show ?thesis
      using assms(1) str_to_append [OF ascii, of 9] by (simp add: salt_prefix_def)
  next
    case (Salted_Md5 salt)
    then show ?thesis using assms md5_prefix by simp
  next
    case (Salted_Sha256 rounds salt)
    then show ?thesis
      using assms sha_prefix [of salt digest "CHR ''5''" _ rounds "''sha256crypt''"] by (simp add: ccode_def)
  next
    case (Salted_Sha512 rounds salt)
    then show ?thesis
      using assms sha_prefix [of salt digest "CHR ''6''" _ rounds "''sha512crypt''"] by (simp add: ccode_def)
  qed
qed

section \<open>Iteration counts\<close>

text \<open>The counts each scheme accepts; 0 stands for its default.\<close>

definition rounds_ok :: "string \<Rightarrow> int \<Rightarrow> bool" where
  "rounds_ok algorithm r =
    (if algorithm = ''bf'' then r = 0 \<or> 4 \<le> r \<and> r \<le> 31
     else if algorithm = ''des'' then r = 0 \<or> r = 25
     else if algorithm = ''xdes'' then r = 0 \<or> 0 < r \<and> r \<le> 16777215 \<and> odd r
     else if algorithm = ''md5'' then r = 0 \<or> r = 1000
     else if algorithm = ''sha256crypt'' \<or> algorithm = ''sha512crypt'' then r = 0 \<or> 1000 \<le> r \<and> r \<le> 999999999
     else False)"

text \<open>The call of \<open>pwhash\<close> that makes the salt, with the count it is given, and its error text.\<close>

definition salt_call :: "'w pwhash \<Rightarrow> string \<Rightarrow> i32 \<Rightarrow> ('w, string) lib_io" where
  "salt_call P algorithm r =
    (if algorithm = ''bf'' then
       bcrypt_hash_with P \<lparr>bcrypt_salt = None, bcrypt_cost = Some (if r = 0 then 6 else r), bcrypt_variant = Some V2a\<rparr> []
     else if algorithm = ''des'' then unix_crypt_hash P []
     else if algorithm = ''xdes'' then
       bsdi_crypt_hash_with P \<lparr>setup_salt = None, setup_rounds = Some (if r = 0 then 725 else r)\<rparr> []
     else if algorithm = ''md5'' then md5_crypt_hash P []
     else if algorithm = ''sha256crypt'' then
       sha256_crypt_hash_with P \<lparr>setup_salt = None, setup_rounds = Some (if r = 0 then sha256_crypt_DEFAULT_ROUNDS P else r)\<rparr> []
     else
       sha512_crypt_hash_with P \<lparr>setup_salt = None, setup_rounds = Some (if r = 0 then sha512_crypt_DEFAULT_ROUNDS P else r)\<rparr> [])"

definition salt_failure :: "string \<Rightarrow> string" where
  "salt_failure algorithm = ''could not generate '' @
    (if algorithm = ''bf'' then ''bcrypt'' else if algorithm = ''des'' then ''DES''
     else if algorithm = ''xdes'' then ''extended DES'' else if algorithm = ''md5'' then ''md5crypt''
     else algorithm) @ '' salt''"

lemma sint_small_iff:
  fixes r :: i32
  shows "sint r = 0 \<longleftrightarrow> r = 0" and "sint r = 25 \<longleftrightarrow> r = 25" and "sint r = 1000 \<longleftrightarrow> r = 1000"
  using signed_word_eqI [of r 0] signed_word_eqI [of r 25] signed_word_eqI [of r 1000] by auto

lemma positive_sint: "0 < sint (r :: i32) \<Longrightarrow> sint r = uint r"
  using sint_nonneg_unat [of r] by (metis less_imp_le nat_0_le uint_nat)

lemma u32_even_iff: "(r :: u32) mod 2 = 0 \<longleftrightarrow> even (uint r)"
  by (simp add: word_uint_eq_iff uint_mod even_iff_mod_2_eq_zero)

lemma algorithm_cases:
  obtains "a = ''bf''" | "a = ''des''" | "a = ''xdes''" | "a = ''md5''" | "a = ''sha256crypt''" | "a = ''sha512crypt''"
    | "a \<notin> set [''bf'', ''des'', ''xdes'', ''md5'', ''sha256crypt'', ''sha512crypt'']"
  by auto

lemma positive_rounds:
  assumes "0 < sint (r :: i32)"
  shows "r > 16777215 \<longleftrightarrow> 16777215 < sint r" and "r mod 2 = 0 \<longleftrightarrow> even (sint r)"
    and "1000 \<le> r \<longleftrightarrow> 1000 \<le> sint r" and "r \<le> 999999999 \<longleftrightarrow> sint r \<le> 999999999" and "r \<noteq> 0"
  using positive_sint [OF assms] assms
  by (auto simp: u32_even_iff word_less_def word_le_def)

lemma generate_salt_accepts:
  assumes "pwhash_conform P" and "rounds_ok a (sint r)"
  shows "generate_salt P a r w =
    io_then (io_unwrap_or_else (salt_call P a r) (password_error (salt_failure a))) (\<lambda>h. io_pure (salt_prefix h a)) w"
proof (cases a rule: algorithm_cases)
  case 3
  then show ?thesis
    using assms(2) positive_rounds [of r]
    by (cases "r = 0") (auto simp: generate_salt_def rounds_ok_def salt_call_def salt_failure_def rounds_or_default_def sint_small_iff)
next
  case 5
  then show ?thesis
    using assms positive_rounds [of r]
    by (cases "r = 0") (auto simp: generate_salt_def rounds_ok_def salt_call_def salt_failure_def rounds_or_default_def sint_small_iff
        pwhash_conform_def)
next
  case 6
  then show ?thesis
    using assms positive_rounds [of r]
    by (cases "r = 0") (auto simp: generate_salt_def rounds_ok_def salt_call_def salt_failure_def rounds_or_default_def sint_small_iff
        pwhash_conform_def)
qed (use assms(2) in \<open>auto simp: generate_salt_def rounds_ok_def salt_call_def salt_failure_def sint_small_iff\<close>)

lemma generate_salt_refuses:
  assumes "\<not> rounds_ok a (sint r)"
  shows "\<exists>m. generate_salt P a r w = (raise_error m, w)"
proof (cases a rule: algorithm_cases)
  case 3
  then show ?thesis
    using assms positive_rounds [of r]
    by (auto simp: generate_salt_def rounds_ok_def rounds_or_default_def sint_small_iff io_pure_def)
next
  case 5
  then show ?thesis
    using assms positive_rounds [of r]
    by (auto simp: generate_salt_def rounds_ok_def rounds_or_default_def sint_small_iff io_pure_def)
next
  case 6
  then show ?thesis
    using assms positive_rounds [of r]
    by (auto simp: generate_salt_def rounds_ok_def rounds_or_default_def sint_small_iff io_pure_def)
qed (use assms in \<open>auto simp: generate_salt_def rounds_ok_def sint_small_iff io_pure_def Let_def\<close>)

lemma salt_call_shape:
  assumes "pwhash_conform P" and "rounds_ok a r'" and "salt_call P a r w = (Inr hash, w')"
  shows "hash_shape a hash"
proof -
  have shapes: "bcrypt_hash_with P \<lparr>bcrypt_salt = None, bcrypt_cost = c, bcrypt_variant = v\<rparr> [] w = (Inr hash, w') \<Longrightarrow> hash_shape ''bf'' hash"
    "unix_crypt_hash P [] w = (Inr hash, w') \<Longrightarrow> hash_shape ''des'' hash"
    "bsdi_crypt_hash_with P \<lparr>setup_salt = None, setup_rounds = n\<rparr> [] w = (Inr hash, w') \<Longrightarrow> hash_shape ''xdes'' hash"
    "md5_crypt_hash P [] w = (Inr hash, w') \<Longrightarrow> hash_shape ''md5'' hash"
    "sha256_crypt_hash_with P \<lparr>setup_salt = None, setup_rounds = n\<rparr> [] w = (Inr hash, w') \<Longrightarrow> hash_shape ''sha256crypt'' hash"
    "sha512_crypt_hash_with P \<lparr>setup_salt = None, setup_rounds = n\<rparr> [] w = (Inr hash, w') \<Longrightarrow> hash_shape ''sha512crypt'' hash"
    for c v n
    using assms(1) unfolding pwhash_conform_def
    by (metis BcryptSetup.select_convs(1), metis, metis HashSetup.select_convs(1), metis,
        metis HashSetup.select_convs(1), metis HashSetup.select_convs(1))
  have "a \<in> set [''bf'', ''des'', ''xdes'', ''md5'', ''sha256crypt'', ''sha512crypt'']"
    using assms(2) by (auto simp: rounds_ok_def split: if_splits)
  with assms(3) show ?thesis
    unfolding salt_call_def by (auto split: if_splits intro: shapes)
qed

section \<open>An instance\<close>

definition zeros :: "nat \<Rightarrow> string" where
  "zeros n = replicate n CHR ''0''"

text \<open>Hashes with salts and digests of zeros, in the six formats.\<close>

definition zero_pwhash :: "nat pwhash" where
  "zero_pwhash = \<lparr>
     unix_crypt_with = (\<lambda>pw salt. if length salt < 2 then Inl ''bad salt'' else Inr (salt @ zeros 11)),
     bcrypt_hash_with = (\<lambda>setup pw w. (Inr (''$2b$06$'' @ zeros 22 @ zeros 31), w + 1)),
     unix_crypt_hash = (\<lambda>pw w. (Inr (zeros 2 @ zeros 11), w + 1)),
     bsdi_crypt_hash_with = (\<lambda>setup pw w. (Inr (''_'' @ zeros 8 @ zeros 11), w + 1)),
     md5_crypt_hash = (\<lambda>pw w. (Inr (''$1$'' @ zeros 8 @ ''$'' @ zeros 22), w + 1)),
     sha256_crypt_hash_with = (\<lambda>setup pw w. (Inr (''$5$rounds=5000$'' @ zeros 16 @ ''$'' @ zeros 43), w + 1)),
     sha512_crypt_hash_with = (\<lambda>setup pw w. (Inr (''$6$'' @ zeros 16 @ ''$'' @ zeros 86), w + 1)),
     sha256_crypt_DEFAULT_ROUNDS = 5000, sha512_crypt_DEFAULT_ROUNDS = 5000 \<rparr>"

lemma zeros_text [simp]: "salt_text (zeros n)" "length (zeros n) = n"
  by (auto simp: zeros_def salt_text_def is_ascii_def list_all_iff ccode_def)

lemma show_5000: "show_nat 5000 = ''5000''"
  by (simp add: show_nat.simps char_of_def bit_Suc_0_iff)

lemma zero_conform: "pwhash_conform zero_pwhash"
proof -
  have "hash_shape ''bf'' (''$2b$06$'' @ zeros 22 @ zeros 31)"
    unfolding hash_shape_def
    by (rule exI [of _ "Salted_Bf CHR ''b'' ''06'' (zeros 22)"], rule exI [of _ "zeros 31"])
      (simp add: is_digit_def ccode_def)
  moreover have "hash_shape ''des'' (zeros 2 @ zeros 11)"
    unfolding hash_shape_def
    by (rule exI [of _ "Salted_Des (zeros 2)"], rule exI [of _ "zeros 11"]) (use zeros_text(1) [of 2] zeros_text(1) [of 11] in \<open>simp add: salt_text_def\<close>)
  moreover have "hash_shape ''xdes'' (''_'' @ zeros 8 @ zeros 11)"
    unfolding hash_shape_def
    by (rule exI [of _ "Salted_Xdes (zeros 4) (zeros 4)"], rule exI [of _ "zeros 11"])
      (simp add: zeros_def salt_text_def is_ascii_def list_all_iff ccode_def flip: replicate_add)
  moreover have "hash_shape ''md5'' (''$1$'' @ zeros 8 @ ''$'' @ zeros 22)"
    unfolding hash_shape_def
    by (rule exI [of _ "Salted_Md5 (zeros 8)"], rule exI [of _ "zeros 22"]) simp
  moreover have "hash_shape ''sha256crypt'' (''$5$rounds=5000$'' @ zeros 16 @ ''$'' @ zeros 43)"
    unfolding hash_shape_def
    by (rule exI [of _ "Salted_Sha256 (Some 5000) (zeros 16)"], rule exI [of _ "zeros 43"])
      (simp add: sha_setting_def show_5000)
  moreover have "hash_shape ''sha512crypt'' (''$6$'' @ zeros 16 @ ''$'' @ zeros 86)"
    unfolding hash_shape_def
    by (rule exI [of _ "Salted_Sha512 None (zeros 16)"], rule exI [of _ "zeros 86"]) (simp add: sha_setting_def)
  ultimately show ?thesis unfolding pwhash_conform_def zero_pwhash_def by simp
qed

section \<open>Properties\<close>

text \<open>
  C14. What \<open>salt_prefix\<close> takes from a hash: for a hash in the format of its scheme, exactly the
  setting in front of the digest, the separator that ends it included where there is one, the
  bcrypt variant \<open>2b\<close> renamed to \<open>2a\<close>. In particular no slice is out of range.
\<close>

theorem salt_prefix_is_setting:
  assumes "salted_ok h" and "salt_text digest"
  shows "salt_prefix (setting_text h @ digest) (salt_algorithm h) = Inr (setting_text (canonical h))"
  using assms by (rule salt_prefix_setting)

theorem salt_prefix_is_setting_witness:
  "salt_prefix (''$5$rounds=5000$abc$'' @ ''xyz'') ''sha256crypt'' = Inr ''$5$rounds=5000$abc$''"
  using salt_prefix_is_setting [of "Salted_Sha256 (Some 5000) ''abc''" "''xyz''"]
  by (simp add: sha_setting_def show_5000 salt_text_def is_ascii_def ccode_def)

text \<open>
  C13. \<open>gen_salt\<close>, in any spelling of the scheme's name, accepts exactly the iteration counts the
  scheme allows; for any other it fails before a salt is drawn. With an allowed count the
  result is a setting of the scheme asked for, or the error of the call to \<open>pwhash\<close>; it never
  panics.
\<close>

theorem gen_salt_outcome:
  assumes "pwhash_conform P"
  shows "if rounds_ok (to_ascii_lowercase a) (sint r)
    then (case salt_call P (to_ascii_lowercase a) r w of
        (Inr hash, w') \<Rightarrow> \<exists>h. salted_ok h \<and> salt_algorithm h = to_ascii_lowercase a \<and>
          gen_salt P a r w = (Inr (setting_text (canonical h)), w')
      | (Inl e, w') \<Rightarrow>
          gen_salt P a r w = (Inl (password_error (salt_failure (to_ascii_lowercase a)) e), w'))
    else \<exists>m. gen_salt P a r w = (raise_error m, w)"
proof (cases "rounds_ok (to_ascii_lowercase a) (sint r)")
  case True
  note run = generate_salt_accepts [OF assms True, of w]
  show ?thesis
  proof (cases "salt_call P (to_ascii_lowercase a) r w")
    case (Pair res w')
    show ?thesis
    proof (cases res)
      case (Inl e)
      then show ?thesis using True Pair run by (simp add: gen_salt_def io_run)
    next
      case (Inr hash)
      then obtain h digest where "salted_ok h" and "salt_algorithm h = to_ascii_lowercase a" and "salt_text digest"
        and "hash = setting_text h @ digest"
        using salt_call_shape [OF assms True] Pair unfolding hash_shape_def by blast
      moreover from this have "salt_prefix hash (to_ascii_lowercase a) = Inr (setting_text (canonical h))"
        using salt_prefix_setting by metis
      ultimately show ?thesis using True Pair Inr run by (auto simp: gen_salt_def io_run)
    qed
  qed
next
  case False
  then show ?thesis using generate_salt_refuses by (simp add: gen_salt_def)
qed

theorem gen_salt_outcome_witness:
  "\<exists>h. salted_ok h \<and> salt_algorithm h = ''bf'' \<and> gen_salt zero_pwhash ''BF'' 8 3 = (Inr (setting_text (canonical h)), 4)"
proof -
  have "to_ascii_lowercase ''BF'' = ''bf''" by (simp add: name_eval)
  then show ?thesis
    using gen_salt_outcome [OF zero_conform, of "''BF''" 8 3]
    by (simp add: rounds_ok_def salt_call_def zero_pwhash_def)
qed

end
