(* ===== verification/Modern.thy ===== *)
theory Modern
  imports Rust_Std
begin

text \<open>
  Model of \<open>src/src/modern.rs\<close>: Argon2id, the three authenticated envelopes, Ed25519, X25519 and
  HKDF. The crates \<open>dryoc\<close> and \<open>hkdf\<close> are the parameter \<open>dryoc\<close>; a \<open>StackByteArray<N>\<close> is a byte
  vector whose length \<open>exact_array\<close> has checked, and the lengths are fields of the parameter
  under the names of \<open>dryoc\<close>'s constants.
\<close>

section \<open>Parameters\<close>

record dryoc_sizes =
  AEAD_KEYBYTES :: nat
  SECRETBOX_KEYBYTES :: nat
  SECRETBOX_NONCEBYTES :: nat
  SECRETBOX_MACBYTES :: nat
  BOX_PUBLICKEYBYTES :: nat
  BOX_SECRETKEYBYTES :: nat
  BOX_MACBYTES :: nat
  BOX_SEALBYTES :: nat
  SIGN_SECRETKEYBYTES :: nat
  SIGN_PUBLICKEYBYTES :: nat
  SIGN_BYTES :: nat

record ('w, 'pw, 'env, 'sbox, 'box, 'signed) dryoc = dryoc_sizes +
  hash_with_defaults :: "bytes \<Rightarrow> ('w, 'pw) lib_io"
  to_encoded_string :: "'pw \<Rightarrow> string lib_result"
  from_string_with_defaults :: "string \<Rightarrow> 'pw lib_result"
  pw_verify :: "'pw \<Rightarrow> bytes \<Rightarrow> unit lib_result"
  aead_seal_to_vec :: "bytes \<Rightarrow> bytes option \<Rightarrow> bytes \<Rightarrow> ('w, 'env) lib_io"
  env_into_vec :: "'env \<Rightarrow> bytes"
  env_from_bytes :: "bytes \<Rightarrow> 'env lib_result"
  env_open_to_vec :: "'env \<Rightarrow> bytes option \<Rightarrow> bytes \<Rightarrow> bytes lib_result"
  nonce_generate :: "'w \<Rightarrow> bytes \<times> 'w"
  encrypt_to_vecbox :: "bytes \<Rightarrow> bytes \<Rightarrow> bytes \<Rightarrow> 'sbox"
  sbox_to_vec :: "'sbox \<Rightarrow> bytes"
  sbox_from_bytes :: "bytes \<Rightarrow> 'sbox lib_result"
  sbox_decrypt_to_vec :: "'sbox \<Rightarrow> bytes \<Rightarrow> bytes \<Rightarrow> bytes lib_result"
  seal_to_vecbox :: "bytes \<Rightarrow> bytes \<Rightarrow> ('w, 'box) lib_io"
  box_to_bytes :: "'box \<Rightarrow> bytes"
  new_with_epk_data_and_mac :: "bytes \<Rightarrow> bytes \<Rightarrow> bytes \<Rightarrow> 'box"
  unseal_to_vec :: "'box \<Rightarrow> bytes \<times> bytes \<Rightarrow> bytes lib_result"
  secret_key_to_public_key :: "bytes \<Rightarrow> bytes"
  sign_with_defaults :: "bytes \<times> bytes \<Rightarrow> bytes \<Rightarrow> 'signed lib_result"
  signed_to_vec :: "'signed \<Rightarrow> bytes"
  signed_from_bytes :: "bytes \<Rightarrow> 'signed lib_result"
  signed_verify :: "'signed \<Rightarrow> bytes \<Rightarrow> unit lib_result"
  crypto_scalarmult :: "bytes \<Rightarrow> bytes \<Rightarrow> bytes \<Rightarrow> bytes lib_result"
  hkdf_expand_sha256 :: "bytes option \<Rightarrow> bytes \<Rightarrow> bytes \<Rightarrow> bytes \<Rightarrow> bytes lib_result"
  hkdf_expand_sha512 :: "bytes option \<Rightarrow> bytes \<Rightarrow> bytes \<Rightarrow> bytes \<Rightarrow> bytes lib_result"

text \<open>
  A key pair is the pair of public and secret key. \<open>crypto_scalarmult\<close> takes the buffer it
  overwrites, and so does HKDF's \<open>expand\<close> after salt, key material and info.
\<close>

section \<open>Operations\<close>

definition crypto_error :: "string \<Rightarrow> string \<Rightarrow> pg_error" where
  "crypto_error ctx e = context_error ctx e"

definition exact_array :: "nat \<Rightarrow> bytes \<Rightarrow> string \<Rightarrow> bytes result" where
  "exact_array N bs what = (if length bs = N then Inr bs
     else raise_error (what @ '' must be exactly '' @ show_nat N @ '' bytes''))"

definition argon2id_hash :: "('w, 'pw, 'env, 'sbox, 'box, 'signed) dryoc \<Rightarrow> string \<Rightarrow> ('w, string) io" where
  "argon2id_hash L password =
    io_then (io_unwrap_or_else (hash_with_defaults L (as_bytes password)) (crypto_error ''Argon2id hashing failed''))
      (\<lambda>hash. io_pure (unwrap_or_else (to_encoded_string L hash) (crypto_error ''Argon2id encoding failed'')))"

definition argon2id_verify :: "('w, 'pw, 'env, 'sbox, 'box, 'signed) dryoc \<Rightarrow> string \<Rightarrow> string \<Rightarrow> bool" where
  "argon2id_verify L password encoded_hash =
    is_ok (and_then (from_string_with_defaults L encoded_hash) (\<lambda>hash. pw_verify L hash (as_bytes password)))"

definition xchacha20poly1305_encrypt ::
  "('w, 'pw, 'env, 'sbox, 'box, 'signed) dryoc \<Rightarrow> bytes \<Rightarrow> bytes \<Rightarrow> bytes \<Rightarrow> ('w, bytes) io" where
  "xchacha20poly1305_encrypt L data key associated_data =
    io_then (io_pure (exact_array (AEAD_KEYBYTES L) key ''XChaCha20-Poly1305 key'')) (\<lambda>key.
    io_then (io_unwrap_or_else (aead_seal_to_vec L data (Some associated_data) key)
        (crypto_error ''XChaCha20-Poly1305 encryption failed''))
      (\<lambda>envelope. io_pure (Inr (env_into_vec L envelope))))"

definition xchacha20poly1305_decrypt ::
  "('w, 'pw, 'env, 'sbox, 'box, 'signed) dryoc \<Rightarrow> bytes \<Rightarrow> bytes \<Rightarrow> bytes \<Rightarrow> bytes result" where
  "xchacha20poly1305_decrypt L data key associated_data =
    and_then (exact_array (AEAD_KEYBYTES L) key ''XChaCha20-Poly1305 key'') (\<lambda>key.
    and_then (unwrap_or_else (env_from_bytes L data) (crypto_error ''invalid XChaCha20-Poly1305 envelope'')) (\<lambda>envelope.
    unwrap_or_else (env_open_to_vec L envelope (Some associated_data) key)
      (crypto_error ''XChaCha20-Poly1305 authentication failed'')))"

definition secretbox :: "('w, 'pw, 'env, 'sbox, 'box, 'signed) dryoc \<Rightarrow> bytes \<Rightarrow> bytes \<Rightarrow> ('w, bytes) io" where
  "secretbox L data key =
    io_then (io_pure (exact_array (SECRETBOX_KEYBYTES L) key ''secretbox key'')) (\<lambda>key w.
      case nonce_generate L w of (nonce, w') \<Rightarrow>
        (Inr (nonce @ sbox_to_vec L (encrypt_to_vecbox L data nonce key)), w'))"

definition secretbox_open :: "('w, 'pw, 'env, 'sbox, 'box, 'signed) dryoc \<Rightarrow> bytes \<Rightarrow> bytes \<Rightarrow> bytes result" where
  "secretbox_open L data key =
    (if length data < SECRETBOX_NONCEBYTES L + SECRETBOX_MACBYTES L
     then raise_error ''secretbox envelope is too short''
     else
       and_then (exact_array (SECRETBOX_KEYBYTES L) key ''secretbox key'') (\<lambda>key.
       and_then (slice_range data 0 (SECRETBOX_NONCEBYTES L)) (\<lambda>nonce.
       and_then (exact_array (SECRETBOX_NONCEBYTES L) nonce ''secretbox nonce'') (\<lambda>nonce.
       and_then (slice_range data (SECRETBOX_NONCEBYTES L) (length data)) (\<lambda>rest.
       and_then (unwrap_or_else (sbox_from_bytes L rest) (crypto_error ''invalid secretbox envelope'')) (\<lambda>sbox.
       unwrap_or_else (sbox_decrypt_to_vec L sbox nonce key) (crypto_error ''secretbox authentication failed'')))))))"

definition box_seal :: "('w, 'pw, 'env, 'sbox, 'box, 'signed) dryoc \<Rightarrow> bytes \<Rightarrow> bytes \<Rightarrow> ('w, bytes) io" where
  "box_seal L data recipient_public_key =
    io_then (io_pure (exact_array (BOX_PUBLICKEYBYTES L) recipient_public_key ''X25519 public key'')) (\<lambda>public_key.
    io_then (io_unwrap_or_else (seal_to_vecbox L data public_key) (crypto_error ''sealed-box encryption failed''))
      (\<lambda>box. io_pure (Inr (box_to_bytes L box))))"

definition box_seal_open ::
  "('w, 'pw, 'env, 'sbox, 'box, 'signed) dryoc \<Rightarrow> bytes \<Rightarrow> bytes \<Rightarrow> bytes \<Rightarrow> bytes result" where
  "box_seal_open L data recipient_public_key recipient_secret_key =
    (if length data < BOX_SEALBYTES L then raise_error ''sealed box is too short''
     else
       and_then (exact_array (BOX_PUBLICKEYBYTES L) recipient_public_key ''X25519 public key'') (\<lambda>public_key.
       and_then (exact_array (BOX_SECRETKEYBYTES L) recipient_secret_key ''X25519 secret key'') (\<lambda>secret_key.
       and_then (slice_range data 0 (BOX_PUBLICKEYBYTES L)) (\<lambda>epk.
       and_then (exact_array (BOX_PUBLICKEYBYTES L) epk ''sealed-box ephemeral public key'') (\<lambda>epk.
       and_then (slice_range data (BOX_PUBLICKEYBYTES L) (BOX_SEALBYTES L)) (\<lambda>mac.
       and_then (exact_array (BOX_MACBYTES L) mac ''sealed-box MAC'') (\<lambda>mac.
       and_then (slice_range data (BOX_SEALBYTES L) (length data)) (\<lambda>rest.
       unwrap_or_else (unseal_to_vec L (new_with_epk_data_and_mac L epk mac rest) (public_key, secret_key))
         (crypto_error ''sealed-box authentication failed'')))))))))"

definition ed25519_sign :: "('w, 'pw, 'env, 'sbox, 'box, 'signed) dryoc \<Rightarrow> bytes \<Rightarrow> bytes \<Rightarrow> bytes result" where
  "ed25519_sign L data secret_key =
    and_then (exact_array (SIGN_SECRETKEYBYTES L) secret_key ''Ed25519 secret key'') (\<lambda>secret_key.
    let public_key = secret_key_to_public_key L secret_key in
    and_then (unwrap_or_else (sign_with_defaults L (public_key, secret_key) data) (crypto_error ''Ed25519 signing failed''))
      (\<lambda>signed. slice_range (signed_to_vec L signed) 0 (SIGN_BYTES L)))"

definition ed25519_verify :: "('w, 'pw, 'env, 'sbox, 'box, 'signed) dryoc \<Rightarrow> bytes \<Rightarrow> bytes \<Rightarrow> bytes \<Rightarrow> bool result" where
  "ed25519_verify L data signature public_key =
    and_then (exact_array (SIGN_BYTES L) signature ''Ed25519 signature'') (\<lambda>signature.
    and_then (exact_array (SIGN_PUBLICKEYBYTES L) public_key ''Ed25519 public key'') (\<lambda>public_key.
    Inr (is_ok (and_then (signed_from_bytes L (signature @ data)) (\<lambda>message. signed_verify L message public_key)))))"

definition x25519 :: "('w, 'pw, 'env, 'sbox, 'box, 'signed) dryoc \<Rightarrow> bytes \<Rightarrow> bytes \<Rightarrow> bytes result" where
  "x25519 L secret_key public_key =
    and_then (if length secret_key = BOX_SECRETKEYBYTES L then Inr secret_key
      else raise_error (''X25519 secret key must be exactly '' @ show_nat (BOX_SECRETKEYBYTES L) @ '' bytes'')) (\<lambda>secret.
    and_then (if length public_key = BOX_PUBLICKEYBYTES L then Inr public_key
      else raise_error (''X25519 public key must be exactly '' @ show_nat (BOX_PUBLICKEYBYTES L) @ '' bytes'')) (\<lambda>public.
    unwrap_or_else (crypto_scalarmult L (replicate (BOX_SECRETKEYBYTES L) 0) secret public)
      (crypto_error ''X25519 key agreement failed'')))"

definition validate_hkdf_length :: "i32 \<Rightarrow> bytes result" where
  "validate_hkdf_length len =
    (if \<not> (1 \<le> sint len \<and> sint len \<le> 16320)
     then raise_error ''HKDF output length must be between 1 and 16320 bytes''
     else if sint len < 0 then panic ''positive HKDF length''
     else Inr (replicate (nat (sint len)) 0))"

definition hkdf_sha256 ::
  "('w, 'pw, 'env, 'sbox, 'box, 'signed) dryoc \<Rightarrow> bytes \<Rightarrow> bytes \<Rightarrow> bytes \<Rightarrow> i32 \<Rightarrow> bytes result" where
  "hkdf_sha256 L key_material salt info len =
    and_then (validate_hkdf_length len) (\<lambda>output.
    unwrap_or_else (hkdf_expand_sha256 L (Some salt) key_material info output)
      (\<lambda>_. PgError ''HKDF-SHA256 output length is too large''))"

definition hkdf_sha512 ::
  "('w, 'pw, 'env, 'sbox, 'box, 'signed) dryoc \<Rightarrow> bytes \<Rightarrow> bytes \<Rightarrow> bytes \<Rightarrow> i32 \<Rightarrow> bytes result" where
  "hkdf_sha512 L key_material salt info len =
    and_then (validate_hkdf_length len) (\<lambda>output.
    unwrap_or_else (hkdf_expand_sha512 L (Some salt) key_material info output)
      (\<lambda>_. PgError ''HKDF-SHA512 output length is too large''))"

section \<open>What the libraries promise\<close>

definition secretbox_conform :: "('w, 'pw, 'env, 'sbox, 'box, 'signed) dryoc \<Rightarrow> bool" where
  "secretbox_conform L \<longleftrightarrow>
    (\<forall>w. length (fst (nonce_generate L w)) = SECRETBOX_NONCEBYTES L) \<and>
    (\<forall>d n k. length (sbox_to_vec L (encrypt_to_vecbox L d n k)) = SECRETBOX_MACBYTES L + length d \<and>
      (\<exists>b. sbox_from_bytes L (sbox_to_vec L (encrypt_to_vecbox L d n k)) = Inr b \<and>
        sbox_decrypt_to_vec L b n k = Inr d))"

definition aead_conform :: "('w, 'pw, 'env, 'sbox, 'box, 'signed) dryoc \<Rightarrow> bool" where
  "aead_conform L \<longleftrightarrow>
    (\<forall>d ad k w env w'. aead_seal_to_vec L d ad k w = (Inr env, w') \<longrightarrow>
      (\<exists>e. env_from_bytes L (env_into_vec L env) = Inr e \<and> env_open_to_vec L e ad k = Inr d))"

text \<open>For a key pair that belongs together: a sealed box is the ephemeral key, the MAC and the rest.\<close>

definition box_sizes_ok :: "('w, 'pw, 'env, 'sbox, 'box, 'signed) dryoc \<Rightarrow> bool" where
  "box_sizes_ok L \<longleftrightarrow> BOX_SEALBYTES L = BOX_PUBLICKEYBYTES L + BOX_MACBYTES L"

definition box_conform :: "('w, 'pw, 'env, 'sbox, 'box, 'signed) dryoc \<Rightarrow> bytes \<Rightarrow> bytes \<Rightarrow> bool" where
  "box_conform L pk sk \<longleftrightarrow> box_sizes_ok L \<and> length sk = BOX_SECRETKEYBYTES L \<and>
    (\<forall>d w b w'. seal_to_vecbox L d pk w = (Inr b, w') \<longrightarrow>
      (\<exists>epk mac ct. box_to_bytes L b = epk @ mac @ ct \<and> length epk = BOX_PUBLICKEYBYTES L \<and>
        length mac = BOX_MACBYTES L \<and> length ct = length d \<and>
        unseal_to_vec L (new_with_epk_data_and_mac L epk mac ct) (pk, sk) = Inr d))"

text \<open>A signed message is the signature and the message, and verifies under the key's public part.\<close>

definition sign_conform :: "('w, 'pw, 'env, 'sbox, 'box, 'signed) dryoc \<Rightarrow> bool" where
  "sign_conform L \<longleftrightarrow>
    (\<forall>sk d s. length sk = SIGN_SECRETKEYBYTES L \<longrightarrow>
      length (secret_key_to_public_key L sk) = SIGN_PUBLICKEYBYTES L \<and>
      (sign_with_defaults L (secret_key_to_public_key L sk, sk) d = Inr s \<longrightarrow>
        (\<exists>sig m. signed_to_vec L s = sig @ d \<and> length sig = SIGN_BYTES L \<and>
          signed_from_bytes L (sig @ d) = Inr m \<and> signed_verify L m (secret_key_to_public_key L sk) = Inr ())))"

text \<open>RFC 5869: HKDF fills a buffer of at most 255 blocks of the hash.\<close>

definition hkdf_conform :: "('w, 'pw, 'env, 'sbox, 'box, 'signed) dryoc \<Rightarrow> bool" where
  "hkdf_conform L \<longleftrightarrow>
    (\<forall>salt ikm info buf.
      (case hkdf_expand_sha256 L salt ikm info buf of
         Inr out \<Rightarrow> length buf \<le> 255 * 32 \<and> length out = length buf | Inl e \<Rightarrow> 255 * 32 < length buf) \<and>
      (case hkdf_expand_sha512 L salt ikm info buf of
         Inr out \<Rightarrow> length buf \<le> 255 * 64 \<and> length out = length buf | Inl e \<Rightarrow> 255 * 64 < length buf))"

section \<open>Envelopes\<close>

text \<open>
  The contract of the three pairs of functions that seal and open data. Where \<open>ok\<close> holds, which
  is what the libraries promise, opening undoes sealing. An envelope with a fixed overhead
  tells the length of its content, and too short a vector is none.
\<close>

locale sealed_envelope =
  fixes ok :: bool
    and seal :: "bytes \<Rightarrow> ('w, bytes) io"
    and open_env :: "bytes \<Rightarrow> bytes result"
  assumes open_seal: "ok \<Longrightarrow> seal d w = (Inr e, w') \<Longrightarrow> open_env e = Inr d"
begin

lemma seal_inject: "ok \<Longrightarrow> seal d w = (Inr e, w') \<Longrightarrow> seal d' v = (Inr e, v') \<Longrightarrow> d = d'"
  by (metis open_seal sum.inject(2))

end

locale fixed_overhead = sealed_envelope ok seal open_env
  for ok :: bool and seal :: "bytes \<Rightarrow> ('w, bytes) io" and open_env :: "bytes \<Rightarrow> bytes result" +
  fixes overhead :: nat
  assumes seal_length: "ok \<Longrightarrow> seal d w = (Inr e, w') \<Longrightarrow> length e = overhead + length d"
    and open_short: "length e < overhead \<Longrightarrow> \<not> is_ok (open_env e)"
begin

lemma open_length:
  "ok \<Longrightarrow> seal d w = (Inr e, w') \<Longrightarrow> \<exists>out. open_env e = Inr out \<and> length out = length e - overhead"
  by (simp add: open_seal seal_length)

lemma same_length:
  "ok \<Longrightarrow> seal d w = (Inr e, w') \<Longrightarrow> seal d' v = (Inr e', v') \<Longrightarrow> length e = length e' \<longleftrightarrow> length d = length d'"
  by (simp add: seal_length)

end

lemma exact_array_eq [simp]: "exact_array N bs what = Inr xs \<longleftrightarrow> length bs = N \<and> xs = bs"
  by (auto simp: exact_array_def)

lemma exact_array_id [simp]: "length bs = N \<Longrightarrow> exact_array N bs what = Inr bs"
  by simp

lemma exact_array_no_panic [no_panics]: "no_panic (exact_array N bs what)"
  by (simp add: exact_array_def)


lemma secretbox_eq_Inr:
  "secretbox L d key w = (Inr e, w') \<longleftrightarrow> length key = SECRETBOX_KEYBYTES L \<and> nonce_generate L w = (fst (nonce_generate L w), w') \<and>
    e = fst (nonce_generate L w) @ sbox_to_vec L (encrypt_to_vecbox L d (fst (nonce_generate L w)) key)"
  by (cases "nonce_generate L w") (auto simp: secretbox_def io_then_eq_Inr io_pure_eq)

interpretation sbox_env: fixed_overhead "secretbox_conform L" "\<lambda>d. secretbox L d key" "\<lambda>e. secretbox_open L e key"
  "SECRETBOX_NONCEBYTES L + SECRETBOX_MACBYTES L"
proof unfold_locales
  fix d w e w'
  assume L: "secretbox_conform L" and sealed: "secretbox L d key w = (Inr e, w')"
  obtain n where n: "length n = SECRETBOX_NONCEBYTES L" and key: "length key = SECRETBOX_KEYBYTES L"
    and e: "e = n @ sbox_to_vec L (encrypt_to_vecbox L d n key)"
    using L sealed unfolding secretbox_eq_Inr secretbox_conform_def by blast
  obtain b where b: "sbox_from_bytes L (sbox_to_vec L (encrypt_to_vecbox L d n key)) = Inr b"
      "sbox_decrypt_to_vec L b n key = Inr d"
    and len: "length (sbox_to_vec L (encrypt_to_vecbox L d n key)) = SECRETBOX_MACBYTES L + length d"
    using L unfolding secretbox_conform_def by blast
  show "length e = SECRETBOX_NONCEBYTES L + SECRETBOX_MACBYTES L + length d"
    using n len e by simp
  show "secretbox_open L e key = Inr d"
    using n len b key by (simp add: secretbox_open_def e)
qed (simp add: secretbox_open_def)

lemma box_seal_eq_Inr:
  "box_seal L d pk w = (Inr e, w') \<longleftrightarrow> length pk = BOX_PUBLICKEYBYTES L \<and>
    (\<exists>b. seal_to_vecbox L d pk w = (Inr b, w') \<and> e = box_to_bytes L b)"
  by (auto simp: box_seal_def io_then_eq_Inr io_unwrap_eq_Inr io_pure_eq)

interpretation box_env: fixed_overhead "box_conform L pk sk" "\<lambda>d. box_seal L d pk" "\<lambda>e. box_seal_open L e pk sk"
  "BOX_SEALBYTES L"
proof unfold_locales
  fix d w e w'
  assume L: "box_conform L pk sk" and sealed: "box_seal L d pk w = (Inr e, w')"
  obtain epk mac ct where e: "e = epk @ mac @ ct" and pk: "length pk = BOX_PUBLICKEYBYTES L"
    and len: "length epk = BOX_PUBLICKEYBYTES L" "length mac = BOX_MACBYTES L" "length ct = length d"
    and d: "unseal_to_vec L (new_with_epk_data_and_mac L epk mac ct) (pk, sk) = Inr d"
    using L sealed unfolding box_seal_eq_Inr box_conform_def by metis
  have sizes: "BOX_SEALBYTES L = BOX_PUBLICKEYBYTES L + BOX_MACBYTES L" "length sk = BOX_SECRETKEYBYTES L"
    using L by (simp_all add: box_conform_def box_sizes_ok_def)
  show "length e = BOX_SEALBYTES L + length d" using e len sizes by simp
  show "box_seal_open L e pk sk = Inr d" using len sizes pk d by (simp add: box_seal_open_def e)
qed (simp add: box_seal_open_def)

interpretation aead_env: sealed_envelope "aead_conform L" "\<lambda>d. xchacha20poly1305_encrypt L d key ad"
  "\<lambda>e. xchacha20poly1305_decrypt L e key ad"
proof unfold_locales
  fix d w e w'
  assume L: "aead_conform L" and sealed: "xchacha20poly1305_encrypt L d key ad w = (Inr e, w')"
  obtain env where key: "length key = AEAD_KEYBYTES L" and e: "e = env_into_vec L env"
    and env: "aead_seal_to_vec L d (Some ad) key w = (Inr env, w')"
    using sealed by (auto simp: xchacha20poly1305_encrypt_def io_then_eq_Inr io_unwrap_eq_Inr io_pure_eq)
  obtain e' where "env_from_bytes L (env_into_vec L env) = Inr e'" "env_open_to_vec L e' (Some ad) key = Inr d"
    using L env unfolding aead_conform_def by blast
  then show "xchacha20poly1305_decrypt L e key ad = Inr d"
    using key by (simp add: xchacha20poly1305_decrypt_def e)
qed

section \<open>An instance\<close>

text \<open>
  XOR with a byte made of the key, tags and signatures that repeat such a byte, and \<open>dryoc\<close>'s
  sizes; a box's public and secret key are the same.
\<close>

definition mask :: "bytes \<Rightarrow> u8" where
  "mask k = foldr xor k 0"

definition masked :: "bytes \<Rightarrow> bytes \<Rightarrow> bytes" where
  "masked k d = map (\<lambda>b. xor b (mask k)) d"

definition xor_dryoc :: "(nat, bytes, bytes, bytes, bytes, bytes) dryoc" where
  "xor_dryoc = \<lparr> AEAD_KEYBYTES = 32, SECRETBOX_KEYBYTES = 32, SECRETBOX_NONCEBYTES = 24, SECRETBOX_MACBYTES = 16,
     BOX_PUBLICKEYBYTES = 32, BOX_SECRETKEYBYTES = 32, BOX_MACBYTES = 16, BOX_SEALBYTES = 48,
     SIGN_SECRETKEYBYTES = 64, SIGN_PUBLICKEYBYTES = 32, SIGN_BYTES = 64,
     hash_with_defaults = (\<lambda>p w. (Inr p, w + 1)), to_encoded_string = (\<lambda>h. Inr (string_of_bytes h)),
     from_string_with_defaults = (\<lambda>s. Inr (as_bytes s)), pw_verify = (\<lambda>h p. if h = p then Inr () else Inl ''mismatch''),
     aead_seal_to_vec = (\<lambda>d ad k w. (Inr (masked k d), w + 1)), env_into_vec = (\<lambda>e. e), env_from_bytes = Inr,
     env_open_to_vec = (\<lambda>e ad k. Inr (masked k e)),
     nonce_generate = (\<lambda>w. (replicate 24 (of_nat w), w + 1)),
     encrypt_to_vecbox = (\<lambda>d n k. replicate 16 (mask k) @ masked k d), sbox_to_vec = (\<lambda>b. b),
     sbox_from_bytes = (\<lambda>b. if length b < 16 then Inl ''short'' else Inr b),
     sbox_decrypt_to_vec = (\<lambda>b n k. if take 16 b = replicate 16 (mask k) then Inr (masked k (drop 16 b)) else Inl ''forged''),
     seal_to_vecbox = (\<lambda>d pk w. (Inr (replicate 32 (of_nat w) @ replicate 16 (mask pk) @ masked pk d), w + 1)),
     box_to_bytes = (\<lambda>b. b), new_with_epk_data_and_mac = (\<lambda>epk mac d. epk @ mac @ d),
     unseal_to_vec = (\<lambda>b (pk, sk). if take 16 (drop 32 b) = replicate 16 (mask sk) then Inr (masked sk (drop 48 b))
       else Inl ''forged''),
     secret_key_to_public_key = take 32,
     sign_with_defaults = (\<lambda>(pk, sk) d. Inr (replicate 64 (xor (mask pk) (mask d)) @ d)), signed_to_vec = (\<lambda>s. s),
     signed_from_bytes = Inr,
     signed_verify = (\<lambda>m pk. if take 64 m = replicate 64 (xor (mask pk) (mask (drop 64 m))) then Inr () else Inl ''forged''),
     crypto_scalarmult = (\<lambda>buf s p. Inr (map2 xor s p)),
     hkdf_expand_sha256 = (\<lambda>salt ikm info buf. if length buf \<le> 8160 then Inr (map (\<lambda>b. mask ikm) buf) else Inl ''invalid length''),
     hkdf_expand_sha512 = (\<lambda>salt ikm info buf. if length buf \<le> 16320 then Inr (map (\<lambda>b. mask ikm) buf) else Inl ''invalid length'') \<rparr>"

lemma masked_masked [simp]: "masked k (masked k d) = d"
  by (simp add: masked_def comp_def xor.assoc)

lemma length_masked [simp]: "length (masked k d) = length d"
  by (simp add: masked_def)

lemma xor_dryoc_conform:
  "secretbox_conform xor_dryoc" "aead_conform xor_dryoc" "length pk = 32 \<Longrightarrow> box_conform xor_dryoc pk pk"
  "sign_conform xor_dryoc" "hkdf_conform xor_dryoc"
proof -
  show "secretbox_conform xor_dryoc" by (simp add: secretbox_conform_def xor_dryoc_def)
  show "aead_conform xor_dryoc" by (auto simp: aead_conform_def xor_dryoc_def)
  show "box_conform xor_dryoc pk pk" if "length pk = 32"
    unfolding box_conform_def
  proof (intro conjI allI impI)
    fix d w b w'
    assume "seal_to_vecbox xor_dryoc d pk w = (Inr b, w')"
    then have "b = replicate 32 (of_nat w) @ replicate 16 (mask pk) @ masked pk d" by (auto simp: xor_dryoc_def)
    then show "\<exists>epk mac ct. box_to_bytes xor_dryoc b = epk @ mac @ ct \<and> length epk = BOX_PUBLICKEYBYTES xor_dryoc \<and>
        length mac = BOX_MACBYTES xor_dryoc \<and> length ct = length d \<and>
        unseal_to_vec xor_dryoc (new_with_epk_data_and_mac xor_dryoc epk mac ct) (pk, pk) = Inr d"
      by (intro exI [of _ "replicate 32 (of_nat w)"] exI [of _ "replicate 16 (mask pk)"] exI [of _ "masked pk d"])
        (simp add: xor_dryoc_def)
  qed (use that in \<open>simp_all add: box_sizes_ok_def xor_dryoc_def\<close>)
  show "sign_conform xor_dryoc" by (auto simp: sign_conform_def xor_dryoc_def)
  show "hkdf_conform xor_dryoc" by (auto simp: hkdf_conform_def xor_dryoc_def)
qed

section \<open>Properties\<close>

text \<open>
  C10. A secretbox opens under its key to the data it was made of, is the nonce and MAC longer
  than the data, and begins with the nonce that was drawn for it. A vector shorter than nonce
  and MAC is reported as such, before the key is looked at.
\<close>

theorem secretbox_round_trip:
  assumes "secretbox_conform L" and "secretbox L data key w = (Inr e, w')"
  shows "secretbox_open L e key = Inr data \<and>
    length e = SECRETBOX_NONCEBYTES L + SECRETBOX_MACBYTES L + length data \<and>
    take (SECRETBOX_NONCEBYTES L) e = fst (nonce_generate L w) \<and>
    (\<forall>e' key'. length e' < SECRETBOX_NONCEBYTES L + SECRETBOX_MACBYTES L \<longrightarrow>
      secretbox_open L e' key' = raise_error ''secretbox envelope is too short'')"
proof -
  have "take (SECRETBOX_NONCEBYTES L) e = fst (nonce_generate L w)"
    using assms by (simp add: secretbox_eq_Inr secretbox_conform_def)
  moreover have "secretbox_open L e' key' = raise_error ''secretbox envelope is too short''"
    if "length e' < SECRETBOX_NONCEBYTES L + SECRETBOX_MACBYTES L" for e' key'
    using that by (simp add: secretbox_open_def)
  ultimately show ?thesis
    using sbox_env.open_seal [OF assms] sbox_env.seal_length [OF assms] by blast
qed

theorem secretbox_round_trip_witness:
  "secretbox xor_dryoc [1, 2, 3] (replicate 32 5) 9 =
     (Inr (replicate 24 9 @ replicate 16 (mask (replicate 32 5)) @ masked (replicate 32 5) [1, 2, 3]), 10) \<and>
   secretbox_open xor_dryoc (replicate 24 9 @ replicate 16 (mask (replicate 32 5)) @ masked (replicate 32 5) [1, 2, 3])
     (replicate 32 5) = Inr [1, 2, 3]"
proof -
  have "secretbox xor_dryoc [1, 2, 3] (replicate 32 5) 9 =
     (Inr (replicate 24 9 @ replicate 16 (mask (replicate 32 5)) @ masked (replicate 32 5) [1, 2, 3]), 10)"
    by (simp add: secretbox_def xor_dryoc_def io_run)
  then show ?thesis using secretbox_round_trip [OF xor_dryoc_conform(1)] by blast
qed

text \<open>
  C11. A sealed box opens under the recipient's key pair to the data it was made of, and is
  longer than the data by the ephemeral public key and the MAC: the three slices
  \<open>box_seal_open\<close> takes are the parts the box was made of.
\<close>

theorem box_seal_round_trip:
  assumes "box_conform L pk sk" and "box_seal L data pk w = (Inr e, w')"
  shows "box_seal_open L e pk sk = Inr data \<and>
    length e = BOX_PUBLICKEYBYTES L + BOX_MACBYTES L + length data"
  using box_env.open_seal [OF assms] box_env.seal_length [OF assms] assms(1)
  by (simp add: box_conform_def box_sizes_ok_def)

theorem box_seal_round_trip_witness:
  "box_seal_open xor_dryoc
     (replicate 32 9 @ replicate 16 (mask (replicate 32 5)) @ masked (replicate 32 5) [1, 2, 3])
     (replicate 32 5) (replicate 32 5) = Inr [1, 2, 3]"
proof -
  have "box_seal xor_dryoc [1, 2, 3] (replicate 32 5) 9 =
     (Inr (replicate 32 9 @ replicate 16 (mask (replicate 32 5)) @ masked (replicate 32 5) [1, 2, 3]), 10)"
    by (simp add: box_seal_def xor_dryoc_def io_run)
  then show ?thesis using box_seal_round_trip [OF xor_dryoc_conform(3) [of "replicate 32 5"]] by simp
qed

text \<open>
  C12. A signature has the fixed length and verifies: \<open>ed25519_sign\<close> cuts it off the signed
  message, and \<open>ed25519_verify\<close>, which puts it in front of the data again, accepts it under the
  public key of the secret key.
\<close>

theorem ed25519_sign_verify:
  assumes "sign_conform L" and "ed25519_sign L data sk = Inr sig"
  shows "length sig = SIGN_BYTES L \<and>
    ed25519_verify L data sig (secret_key_to_public_key L sk) = Inr True"
proof -
  obtain s where sk: "length sk = SIGN_SECRETKEYBYTES L"
    and s: "sign_with_defaults L (secret_key_to_public_key L sk, sk) data = Inr s"
    and sig: "slice_range (signed_to_vec L s) 0 (SIGN_BYTES L) = Inr sig"
    using assms(2) by (auto simp: ed25519_sign_def and_then_eq_Inr unwrap_or_else_eq_Inr Let_def)
  obtain sig' m where "signed_to_vec L s = sig' @ data" and "length sig' = SIGN_BYTES L"
    and "signed_from_bytes L (sig' @ data) = Inr m" and "signed_verify L m (secret_key_to_public_key L sk) = Inr ()"
    and "length (secret_key_to_public_key L sk) = SIGN_PUBLICKEYBYTES L"
    using assms(1) sk s unfolding sign_conform_def by blast
  moreover from this have "sig = sig'" using sig by simp
  ultimately show ?thesis by (simp add: ed25519_verify_def)
qed

theorem ed25519_sign_verify_witness:
  "ed25519_verify xor_dryoc [1, 2] (replicate 64 (xor (mask (replicate 32 5)) (mask [1, 2]))) (replicate 32 5) = Inr True"
proof -
  have "ed25519_sign xor_dryoc [1, 2] (replicate 64 5) = Inr (replicate 64 (xor (mask (replicate 32 5)) (mask [1, 2])))"
    by (simp add: ed25519_sign_def xor_dryoc_def)
  from ed25519_sign_verify [OF xor_dryoc_conform(4) this] show ?thesis by (simp add: xor_dryoc_def)
qed

text \<open>
  C30. Which lengths HKDF gives. Both functions refuse a length outside 1 to 16320 with the error
  that says so. SHA-512 gives every length in it. SHA-256 gives lengths up to 8160 only; from
  8161 to 16320, which the range check admits, it fails with its other error.
\<close>

theorem hkdf_lengths:
  assumes "hkdf_conform L"
  shows "(if 1 \<le> sint len \<and> sint len \<le> 16320 then
      (\<exists>out. hkdf_sha512 L ikm salt info len = Inr out \<and> int (length out) = sint len) \<and>
      (if sint len \<le> 8160 then \<exists>out. hkdf_sha256 L ikm salt info len = Inr out \<and> int (length out) = sint len
       else hkdf_sha256 L ikm salt info len = raise_error ''HKDF-SHA256 output length is too large'')
    else hkdf_sha256 L ikm salt info len = raise_error ''HKDF output length must be between 1 and 16320 bytes'' \<and>
      hkdf_sha512 L ikm salt info len = raise_error ''HKDF output length must be between 1 and 16320 bytes'')"
proof (cases "1 \<le> sint len \<and> sint len \<le> 16320")
  case True
  let ?buf = "replicate (nat (sint len)) 0 :: bytes"
  have buf: "validate_hkdf_length len = Inr ?buf" using True by (simp add: validate_hkdf_length_def)
  have len: "int (length ?buf) = sint len" using True by simp
  have e256: "case hkdf_expand_sha256 L (Some salt) ikm info ?buf of
      Inr out \<Rightarrow> length ?buf \<le> 255 * 32 \<and> length out = length ?buf | Inl e \<Rightarrow> 255 * 32 < length ?buf"
    and e512: "case hkdf_expand_sha512 L (Some salt) ikm info ?buf of
      Inr out \<Rightarrow> length ?buf \<le> 255 * 64 \<and> length out = length ?buf | Inl e \<Rightarrow> 255 * 64 < length ?buf"
    using assms unfolding hkdf_conform_def by blast+
  have "\<exists>out. hkdf_sha512 L ikm salt info len = Inr out \<and> int (length out) = sint len"
    using e512 len True by (cases "hkdf_expand_sha512 L (Some salt) ikm info ?buf") (auto simp: hkdf_sha512_def buf)
  moreover have "if sint len \<le> 8160 then \<exists>out. hkdf_sha256 L ikm salt info len = Inr out \<and> int (length out) = sint len
       else hkdf_sha256 L ikm salt info len = raise_error ''HKDF-SHA256 output length is too large''"
    using e256 len True by (cases "hkdf_expand_sha256 L (Some salt) ikm info ?buf") (auto simp: hkdf_sha256_def buf)
  ultimately show ?thesis using True by simp
next
  case False
  then show ?thesis by (auto simp: hkdf_sha256_def hkdf_sha512_def validate_hkdf_length_def)
qed

theorem hkdf_lengths_witness:
  "hkdf_sha256 xor_dryoc [1] [2] [3] 8161 = raise_error ''HKDF-SHA256 output length is too large'' \<and>
   (\<exists>out. hkdf_sha512 xor_dryoc [1] [2] [3] 8161 = Inr out \<and> int (length out) = 8161)"
  using hkdf_lengths [OF xor_dryoc_conform(5), of 8161 "[1]" "[2]" "[3]"] by simp

end
