(* ===== verification/Armor.thy ===== *)
theory Armor
  imports Rust_Std
begin

text \<open>
  Model of \<open>src/src/armor.rs\<close>: ASCII armor with and without headers, and its inverse. Sequoia's
  armor reader and writer are the parameter \<open>armor_lib\<close>.
\<close>

section \<open>Parameters\<close>

datatype Kind = Kind_Message | Kind_Other

datatype ReaderMode = Tolerant "Kind option" | VeryTolerant

text \<open>
  The writer (\<open>Writer::with_headers\<close> over an empty vector, \<open>write_all\<close>, \<open>finalize\<close>) and the reader
  (\<open>Reader::from_reader\<close>, \<open>read_to_end\<close>, \<open>headers\<close>).
\<close>

record ('wr, 'rd) armor_lib =
  writer_with_headers :: "Kind \<Rightarrow> (string \<times> string) list \<Rightarrow> 'wr lib_result"
  writer_write_all :: "'wr \<Rightarrow> bytes \<Rightarrow> 'wr lib_result"
  writer_finalize :: "'wr \<Rightarrow> bytes lib_result"
  reader_from_reader :: "bytes \<Rightarrow> ReaderMode \<Rightarrow> 'rd"
  reader_read_to_end :: "'rd \<Rightarrow> bytes lib_result"
  reader_headers :: "'rd \<Rightarrow> (string \<times> string) list lib_result"

text \<open>A SQL array of texts: its elements, \<open>None\<close> for NULL, and its number of dimensions.\<close>

record text_array =
  elements :: "string option list"
  ndim :: int

section \<open>Operations\<close>

definition armor_error :: "string \<Rightarrow> string \<Rightarrow> pg_error" where
  "armor_error ctx e = context_error ctx e"

definition encode_armor :: "('wr, 'rd) armor_lib \<Rightarrow> bytes \<Rightarrow> (string \<times> string) list \<Rightarrow> string result" where
  "encode_armor A data headers =
    and_then (unwrap_or_else (writer_with_headers A Kind_Message headers)
        (armor_error ''could not initialize ASCII armor'')) (\<lambda>writer.
    and_then (unwrap_or_else (writer_write_all A writer data) (armor_error ''could not encode ASCII armor'')) (\<lambda>writer.
    and_then (unwrap_or_else (writer_finalize A writer) (armor_error ''could not finalize ASCII armor'')) (\<lambda>out.
    unwrap_or_else (from_utf8 out) (armor_error ''ASCII armor was not UTF-8''))))"

definition armor :: "('wr, 'rd) armor_lib \<Rightarrow> bytes \<Rightarrow> string result" where
  "armor A data = encode_armor A data []"

text \<open>The closure that checks one header.\<close>

definition check_header :: "string \<times> string \<Rightarrow> (string \<times> string) result" where
  "check_header = (\<lambda>(key, val).
    if \<not> is_ascii key then raise_error ''armor header key must not contain non-ASCII characters''
    else if contains_str '': '' key then raise_error (''armor header key must not contain '' @ [CHR 0x27] @ '': '' @ [CHR 0x27])
    else if contains_char CHR 0x0A key then raise_error ''armor header key must not contain newlines''
    else if \<not> is_ascii val then raise_error ''armor header value must not contain non-ASCII characters''
    else if contains_char CHR 0x0A val then raise_error ''armor header value must not contain newlines''
    else Inr (key, val))"

definition armor_with_headers :: "('wr, 'rd) armor_lib \<Rightarrow> bytes \<Rightarrow> text_array \<Rightarrow> text_array \<Rightarrow> string result" where
  "armor_with_headers A data keys vals =
    and_then (map_result (\<lambda>key. ok_or key (PgError ''armor header keys cannot be NULL'')) (elements keys)) (\<lambda>key_array.
    and_then (map_result (\<lambda>val. ok_or val (PgError ''armor header values cannot be NULL'')) (elements vals)) (\<lambda>value_array.
    if ndim keys > 1 \<or> ndim keys \<noteq> ndim vals
    then raise_error ''wrong number of armor header array subscripts''
    else if length key_array \<noteq> length value_array
    then raise_error ''armor header arrays have mismatched dimensions''
    else and_then (map_result check_header (zip key_array value_array)) (\<lambda>headers. encode_armor A data headers)))"

definition dearmor :: "('wr, 'rd) armor_lib \<Rightarrow> string \<Rightarrow> bytes result" where
  "dearmor A data =
    unwrap_or_else (reader_read_to_end A (reader_from_reader A (as_bytes data) (Tolerant (Some Kind_Message))))
      (armor_error ''invalid ASCII armor'')"

definition pgp_armor_headers :: "('wr, 'rd) armor_lib \<Rightarrow> string \<Rightarrow> (string \<times> string) list result" where
  "pgp_armor_headers A data =
    unwrap_or_else (reader_headers A (reader_from_reader A (as_bytes data) (Tolerant (Some Kind_Message))))
      (armor_error ''invalid ASCII armor'')"

section \<open>Headers\<close>

text \<open>A header that fits on the line \<open>Key: Value\<close> and can be told apart there.\<close>

fun header_ok :: "string \<times> string \<Rightarrow> bool" where
  "header_ok (k, v) \<longleftrightarrow> is_ascii k \<and> is_ascii v \<and> \<not> sublist '': '' k \<and> CHR 0x0A \<notin> set k \<and> CHR 0x0A \<notin> set v"

text \<open>White space around key and value, and carriage returns, are not part of what a reader keeps.\<close>

fun tidy_header :: "string \<times> string \<Rightarrow> bool" where
  "tidy_header (k, v) \<longleftrightarrow> k \<noteq> [] \<and> trim k = k \<and> trim v = v \<and> CHR 0x0D \<notin> set k \<and> CHR 0x0D \<notin> set v"

lemma check_header_eq_Inr: "check_header h = Inr h' \<longleftrightarrow> h' = h \<and> header_ok h"
  by (cases h) (auto simp: check_header_def contains_str_iff contains_char_iff)

lemma check_headers_eq_Inr: "map_result check_header hs = Inr hs' \<longleftrightarrow> hs' = hs \<and> list_all header_ok hs"
  unfolding map_result_eq_Inr check_header_eq_Inr
  by (induction hs arbitrary: hs') (auto simp: list_all2_Cons1)

lemma not_null_eq_Inr: "map_result (\<lambda>x. ok_or x e) xs = Inr ys \<longleftrightarrow> xs = map Some ys"
  unfolding map_result_eq_Inr ok_or_eq_Inr
  by (induction xs arbitrary: ys) (auto simp: list_all2_Cons1)

lemma armor_with_headers_eq_Inr:
  "armor_with_headers A data keys vals = Inr s \<longleftrightarrow>
    (\<exists>ks vs. elements keys = map Some ks \<and> elements vals = map Some vs \<and> length ks = length vs \<and>
      ndim keys \<le> 1 \<and> ndim vals = ndim keys \<and> list_all header_ok (zip ks vs) \<and>
      encode_armor A data (zip ks vs) = Inr s)"
  by (auto simp: armor_with_headers_def and_then_eq_Inr not_null_eq_Inr check_headers_eq_Inr)

section \<open>What Sequoia promises\<close>

text \<open>
  The format (RFC 4880, section 6.2): a first line, a line \<open>Key: Value\<close> for each header as it was
  handed to the writer, an empty line, and the lines of the body, which \<open>body\<close> gives for the data.
  The reader takes the lines up to the empty one as headers, each split at its first separator, if
  all of them have one and none has surrounding white space or an empty key, and reads the data of
  the body. Nothing is assumed of headers that are not such lines: that the accepted headers are is
  to be proved.
\<close>

definition begin_line :: string where
  "begin_line = ''-----BEGIN PGP MESSAGE-----''"

definition header_line :: "string \<times> string \<Rightarrow> string" where
  "header_line = (\<lambda>(k, v). k @ '': '' @ v)"

fun split_header :: "string \<Rightarrow> (string \<times> string) option" where
  "split_header [] = None"
| "split_header (c # cs) = (if prefix '': '' (c # cs) then Some ([], drop 2 (c # cs))
     else map_option (\<lambda>(k, v). (c # k, v)) (split_header cs))"

definition readable_line :: "string \<Rightarrow> bool" where
  "readable_line l = (case split_header l of None \<Rightarrow> False | Some h \<Rightarrow> tidy_header h)"

definition armor_format :: "('wr, 'rd) armor_lib \<Rightarrow> (bytes \<Rightarrow> string list) \<Rightarrow> bool" where
  "armor_format A body \<longleftrightarrow>
    (\<forall>data l. l \<in> set (body data) \<longrightarrow> CHR 0x0A \<notin> set l) \<and>
    (\<forall>hs data wr wr' out. writer_with_headers A Kind_Message hs = Inr wr \<longrightarrow> writer_write_all A wr data = Inr wr' \<longrightarrow>
      writer_finalize A wr' = Inr out \<longrightarrow>
      out = as_bytes (join_with CHR 0x0A (begin_line # map header_line hs @ [] # body data))) \<and>
    (\<forall>s ls data. split_on CHR 0x0A s = begin_line # ls @ [] # body data \<longrightarrow> list_all readable_line ls \<longrightarrow>
      reader_headers A (reader_from_reader A (as_bytes s) (Tolerant (Some Kind_Message))) = Inr (map (the \<circ> split_header) ls) \<and>
      reader_read_to_end A (reader_from_reader A (as_bytes s) (Tolerant (Some Kind_Message))) = Inr data)"

text \<open>A weaker contract, which follows (\<open>armor_format_conform\<close>) and leaves the format open: armor with such headers is read back, body and headers.\<close>

definition armor_conform :: "('wr, 'rd) armor_lib \<Rightarrow> bool" where
  "armor_conform A \<longleftrightarrow>
    (\<forall>hs data wr wr' out. writer_with_headers A Kind_Message hs = Inr wr \<longrightarrow> writer_write_all A wr data = Inr wr' \<longrightarrow>
      writer_finalize A wr' = Inr out \<longrightarrow> list_all header_ok hs \<longrightarrow> list_all tidy_header hs \<longrightarrow>
      reader_read_to_end A (reader_from_reader A out (Tolerant (Some Kind_Message))) = Inr data \<and>
      reader_headers A (reader_from_reader A out (Tolerant (Some Kind_Message))) = Inr hs)"

lemma encode_armor_reads:
  assumes "armor_conform A" and "encode_armor A data hs = Inr s" and "list_all header_ok hs" and "list_all tidy_header hs"
  shows "dearmor A s = Inr data \<and> pgp_armor_headers A s = Inr hs"
proof -
  obtain wr wr' out where "writer_with_headers A Kind_Message hs = Inr wr" "writer_write_all A wr data = Inr wr'"
    "writer_finalize A wr' = Inr out" and out: "out = as_bytes s"
    using assms(2) by (auto simp: encode_armor_def and_then_eq_Inr unwrap_or_else_eq_Inr from_utf8_eq_Inr)
  then have "reader_read_to_end A (reader_from_reader A out (Tolerant (Some Kind_Message))) = Inr data \<and>
      reader_headers A (reader_from_reader A out (Tolerant (Some Kind_Message))) = Inr hs"
    using assms unfolding armor_conform_def by blast
  then show ?thesis by (simp add: dearmor_def pgp_armor_headers_def out)
qed

section \<open>Header lines\<close>

lemma split_header_line: "\<not> sublist '': '' k \<Longrightarrow> split_header (k @ '': '' @ v) = Some (k, v)"
proof (induction k)
  case (Cons c k)
  have "\<not> prefix '': '' ((c # k) @ '': '' @ v)"
    using Cons.prems by (cases k) (auto simp: sublist_Cons_right)
  moreover have "\<not> sublist '': '' k" using Cons.prems by (simp add: sublist_Cons_right)
  ultimately show ?case using Cons.IH by simp
qed simp

lemma header_line_back: "header_ok h \<Longrightarrow> split_header (header_line h) = Some h"
  using split_header_line by (cases h) (simp add: header_line_def)

lemma header_lines_back:
  "list_all header_ok hs \<Longrightarrow> map split_header (map header_line hs) = map Some hs"
  by (induction hs) (simp_all add: header_line_back)

lemma header_lines_readable:
  "list_all header_ok hs \<Longrightarrow> list_all tidy_header hs \<Longrightarrow> list_all readable_line (map header_line hs)"
  by (induction hs) (simp_all add: readable_line_def header_line_back)

lemma header_lines_join:
  assumes "list_all header_ok hs" and "\<And>l. l \<in> set body \<Longrightarrow> CHR 0x0A \<notin> set l"
  shows "split_on CHR 0x0A (join_with CHR 0x0A (begin_line # map header_line hs @ [] # body)) =
    begin_line # map header_line hs @ [] # body"
  using assms by (intro split_on_join_with) (auto simp: header_line_def begin_line_def list_all_iff)

lemma encode_armor_text:
  assumes "armor_format A body" and "encode_armor A data hs = Inr s"
  shows "s = join_with CHR 0x0A (begin_line # map header_line hs @ [] # body data)"
proof -
  obtain wr wr' where "writer_with_headers A Kind_Message hs = Inr wr" "writer_write_all A wr data = Inr wr'"
    "writer_finalize A wr' = Inr (as_bytes s)"
    using assms(2) by (auto simp: encode_armor_def and_then_eq_Inr unwrap_or_else_eq_Inr from_utf8_eq_Inr)
  then have "as_bytes s = as_bytes (join_with CHR 0x0A (begin_line # map header_line hs @ [] # body data))"
    using assms(1) unfolding armor_format_def by blast
  then show ?thesis by simp
qed

lemma encode_armor_lines:
  assumes "armor_format A body" and "encode_armor A data hs = Inr s" and "list_all header_ok hs"
  shows "split_on CHR 0x0A s = begin_line # map header_line hs @ [] # body data"
  unfolding encode_armor_text [OF assms(1,2)]
  using assms(1,3) by (intro header_lines_join) (auto simp: armor_format_def)

lemma armor_format_reads:
  assumes "armor_format A body" and "split_on CHR 0x0A s = begin_line # map header_line hs @ [] # body data"
    and "list_all header_ok hs" and "list_all tidy_header hs"
  shows "dearmor A s = Inr data \<and> pgp_armor_headers A s = Inr hs"
proof -
  have "map (the \<circ> split_header) (map header_line hs) = map the (map split_header (map header_line hs))" by simp
  also have "\<dots> = hs" unfolding header_lines_back [OF assms(3)] by (simp add: comp_def)
  finally have "map (the \<circ> split_header) (map header_line hs) = hs" .
  moreover have "reader_headers A (reader_from_reader A (as_bytes s) (Tolerant (Some Kind_Message))) =
        Inr (map (the \<circ> split_header) (map header_line hs)) \<and>
      reader_read_to_end A (reader_from_reader A (as_bytes s) (Tolerant (Some Kind_Message))) = Inr data"
    using assms(1,2) header_lines_readable [OF assms(3,4)] unfolding armor_format_def by blast
  ultimately show ?thesis by (simp add: dearmor_def pgp_armor_headers_def)
qed

lemma armor_format_conform:
  assumes "armor_format A body"
  shows "armor_conform A"
  unfolding armor_conform_def
proof (intro allI impI)
  fix hs data wr wr' out
  assume "writer_with_headers A Kind_Message hs = Inr wr" and "writer_write_all A wr data = Inr wr'"
    and "writer_finalize A wr' = Inr out" and hs: "list_all header_ok hs" "list_all tidy_header hs"
  then have out: "out = as_bytes (join_with CHR 0x0A (begin_line # map header_line hs @ [] # body data))"
    using assms unfolding armor_format_def by blast
  have "split_on CHR 0x0A (join_with CHR 0x0A (begin_line # map header_line hs @ [] # body data)) =
      begin_line # map header_line hs @ [] # body data"
    using assms by (intro header_lines_join hs) (auto simp: armor_format_def)
  from armor_format_reads [OF assms this hs]
  show "reader_read_to_end A (reader_from_reader A out (Tolerant (Some Kind_Message))) = Inr data \<and>
      reader_headers A (reader_from_reader A out (Tolerant (Some Kind_Message))) = Inr hs"
    by (simp add: dearmor_def pgp_armor_headers_def unwrap_or_else_eq_Inr out)
qed

section \<open>An instance\<close>

text \<open>The first line, header lines, an empty line, and a line with two letters for each byte.\<close>

definition byte_letters :: "u8 \<Rightarrow> string" where
  "byte_letters b = [char_of (65 + unat b div 16), char_of (65 + unat b mod 16)]"

fun letters_bytes :: "string \<Rightarrow> bytes" where
  "letters_bytes (a # b # s) = of_nat (16 * (ccode a - 65) + (ccode b - 65)) # letters_bytes s"
| "letters_bytes _ = []"

definition letter_body :: "bytes \<Rightarrow> string list" where
  "letter_body d = [concat (map byte_letters d)]"

definition line_armor :: "((string \<times> string) list \<times> bytes, string list) armor_lib" where
  "line_armor = \<lparr> writer_with_headers = (\<lambda>kind hs. Inr (hs, [])), writer_write_all = (\<lambda>(hs, d) data. Inr (hs, d @ data)),
     writer_finalize = (\<lambda>(hs, d). Inr (as_bytes (join_with CHR 0x0A (begin_line # map header_line hs @ [] # letter_body d)))),
     reader_from_reader = (\<lambda>bs mode. tl (split_on CHR 0x0A (string_of_bytes bs))),
     reader_read_to_end = (\<lambda>lines. case dropWhile (\<lambda>l. l \<noteq> []) lines of _ # body # _ \<Rightarrow> Inr (letters_bytes body) | _ \<Rightarrow> Inl ''no body''),
     reader_headers = (\<lambda>lines. map_result (\<lambda>l. ok_or (split_header l) ''malformed header'') (takeWhile (\<lambda>l. l \<noteq> []) lines)) \<rparr>"

lemma byte_letters_inverse: "letters_bytes (concat (map byte_letters d)) = d"
proof (induction d)
  case (Cons b d)
  have "unat b < 256" using unsigned_less [of b] by simp
  then have "(65 + unat b div 16) < 256" "(65 + unat b mod 16) < 256" by simp_all
  then have "16 * (ccode (char_of (65 + unat b div 16)) - 65) + (ccode (char_of (65 + unat b mod 16)) - 65) = unat b"
    by (simp add: ccode_def)
  with Cons show ?case by (simp add: byte_letters_def)
qed simp

lemma byte_letters_line: "CHR 0x0A \<notin> set (concat (map byte_letters d))"
proof -
  have letter: "CHR 0x0A \<noteq> char_of (65 + n)" if "n < 16" for n :: nat
  proof
    assume "CHR 0x0A = char_of (65 + n)"
    then have "char_of (65 + n) = CHR 0x0A" by (rule sym)
    then have "(of_char (char_of (65 + n)) :: nat) = of_char CHR 0x0A" by (rule arg_cong)
    moreover have "(65 + n) mod 256 = 65 + n" using that by simp
    ultimately show False by simp
  qed
  have "unat b div 16 < 16" for b :: u8
    using unsigned_less [of b, where 'a = nat] by simp
  then show ?thesis using letter by (fastforce simp: byte_letters_def)
qed

lemma readable_lines:
  assumes "list_all readable_line ls"
  shows "takeWhile (\<lambda>l. l \<noteq> []) (ls @ [] # body) = ls" and "dropWhile (\<lambda>l. l \<noteq> []) (ls @ [] # body) = [] # body"
    and "map_result (\<lambda>l. ok_or (split_header l) e) ls = Inr (map (the \<circ> split_header) ls)"
  using assms by (induction ls) (auto simp: readable_line_def split: option.splits)

lemma line_armor_format: "armor_format line_armor letter_body"
proof -
  have "CHR 0x0A \<notin> set l" if "l \<in> set (letter_body data)" for data l
    using that byte_letters_line [of data] by (simp add: letter_body_def)
  then show ?thesis
    unfolding armor_format_def line_armor_def
    by (auto simp: readable_lines letter_body_def byte_letters_inverse)
qed

lemma line_armor_conform: "armor_conform line_armor"
  using line_armor_format by (rule armor_format_conform)

section \<open>Properties\<close>

text \<open>
  C9. The headers \<open>armor_with_headers\<close> accepts are written so that they can be told apart. For every
  accepted pair of arrays the lines of the text between the first line and the first empty line are
  one line per header, and splitting each at its first separator gives back the keys and values in
  order. The checks are what makes each header a line of its own with a key that ends where the
  writer put the separator. If moreover every header is tidy, that is has a non-empty key, no white
  space around key or value and no carriage return, which the code does not check and a reader does
  not keep, then \<open>dearmor\<close> gives back the data and \<open>pgp_armor_headers\<close> the keys and values.
\<close>

theorem armor_headers_round_trip:
  assumes "armor_format A body" and "armor_with_headers A data keys vals = Inr s"
    and "hs = zip (map the (elements keys)) (map the (elements vals))"
  shows "(\<exists>ls. split_on CHR 0x0A s = begin_line # ls @ [] # body data \<and> list_all (\<lambda>l. l \<noteq> []) ls \<and>
      map split_header ls = map Some hs) \<and>
    (list_all tidy_header hs \<longrightarrow> dearmor A s = Inr data \<and> pgp_armor_headers A s = Inr hs)"
proof -
  obtain ks vs where "elements keys = map Some ks" "elements vals = map Some vs"
    and ok: "list_all header_ok (zip ks vs)" and enc: "encode_armor A data (zip ks vs) = Inr s"
    using assms(2) unfolding armor_with_headers_eq_Inr by blast
  then have hs: "zip ks vs = hs" using assms(3) by (simp add: comp_def)
  note lines = encode_armor_lines [OF assms(1) enc ok]
  have "list_all (\<lambda>l. l \<noteq> []) (map header_line hs)"
    by (auto simp: header_line_def list_all_iff)
  then show ?thesis
    using lines header_lines_back [OF ok] armor_format_reads [OF assms(1) lines ok] unfolding hs by blast
qed

theorem armor_headers_round_trip_witness:
  "\<exists>s. armor_with_headers line_armor [1, 255] \<lparr>elements = [Some ''Version''], ndim = 1\<rparr> \<lparr>elements = [Some ''1.0''], ndim = 1\<rparr> = Inr s \<and>
    split_on CHR 0x0A s = [begin_line, ''Version: 1.0'', [], ''ABPP''] \<and>
    dearmor line_armor s = Inr [1, 255] \<and> pgp_armor_headers line_armor s = Inr [(''Version'', ''1.0'')]"
proof -
  let ?keys = "\<lparr>elements = [Some ''Version''], ndim = 1\<rparr>" and ?vals = "\<lparr>elements = [Some ''1.0''], ndim = 1\<rparr>"
  have body: "letter_body [1, 255] = [''ABPP'']"
    by (simp add: letter_body_def byte_letters_def char_of_def bit_Suc_0_iff)
  let ?text = "join_with CHR 0x0A (begin_line # [''Version: 1.0''] @ [] # letter_body [1, 255])"
  have "utf8_ok (as_bytes ?text)"
    unfolding body begin_line_def by (rule utf8_ok_ascii) (auto simp: as_bytes_def byte_of_char_def ccode_def)
  then have "encode_armor line_armor [1, 255] [(''Version'', ''1.0'')] = Inr ?text"
    by (simp add: encode_armor_def line_armor_def header_line_def from_utf8_as_bytes del: join_with.simps)
  moreover have "header_ok (''Version'', ''1.0'')"
    by (simp add: is_ascii_def ccode_def sublist_code contains_str_iff [symmetric])
  ultimately have run: "armor_with_headers line_armor [1, 255] ?keys ?vals = Inr ?text"
    unfolding armor_with_headers_eq_Inr
    by - (rule exI [of _ "[''Version'']"], rule exI [of _ "[''1.0'']"], simp)
  have tidy: "list_all tidy_header [(''Version'', ''1.0'')]"
    by (simp add: name_eval)
  have "split_on CHR 0x0A ?text = [begin_line, ''Version: 1.0'', [], ''ABPP'']"
    unfolding body begin_line_def by (subst split_on_join_with) auto
  then show ?thesis
    using armor_headers_round_trip [OF line_armor_format run, of "[(''Version'', ''1.0'')]"] run tidy by auto
qed

text \<open>
  C32. No header is smuggled in: when \<open>armor_with_headers\<close> succeeds, both arrays are free of NULLs,
  one-dimensional or empty and of the same length; every key and value is ASCII text of one
  line; and no key contains the separator.
\<close>

theorem armor_headers_checked:
  assumes "armor_with_headers A data keys vals = Inr s"
  shows "None \<notin> set (elements keys) \<and> None \<notin> set (elements vals) \<and>
    length (elements keys) = length (elements vals) \<and> ndim keys \<le> 1 \<and> ndim keys = ndim vals \<and>
    list_all header_ok (zip (map the (elements keys)) (map the (elements vals)))"
  using assms unfolding armor_with_headers_eq_Inr by (auto simp: comp_def)

theorem armor_headers_checked_witness:
  "\<not> is_ok (armor_with_headers line_armor [] \<lparr>elements = [Some [CHR ''a'', CHR 0x0A]], ndim = 1\<rparr> \<lparr>elements = [Some ''b''], ndim = 1\<rparr>)"
  using armor_headers_checked [of line_armor "[]" "\<lparr>elements = [Some [CHR ''a'', CHR 0x0A]], ndim = 1\<rparr>"
      "\<lparr>elements = [Some ''b''], ndim = 1\<rparr>"]
  by (auto simp: is_ok_iff)


end
