(* ===== verification/Spec2Isabelle.thy ===== *)
theory Spec2Isabelle
  imports Raw_Cipher Hash Random_Bytes Pgp_Sym Pgp_Pub Password Modern Armor
begin

text \<open>
  \<^bold>\<open>A model of pg_crypto and its correctness.\<close>

  pg_crypto is a PostgreSQL extension written in Rust: a replacement of pgcrypto with a few modern
  functions beside it. Its implementation is the eight files under \<open>src/src\<close>; one, \<open>lib.rs\<close>, only
  declares the modules. The functions marked \<open>pg_extern\<close> are what SQL can call. They share no
  state: each parses its arguments, checks them, calls a cryptographic crate and turns the
  crate's errors into PostgreSQL errors. What can go wrong, and what is modelled here, is that
  code: parsers, size checks, slices, loops over keys and packets, and the order of errors.

  \<^bold>\<open>Reading the model.\<close> A definition has the name of the Rust function it models. A byte vector is a
  list of 8-bit words, a text is the string of its UTF-8 bytes, \<open>i32\<close> and \<open>u32\<close> are 32-bit words.
  \<open>pgrx::error!\<close> is \<open>Inl (PgError msg)\<close> with the message of the source; a panic is
  \<open>Inl (Panic msg)\<close>. Indexing, slicing and \<open>copy_from_slice\<close> are operations that panic out of range,
  so that they stay in range is a lemma and not a convention. A function that draws randomness takes the state of the generator and returns
  it with its result. Crates are not modelled: each theory has a record of the functions it calls
  there, passed to every definition that needs it, and what a theorem relies on is a named predicate
  over that record (\<open>modes_conform\<close>, \<open>skesk_conform\<close>, \<open>sym_message_conform\<close>, \<open>pub_message_conform\<close>,
  \<open>pwhash_conform\<close>, \<open>secretbox_conform\<close> and its siblings, \<open>armor_format\<close>, \<open>armor_conform\<close>, \<open>needs_key\<close>, \<open>fills_buffers\<close>). Every
  such predicate is shown to be satisfiable by a small concrete instance, which the witnesses of the
  theorems run.

  \<^bold>\<open>Theories.\<close>
  \<^item> \<open>Prelude\<close>: types, results and their sequencing, absence of panics, facts on lists and words.
  \<^item> \<open>Rust_Std\<close>: the part of Rust's standard library the sources use on strings and slices, among it
    UTF-8 validation, \<open>trim\<close> with the Unicode white space, \<open>split\<close>, \<open>parse\<close>, indexing and slices.
  \<^item> \<open>Block_Modes\<close>: ECB, CBC and CFB over a block permutation and PKCS#7 padding, with their inverses,
    and that the ciphertext determines the initialisation vector. It is the specification the block-mode crates are assumed to meet.
  \<^item> \<open>Raw_Cipher\<close> (\<open>raw.rs\<close>): type strings, key and IV normalisation, \<open>encrypt\<close>, \<open>decrypt\<close> and the
    \<open>_iv\<close> variants. The locale \<open>raw_engine\<close> is the contract \<open>transform\<close> has with the AES and the
    Blowfish half. Shown: decryption undoes encryption with the length of the ciphertext, the
    accepted type strings, the meaning of short keys, which bytes of a vector count, refused keys,
    and the one case that panics. \<open>fit\<close> and \<open>cycled_key\<close> are what \<open>fixed\<close> and \<open>blowfish_key\<close> compute.
  \<^item> \<open>Hash\<close> (\<open>hash.rs\<close>): selection of digests and HMACs by name, with the locale \<open>name_dispatch\<close>.
  \<^item> \<open>Random_Bytes\<close> (\<open>random.rs\<close>).
  \<^item> \<open>Pgp_Options\<close> (\<open>pgp.rs\<close>, option strings): both parsers are the loop \<open>option_loop\<close> over different
    bodies; the locale \<open>option_body\<close> is what both bodies keep. Shown: well-formedness as an invariant
    of the loop, a printer and its round trip, a refinement of the parser to a list of settings,
    and that encryption and decryption agree.
  \<^item> \<open>Pgp_Text\<close> (\<open>pgp.rs\<close>, message bodies): CRLF conversion, literal formats, \<open>decrypted_text\<close>,
    \<open>write_payload\<close>.
  \<^item> \<open>Pgp_Session\<close> (\<open>pgp.rs\<close>, shared by both kinds of decryption): the helper Sequoia calls back,
    with the callback that tries a session key as a state-passing function, and the atomic cell for
    the literal format as state; the locale \<open>key_search\<close> is the contract of both helpers' loops.
  \<^item> \<open>Pgp_Sym\<close> and \<open>Pgp_Pub\<close> (\<open>pgp.rs\<close>, passwords and public keys). Shown: end-to-end round trips,
    the order in which keys are tried, which secret keys are unlocked, bounds of the drawn S2K count,
    refusals, a wrong password or key, \<open>pgp_key_id\<close> on every branch, and that the password functions do not
    panic. Of a message it is assumed that it can be read by a helper that finds its session key; of
    a PKESK only that the key pair of its recipient opens it.
  \<^item> \<open>Password\<close> (\<open>password.rs\<close>): the six salt formats as a datatype with a printer, which
    \<open>salt_prefix\<close> inverts; the iteration counts \<open>gen_salt\<close> accepts.
  \<^item> \<open>Modern\<close> (\<open>modern.rs\<close>): the locales \<open>sealed_envelope\<close> and \<open>fixed_overhead\<close> are the contract of
    the functions that seal and open; signatures and the lengths of HKDF. That Argon2id, X25519 and
    XChaCha20-Poly1305 are only wrapped, after a check of sizes, is modelled but claims no theorem of
    its own: the crate's promise is the whole content.
  \<^item> \<open>Armor\<close> (\<open>armor.rs\<close>): header checks; that accepted headers can be told apart in the text,
    from the line format of RFC 4880, and are read back if they are tidy (\<open>tidy_header\<close>, which the
    code does not check).
  \<^item> This theory: properties that span components.

  \<^bold>\<open>Loops.\<close> Every loop of the sources is total here: recursion over the list it walks, or a measure
  (\<open>crlf_decode_loop\<close>, the scan of \<open>trim\<close>). The \<open>while\<close> of \<open>blowfish_key\<close> is the \<open>while\<close> combinator of
  the library; \<open>blowfish_extend\<close> evaluates it, so it ends on every key. No definition has fuel.

  \<^bold>\<open>Not modelled.\<close> The SQL binding that pgrx generates from the attributes (defaults, volatility, NULL
  arguments), the crates, packaging and test scripts. Timing and the secrecy of keys in memory are
  outside what a functional model can say. A key pair is taken not to change when it decrypts,
  and allocation not to fail.
\<close>

section \<open>Properties across components\<close>

lemma no_panic_crypto_error [simp]: "no_panic (Inl (crypto_error ctx e))"
  by (simp add: crypto_error_def)

lemma gen_random_bytes_no_panic: "no_panic (fst (gen_random_bytes R len w))"
  by (auto simp: gen_random_bytes_def split: prod.split)

lemma secretbox_open_no_panic: "no_panic (secretbox_open L data key)"
  unfolding secretbox_open_def by (auto intro!: no_panics)

lemma box_seal_open_no_panic: "box_sizes_ok L \<Longrightarrow> no_panic (box_seal_open L data pk sk)"
  unfolding box_seal_open_def box_sizes_ok_def by (auto intro!: no_panics)

lemma ed25519_sign_no_panic:
  assumes "sign_conform L"
  shows "no_panic (ed25519_sign L data sk)"
proof -
  have "SIGN_BYTES L \<le> length (signed_to_vec L s)"
    if signed: "length sk = SIGN_SECRETKEYBYTES L" "sign_with_defaults L (secret_key_to_public_key L sk, sk) data = Inr s" for s
  proof -
    obtain sig where "signed_to_vec L s = sig @ data" "length sig = SIGN_BYTES L"
      using assms signed unfolding sign_conform_def by blast
    then show ?thesis by simp
  qed
  then show ?thesis
    unfolding ed25519_sign_def Let_def by (auto simp: unwrap_or_else_eq_Inr intro!: no_panics)
qed

lemma hkdf_no_panic: "no_panic (hkdf_sha256 L ikm salt info len)" "no_panic (hkdf_sha512 L ikm salt info len)"
  unfolding hkdf_sha256_def hkdf_sha512_def validate_hkdf_length_def by (auto intro!: no_panics)

text \<open>
  C40. The functions of \<open>random.rs\<close> and \<open>modern.rs\<close> that slice a byte vector or convert a signed
  length, operations that panic out of range, do not panic on any argument: the guard in front of
  each covers it. These are both functions that draw bytes, \<open>secretbox_open\<close>, \<open>box_seal_open\<close>,
  \<open>ed25519_sign\<close> and both HKDFs; the other functions of the two files have no such operation. The
  hypotheses are about \<open>dryoc\<close>: the overhead of a sealed box has room for the ephemeral key, and a
  signed message begins with a signature of the declared length.
\<close>

theorem guarded_slices_no_panic:
  assumes "box_sizes_ok L" and "sign_conform L"
  shows "no_panic (fst (gen_random_bytes R len v)) \<and> no_panic (fst (random_bytes R len v)) \<and>
    no_panic (secretbox_open L data key) \<and> no_panic (box_seal_open L data key sk) \<and> no_panic (ed25519_sign L data sk) \<and>
    no_panic (hkdf_sha256 L key salt info len) \<and> no_panic (hkdf_sha512 L key salt info len)"
  unfolding random_bytes_def
  by (intro conjI gen_random_bytes_no_panic secretbox_open_no_panic hkdf_no_panic
      box_seal_open_no_panic [OF assms(1)] ed25519_sign_no_panic [OF assms(2)])

theorem guarded_slices_no_panic_witness:
  "no_panic (box_seal_open xor_dryoc (replicate 48 0) (replicate 32 1) (replicate 32 1)) \<and>
   no_panic (ed25519_sign xor_dryoc (replicate 48 0) (replicate 32 1))"
proof -
  have "box_sizes_ok xor_dryoc" by (simp add: box_sizes_ok_def xor_dryoc_def)
  from guarded_slices_no_panic [OF this xor_dryoc_conform(4), where R = counting
      and data = "replicate 48 0" and key = "replicate 32 1" and sk = "replicate 32 1"]
  show ?thesis by blast
qed

text \<open>
  C15. A message can be stored as text: encrypting with a password, armoring, dearmoring and
  decrypting gives the text back.
\<close>

theorem armored_message_round_trip:
  assumes "skesk_conform L" and "sym_message_conform L D" and "armor_conform A"
    and "utf8_ok (as_bytes s)" and "0 \<notin> set (as_bytes s)"
    and "pgp_sym_encrypt L s password options w = (Inr out, w')" and "armor A out = Inr stored"
  shows "and_then (dearmor A stored) (\<lambda>data. pgp_sym_decrypt L D data password options) = Inr s"
proof -
  obtain p where p: "parse_options options True = Inr p"
    and out: "sym_decrypt L D out password =
      Inr (literal_body p (as_bytes s), format_code (literal_format_of p))"
    using sym_encrypt_reads [OF assms(1,2)] assms(6) unfolding pgp_sym_encrypt_def by metis
  have "dearmor A stored = Inr out"
    using encode_armor_reads [OF assms(3), of out "[]"] assms(7) by (simp add: armor_def)
  moreover have "text_input p" using parse_options_ok [OF p] by simp
  ultimately show ?thesis
    using out text_survives assms(4,5) parse_decrypt_options_eq [OF p]
    by (simp add: pgp_sym_decrypt_def)
qed

theorem armored_message_round_trip_witness:
  "\<exists>stored. armor line_armor [7, 1, 238, 7, 9, 2, 104, 4, 3] = Inr stored \<and>
    and_then (dearmor line_armor stored)
      (\<lambda>data. pgp_sym_decrypt toy_crypto (toy_decryptor toy_parse) data ''pw'' ''convert-crlf=1, sess-key=1'') =
    Inr [CHR ''a'', CHR 0x0A]"
proof -
  have run: "pgp_sym_encrypt toy_crypto [CHR ''a'', CHR 0x0A] ''pw'' ''convert-crlf=1, sess-key=1'' 5 =
     (Inr [7, 1, 238, 7, 9, 2, 104, 4, 3], 10)"
    by (simp add: pgp_sym_encrypt_def sym_encrypt_def parse_example toy_sym_run)
  let ?text = "join_with CHR 0x0A [begin_line, [], ''AHABOOAHAJACGIAEAD'']"
  have letters: "letter_body [7, 1, 238, 7, 9, 2, 104, 4, 3] = [''AHABOOAHAJACGIAEAD'']"
    by (simp add: letter_body_def byte_letters_def char_of_def bit_Suc_0_iff)
  have "utf8_ok (as_bytes ?text)"
    unfolding begin_line_def by (rule utf8_ok_ascii) (auto simp: as_bytes_def byte_of_char_def ccode_def)
  then have arm: "armor line_armor [7, 1, 238, 7, 9, 2, 104, 4, 3] = Inr ?text"
    by (simp add: armor_def encode_armor_def line_armor_def letters from_utf8_as_bytes del: join_with.simps)
  have "utf8_ok (as_bytes [CHR ''a'', CHR 0x0A])" and "0 \<notin> set (as_bytes [CHR ''a'', CHR 0x0A])"
    by (simp_all add: as_bytes_def byte_of_char_def ccode_def utf8_ok.simps)
  with armored_message_round_trip [OF toy_skesk_conform toy_message_conform line_armor_conform _ _ run arm] arm
  show ?thesis by blast
qed

end
